(* ===== verification/Prelude.thy ===== *)
theory Prelude
  imports Main "HOL-Library.Word" "HOL-Library.Sublist"
begin

unbundle bit_operations_syntax

text \<open>
  Shared vocabulary of the development: the theorem collections that carry the
  component proofs, the two datatypes by which every theory speaks about JavaScript
  failures (an error value, and the completion of a call that may throw), and indexing
  of an array-like object the way JavaScript does it (\<^verbatim>\<open>xs[i]\<close> is
  \<^verbatim>\<open>undefined\<close> out of range, never an exception), with the lemmas on it that
  the components share, counting lemmas on lists, and the arithmetic of the bit
  operations on bytes and code points.
\<close>

section \<open>Theorem collections\<close>

named_theorems surface_defs \<open>definitions of the operations on the page's surfaces\<close>
named_theorems handler_defs \<open>definitions of the event handlers\<close>
named_theorems frame \<open>fields that an operation leaves as they were\<close>
named_theorems msg_defs \<open>the string literals of the script, as code units\<close>

section \<open>Errors and completions\<close>

text \<open>
  The exceptions that the modelled calls can raise: \<open>TypeError\<close> for a property read
  or a call on \<^verbatim>\<open>null\<close>, \<open>ReferenceError\<close> for a global that does not exist,
  \<open>InvalidStateError\<close> for \<^verbatim>\<open>readAsText\<close> on a
  reader that is still loading, \<open>EngineException\<close> for anything the compiled engine
  throws. A call into foreign code either returns a value or throws.
\<close>

datatype js_error = TypeError | ReferenceError | InvalidStateError | EngineException

datatype 'a completion = Returns 'a | Throws

section \<open>Indexing as JavaScript does it\<close>

definition item :: "'a list \<Rightarrow> nat \<Rightarrow> 'a option" where
  "item xs i = (if i < length xs then Some (xs ! i) else None)"

lemma item_Nil [simp]: "item [] i = None"
  by (simp add: item_def)

lemma item_Cons_0 [simp]: "item (x # xs) 0 = Some x"
  by (simp add: item_def)

lemma item_Cons_Suc [simp]: "item (x # xs) (Suc i) = item xs i"
  by (simp add: item_def)

lemma item_eq_None_iff: "item xs i = None \<longleftrightarrow> length xs \<le> i"
  by (auto simp: item_def)

lemma item_eq_Some_iff: "item xs i = Some x \<longleftrightarrow> i < length xs \<and> xs ! i = x"
  by (auto simp: item_def)

lemma item_0_eq_None_iff [simp]: "item xs 0 = None \<longleftrightarrow> xs = []"
  by (cases xs) simp_all

lemma item_0_eq_hd: "xs \<noteq> [] \<Longrightarrow> item xs 0 = Some (hd xs)"
  by (cases xs) simp_all

lemma item_append_left: "i < length xs \<Longrightarrow> item (xs @ ys) i = item xs i"
  by (simp add: item_def nth_append)

lemma item_append_length [simp]: "item (xs @ [y]) (length xs) = Some y"
  by (simp add: item_def)

lemma item_update_same: "i < length xs \<Longrightarrow> item (xs[i := y]) i = Some y"
  by (simp add: item_def)

lemma item_update_other: "i \<noteq> j \<Longrightarrow> item (xs[i := y]) j = item xs j"
  by (simp add: item_def)

section \<open>Counting the elements of a list that satisfy a predicate\<close>

text \<open>
  Replacing one element moves the count by one when the old and the new element
  disagree on the predicate.
\<close>

lemma filter_update_count:
  assumes "i < length xs" "P (xs ! i)" "\<not> P y"
  shows "Suc (length (filter P (xs[i := y]))) = length (filter P xs)"
  using assms
proof (induction xs arbitrary: i)
  case Nil
  then show ?case by simp
next
  case (Cons x xs)
  show ?case
  proof (cases i)
    case 0
    with Cons.prems show ?thesis by simp
  next
    case (Suc j)
    with Cons.prems Cons.IH [of j] show ?thesis by auto
  qed
qed

lemma filter_update_count_up:
  assumes "i < length xs" "\<not> P (xs ! i)" "P y"
  shows "length (filter P (xs[i := y])) = Suc (length (filter P xs))"
  using assms
proof (induction xs arbitrary: i)
  case Nil
  then show ?case by simp
next
  case (Cons x xs)
  show ?case
  proof (cases i)
    case 0
    with Cons.prems show ?thesis by simp
  next
    case (Suc j)
    with Cons.prems Cons.IH [of j] show ?thesis by auto
  qed
qed

section \<open>Arithmetic of the bit operations\<close>

text \<open>
  Masks, shifts and disjoint sums as division and remainder, and the value of a number
  that lies in a known window: the decoders and the encoder of the text are written
  with the bit operations of their sources, and their lemmas are proved by arithmetic.
\<close>

lemma and_mask_mod: "(x::nat) AND mask n = x mod 2 ^ n"
  by (simp only: flip: take_bit_eq_mask) (simp add: take_bit_eq_mod)

lemma and_low_bits:
  "(x::nat) AND 0x3F = x mod 64" "x AND 0x1F = x mod 32" "x AND 0xF = x mod 16" "x AND 7 = x mod 8"
  "x AND 0x3FF = x mod 1024"
  using and_mask_mod [of x 6] and_mask_mod [of x 5] and_mask_mod [of x 4] and_mask_mod [of x 3]
    and_mask_mod [of x 10]
  by (simp_all add: mask_eq_exp_minus_1)

lemma unat_and_low_bits:
  "unat ((b::8 word) AND 0x3F) = unat b mod 64" "unat (b AND 0x1F) = unat b mod 32"
  "unat (b AND 0xF) = unat b mod 16" "unat (b AND 7) = unat b mod 8"
  by (simp_all add: unsigned_and_eq and_low_bits)

lemma push_bit_or_add:
  assumes "x < 2 ^ n"
  shows "push_bit n (c::nat) OR x = c * 2 ^ n + x"
proof -
  from assms have x: "take_bit n x = x" by (simp add: take_bit_nat_eq_self)
  have "push_bit n c + take_bit n x = push_bit n c OR take_bit n x"
    by (rule disjunctive_add) (auto simp: bit_simps)
  with x show ?thesis by (simp add: push_bit_eq_mult)
qed

lemma mod_window: "k * n \<le> x \<Longrightarrow> x < Suc k * n \<Longrightarrow> x mod n = x - k * (n::nat)"
  by (metis add.commute le_add_diff_inverse less_diff_conv2 mod_less mod_mult_self1 mult_Suc)

lemma div_window:
  assumes "0 < n" and "x div n = k"
  shows "k * n \<le> x" and "x < Suc k * (n::nat)"
proof -
  from assms(1) have "x mod n < n" by simp
  moreover have "x = x div n * n + x mod n" by simp
  ultimately show "k * n \<le> x" and "x < Suc k * n" unfolding assms(2) by simp_all
qed

end
