(* ===== verification/JsString.thy ===== *)
theory JsString
  imports Prelude
begin

text \<open>
  JavaScript strings as the script sees them: sequences of UTF-16 code units, so that
  \<^verbatim>\<open>text.length\<close> is the length of the list. The theory holds the embedding of
  ASCII literals, the decimal rendering that the template literal of
  \<^verbatim>\<open>src/script.js\<close> line 58 applies to \<^verbatim>\<open>text.length\<close>, a reference parser
  for that rendering, and the lemmas that relate the two (digits only, no leading zero,
  round trip, injectivity, number of digits).
\<close>

section \<open>Code units and strings\<close>

type_synonym code_unit = "16 word"
type_synonym jsstring = "code_unit list"

definition ascii :: "string \<Rightarrow> jsstring" where
  "ascii cs = map (\<lambda>c. of_nat (of_char c)) cs"

definition LF :: code_unit where
  "LF = 0x0A"

lemma length_ascii [simp]: "length (ascii cs) = length cs"
  by (simp add: ascii_def)

lemma ascii_append: "ascii (cs @ ds) = ascii cs @ ascii ds"
  by (simp add: ascii_def)

section \<open>Decimal rendering of a length\<close>

text \<open>
  A string length is a non-negative integer below \<open>2 ^ 53\<close>, which
  \<^verbatim>\<open>Number.prototype.toString\<close> renders as its decimal digits, most significant
  first, with no sign, separator or exponent.
\<close>

definition digit_unit :: "nat \<Rightarrow> code_unit" where
  "digit_unit d = of_nat (48 + d)"

fun js_of_nat :: "nat \<Rightarrow> jsstring" where
  "js_of_nat n =
     (if n < 10 then [digit_unit n]
      else js_of_nat (n div 10) @ [digit_unit (n mod 10)])"

declare js_of_nat.simps [simp del]

text \<open>The reference reading of a decimal numeral, against which the rendering is judged.\<close>

definition is_digit :: "code_unit \<Rightarrow> bool" where
  "is_digit u \<longleftrightarrow> 48 \<le> unat u \<and> unat u \<le> 57"

definition digit_value :: "code_unit \<Rightarrow> nat" where
  "digit_value u = unat u - 48"

definition decimal_value :: "jsstring \<Rightarrow> nat" where
  "decimal_value us = foldl (\<lambda>a u. 10 * a + digit_value u) 0 us"

definition nat_of_js :: "jsstring \<Rightarrow> nat option" where
  "nat_of_js us =
     (if us \<noteq> [] \<and> list_all is_digit us then Some (decimal_value us) else None)"

subsection \<open>Single digits\<close>

lemma unat_digit_unit: "d < 10 \<Longrightarrow> unat (digit_unit d) = 48 + d"
  unfolding digit_unit_def by (subst unat_of_nat) simp

lemma is_digit_digit_unit [simp]: "d < 10 \<Longrightarrow> is_digit (digit_unit d)"
  by (simp add: is_digit_def unat_digit_unit)

lemma digit_value_digit_unit [simp]: "d < 10 \<Longrightarrow> digit_value (digit_unit d) = d"
  by (simp add: digit_value_def unat_digit_unit)

lemma digit_unit_inj: "d < 10 \<Longrightarrow> e < 10 \<Longrightarrow> digit_unit d = digit_unit e \<Longrightarrow> d = e"
  by (metis digit_value_digit_unit)

lemma not_is_digit_LF [simp]: "\<not> is_digit LF"
  by (simp add: is_digit_def LF_def)

lemma digits_no_LF: "list_all is_digit us \<Longrightarrow> LF \<notin> set us"
  by (auto simp: list_all_iff)

subsection \<open>The two equations of the rendering\<close>

lemma js_of_nat_small: "n < 10 \<Longrightarrow> js_of_nat n = [digit_unit n]"
  by (simp add: js_of_nat.simps)

lemma js_of_nat_large:
  "10 \<le> n \<Longrightarrow> js_of_nat n = js_of_nat (n div 10) @ [digit_unit (n mod 10)]"
  by (subst js_of_nat.simps) simp

lemma js_of_nat_nonempty [simp]: "js_of_nat n \<noteq> []"
  by (subst js_of_nat.simps) simp

text \<open>
  Both facts below follow the recursion of the rendering: computation induction, with
  the guard \<open>n < 10\<close> deciding which equation applies.
\<close>

lemma js_of_nat_digits [simp]: "list_all is_digit (js_of_nat n)"
proof (induction n rule: js_of_nat.induct)
  case (1 n)
  show ?case
  proof (cases "n < 10")
    case True
    then show ?thesis by (simp add: js_of_nat_small)
  next
    case False
    with "1.IH" show ?thesis by (simp add: js_of_nat_large)
  qed
qed

lemma decimal_value_js_of_nat [simp]: "decimal_value (js_of_nat n) = n"
proof (induction n rule: js_of_nat.induct)
  case (1 n)
  show ?case
  proof (cases "n < 10")
    case True
    then show ?thesis by (simp add: js_of_nat_small decimal_value_def)
  next
    case False
    with "1.IH" show ?thesis by (simp add: js_of_nat_large decimal_value_def)
  qed
qed

lemma js_of_nat_no_LF [simp]: "LF \<notin> set (js_of_nat n)"
  by (rule digits_no_LF) simp

subsection \<open>Injectivity\<close>

lemma js_of_nat_inj [simp]: "js_of_nat m = js_of_nat n \<longleftrightarrow> m = n"
  by (metis decimal_value_js_of_nat)

subsection \<open>The number of digits\<close>

lemma js_of_nat_upper: "n < 10 ^ length (js_of_nat n)"
proof (induction n rule: js_of_nat.induct)
  case (1 n)
  show ?case
  proof (cases "n < 10")
    case True
    then show ?thesis by (simp add: js_of_nat_small)
  next
    case False
    with "1.IH" have "n div 10 < 10 ^ length (js_of_nat (n div 10))" by simp
    with False show ?thesis by (simp add: js_of_nat_large)
  qed
qed

lemma js_of_nat_lower: "10 \<le> n \<Longrightarrow> 10 ^ (length (js_of_nat n) - 1) \<le> n"
proof (induction n rule: js_of_nat.induct)
  case (1 n)
  let ?m = "n div 10"
  show ?case
  proof (cases "10 \<le> ?m")
    case True
    with "1.IH" "1.prems" have "10 ^ (length (js_of_nat ?m) - 1) \<le> ?m" by simp
    then have "10 * 10 ^ (length (js_of_nat ?m) - 1) \<le> n" by arith
    moreover have "length (js_of_nat ?m) \<noteq> 0" by simp
    ultimately show ?thesis using "1.prems" by (simp add: js_of_nat_large flip: power_Suc)
  next
    case False
    with "1.prems" show ?thesis by (simp add: js_of_nat_large js_of_nat_small)
  qed
qed

lemma js_of_nat_hd: "10 \<le> n \<Longrightarrow> hd (js_of_nat n) \<noteq> digit_unit 0"
proof (induction n rule: js_of_nat.induct)
  case (1 n)
  let ?m = "n div 10"
  from "1.prems" have m: "0 < ?m" by (simp add: div_greater_zero_iff)
  show ?case
  proof (cases "10 \<le> ?m")
    case True
    with "1.IH" "1.prems" show ?thesis by (simp add: js_of_nat_large)
  next
    case False
    with m have "digit_unit ?m \<noteq> digit_unit 0"
      using digit_unit_inj [of ?m 0] by auto
    with False "1.prems" show ?thesis by (simp add: js_of_nat_large js_of_nat_small)
  qed
qed

section \<open>What the rendering promises\<close>

text \<open>
  The decimal rendering of a length reads back as that length: the
  rendering is never empty, holds digits only, and the reference parser returns the
  number that was rendered.
\<close>

theorem js_of_nat_roundtrip:
  "nat_of_js (js_of_nat n) = Some n \<and> js_of_nat n \<noteq> [] \<and> list_all is_digit (js_of_nat n)"
  by (simp add: nat_of_js_def)

text \<open>
  The rendering has as many digits as the number needs and no more: the
  number is below the power of ten of the number of its digits, and a rendering of more
  than one digit does not start with zero.
\<close>

theorem js_of_nat_digit_count:
  "n < 10 ^ length (js_of_nat n) \<and>
   (10 \<le> n \<longrightarrow> 10 ^ (length (js_of_nat n) - 1) \<le> n \<and> hd (js_of_nat n) \<noteq> digit_unit 0)"
  using js_of_nat_upper [of n] js_of_nat_lower [of n] js_of_nat_hd [of n] by blast

theorem js_of_nat_digit_count_witness:
  "(1234::nat) < 10 ^ length (js_of_nat 1234) \<and> 10 ^ (length (js_of_nat 1234) - 1) \<le> (1234::nat) \<and>
   js_of_nat 1234 = ascii ''1234'' \<and> hd (js_of_nat 1234) \<noteq> digit_unit 0"
  using js_of_nat_digit_count [of 1234]
  by (simp add: js_of_nat.simps ascii_def digit_unit_def)

end
