(* ===== verification/Messages.thy ===== *)
theory Messages
  imports JsString
begin

text \<open>
  The string literals of \<^verbatim>\<open>src/script.js\<close>, code unit by code unit (the Korean
  text is outside ASCII, so each literal is given by its UTF-16 code units, in
  hexadecimal), and what the rest of the development needs of them: they are pairwise
  different, every log message ends its line, and the line that reports a length
  determines that length.
\<close>

section \<open>The literals\<close>

text \<open>Line 19: the placeholder shown when no file is selected.\<close>

definition no_file_selected :: jsstring where [msg_defs]:
  "no_file_selected = [0xc120, 0xd0dd, 0xb41c, 0x20, 0xd30c, 0xc77c, 0x20, 0xc5c6, 0xc74c]"

text \<open>Lines 30-31: the two lines shown when the engine has started.\<close>

definition wasm_loaded :: jsstring where [msg_defs]:
  "wasm_loaded = [0x57, 0x41, 0x53, 0x4d, 0x20, 0xb85c, 0xb4dc, 0x20, 0xc644, 0xb8cc, 0x21,
     0x0a, 0xd14d, 0xc2a4, 0xd2b8, 0x20, 0xd30c, 0xc77c, 0xc744, 0x20, 0xc120, 0xd0dd,
     0xd55c, 0x20, 0xb4a4, 0x20, 0x27, 0xbd84, 0xc11d, 0xd558, 0xae30, 0x27, 0xb97c, 0x20,
     0xb20c, 0xb7ec, 0xc8fc, 0xc138, 0xc694, 0x2e, 0x0a]"

text \<open>Line 41: the request to select a file first.\<close>

definition select_file_first :: jsstring where [msg_defs]:
  "select_file_first = [0xba3c, 0xc800, 0x20, 0xd14d, 0xc2a4, 0xd2b8, 0x28, 0x2e, 0x74, 0x78,
     0x74, 0x29, 0x20, 0xd30c, 0xc77c, 0xc744, 0x20, 0xc120, 0xd0dd, 0xd574, 0x20, 0xc8fc,
     0xc138, 0xc694, 0x2e, 0x0a]"

text \<open>Line 46: the notice that the engine has not started yet.\<close>

definition wasm_not_ready :: jsstring where [msg_defs]:
  "wasm_not_ready = [0xc544, 0xc9c1, 0x20, 0x57, 0x41, 0x53, 0x4d, 0xc774, 0x20, 0xc900,
     0xbe44, 0xb418, 0xc9c0, 0x20, 0xc54a, 0xc558, 0xc2b5, 0xb2c8, 0xb2e4, 0x2e, 0x0a]"

text \<open>
  Line 58: the template literal that reports the length of the text, its fixed parts
  and the whole line for a length \<open>n\<close>.
\<close>

definition file_read_prefix :: jsstring where [msg_defs]:
  "file_read_prefix = [0xd30c, 0xc77c, 0xc744, 0x20, 0xc77d, 0xc5c8, 0xc2b5, 0xb2c8, 0xb2e4,
     0x2e, 0x20, 0xae38, 0xc774, 0x3a, 0x20]"

definition file_read_suffix :: jsstring where [msg_defs]:
  "file_read_suffix = [0x20, 0x62, 0x79, 0x74, 0x65, 0x73, 0x0a]"

definition file_read_line :: "nat \<Rightarrow> jsstring" where
  "file_read_line n = file_read_prefix @ js_of_nat n @ file_read_suffix"

text \<open>Line 66: the notice that the result is on the page.\<close>

definition analysis_done :: jsstring where [msg_defs]:
  "analysis_done = [0xbd84, 0xc11d, 0x20, 0xc644, 0xb8cc, 0x21, 0x20, 0xacb0, 0xacfc, 0xac00,
     0x20, 0xd654, 0xba74, 0xc5d0, 0x20, 0xd45c, 0xc2dc, 0xb418, 0xc5c8, 0xc2b5, 0xb2c8,
     0xb2e4, 0x2e, 0x0a]"

text \<open>Line 70: the notice that reading the file failed.\<close>

definition read_failed :: jsstring where [msg_defs]:
  "read_failed = [0xd30c, 0xc77c, 0x20, 0xc77d, 0xae30, 0x20, 0xc911, 0x20, 0xc624, 0xb958,
     0xac00, 0x20, 0xbc1c, 0xc0dd, 0xd588, 0xc2b5, 0xb2c8, 0xb2e4, 0x2e, 0x0a]"

section \<open>The fixed log messages\<close>

definition fixed_messages :: "jsstring list" where
  "fixed_messages = [wasm_loaded, select_file_first, wasm_not_ready, analysis_done, read_failed]"

lemma fixed_messages_end_line: "\<forall>m \<in> set fixed_messages. m \<noteq> [] \<and> last m = LF"
  by (simp add: fixed_messages_def msg_defs LF_def)

lemma file_read_suffix_ascii: "file_read_suffix = ascii '' bytes'' @ [LF]"
  by (simp add: msg_defs ascii_def LF_def)

section \<open>The line that reports a length\<close>

lemma file_read_line_inj [simp]: "file_read_line m = file_read_line n \<longleftrightarrow> m = n"
  by (simp add: file_read_line_def)

lemma file_read_line_end: "last (file_read_line n) = LF"
  by (simp add: file_read_line_def file_read_suffix_def LF_def)

lemma length_file_read_line: "length (file_read_line n) = 22 + length (js_of_nat n)"
  by (simp add: file_read_line_def msg_defs)

lemma file_read_line_not_fixed [simp]: "file_read_line n \<notin> set fixed_messages"
  by (simp add: fixed_messages_def file_read_line_def msg_defs)

section \<open>Reading the length back from the log\<close>

text \<open>
  The reference reading of the line of line 58: the digits between its fixed parts, as
  a number.
\<close>

definition reported_length :: "jsstring \<Rightarrow> nat option" where
  "reported_length l =
     (let body = drop (length file_read_prefix) l;
          ds = take (length body - length file_read_suffix) body
      in if l = file_read_prefix @ ds @ file_read_suffix then nat_of_js ds else None)"

section \<open>What the messages promise\<close>

text \<open>
  The line that reports the length of the text determines that length:
  the digits between the fixed parts of the line read back as the number that was
  reported, so two texts of different length never give the same line.
\<close>

theorem reported_length_roundtrip: "reported_length (file_read_line n) = Some n"
  by (simp add: reported_length_def file_read_line_def Let_def nat_of_js_def)

text \<open>
  The user can tell the outcomes apart by the log: the five fixed messages
  are pairwise different, each of them is at least one complete line, and none of them
  is the line that reports a length, for any length.
\<close>

theorem messages_distinct:
  "distinct fixed_messages \<and> list_all (\<lambda>m. m \<noteq> [] \<and> last m = LF) fixed_messages \<and>
   file_read_line n \<notin> set fixed_messages \<and> last (file_read_line n) = LF"
  by (simp add: fixed_messages_def file_read_line_def msg_defs LF_def)

end
