(* ===== verification/Dom.thy ===== *)
theory Dom
  imports Messages
begin

text \<open>
  The surfaces of the page that \<^verbatim>\<open>src/script.js\<close> looks up in lines 6-12 and the
  writes it makes to them: the file picker's selection, the text of the file-name span,
  of the log area and of the result area. The record is the base of the page state;
  every operation is stated over its scheme, so that it applies unchanged to the
  extended states of the later theories. The lemmas say what each write changes and
  what it leaves alone.
\<close>

section \<open>Files and surfaces\<close>

text \<open>
  A \<^verbatim>\<open>File\<close> as the script uses it: its \<^verbatim>\<open>name\<close>, and the identity of the
  underlying blob, which only the browser can read.
\<close>

record jsfile =
  file_name :: jsstring
  file_blob :: nat

text \<open>
  \<open>fileInput_files\<close> is \<^verbatim>\<open>fileInput.files\<close>: \<open>None\<close> stands for \<^verbatim>\<open>null\<close>
  (the element is not a file picker), \<open>Some fs\<close> for a \<^verbatim>\<open>FileList\<close>. The next
  three fields are the \<^verbatim>\<open>textContent\<close> of the elements. \<open>uncaught\<close> is not a
  surface of the page: it records, in order, the exceptions that left an event handler
  uncaught, which the browser reports and otherwise drops.
\<close>

record dom =
  fileInput_files :: "jsfile list option"
  fileNameSpan :: jsstring
  logArea :: jsstring
  resultDiv :: jsstring
  uncaught :: "js_error list"

section \<open>Writes\<close>

definition show_file_name :: "jsstring \<Rightarrow> 'a dom_scheme \<Rightarrow> 'a dom_scheme" where [surface_defs]:
  "show_file_name t s = s\<lparr>fileNameSpan := t\<rparr>"

definition log_write :: "jsstring \<Rightarrow> 'a dom_scheme \<Rightarrow> 'a dom_scheme" where [surface_defs]:
  "log_write t s = s\<lparr>logArea := t\<rparr>"

definition log_append :: "jsstring \<Rightarrow> 'a dom_scheme \<Rightarrow> 'a dom_scheme" where [surface_defs]:
  "log_append t s = s\<lparr>logArea := logArea s @ t\<rparr>"

definition show_result :: "jsstring \<Rightarrow> 'a dom_scheme \<Rightarrow> 'a dom_scheme" where [surface_defs]:
  "show_result t s = s\<lparr>resultDiv := t\<rparr>"

text \<open>An exception that nothing catches ends the handler; the state stays as it is.\<close>

definition throw :: "js_error \<Rightarrow> 'a dom_scheme \<Rightarrow> 'a dom_scheme" where [surface_defs]:
  "throw e s = s\<lparr>uncaught := uncaught s @ [e]\<rparr>"

text \<open>
  What the browser does to the picker when the user chooses files, before it dispatches
  the change event.
\<close>

definition pick_files :: "jsfile list \<Rightarrow> 'a dom_scheme \<Rightarrow> 'a dom_scheme" where [surface_defs]:
  "pick_files fs s = s\<lparr>fileInput_files := Some fs\<rparr>"

section \<open>What each write changes\<close>

lemma logArea_log_write [simp]: "logArea (log_write t s) = t"
  by (simp add: log_write_def)

lemma logArea_log_append [simp]: "logArea (log_append t s) = logArea s @ t"
  by (simp add: log_append_def)

lemma resultDiv_show_result [simp]: "resultDiv (show_result t s) = t"
  by (simp add: show_result_def)

lemma fileNameSpan_show_file_name [simp]: "fileNameSpan (show_file_name t s) = t"
  by (simp add: show_file_name_def)

lemma uncaught_throw [simp]: "uncaught (throw e s) = uncaught s @ [e]"
  by (simp add: throw_def)

lemma fileInput_files_pick_files [simp]: "fileInput_files (pick_files fs s) = Some fs"
  by (simp add: pick_files_def)

section \<open>What each write leaves alone\<close>

lemma show_file_name_frame [simp, frame]:
  "fileInput_files (show_file_name t s) = fileInput_files s"
  "logArea (show_file_name t s) = logArea s"
  "resultDiv (show_file_name t s) = resultDiv s"
  "uncaught (show_file_name t s) = uncaught s"
  by (simp_all add: show_file_name_def)

lemma log_write_frame [simp, frame]:
  "fileInput_files (log_write t s) = fileInput_files s"
  "fileNameSpan (log_write t s) = fileNameSpan s"
  "resultDiv (log_write t s) = resultDiv s"
  "uncaught (log_write t s) = uncaught s"
  by (simp_all add: log_write_def)

lemma log_append_frame [simp, frame]:
  "fileInput_files (log_append t s) = fileInput_files s"
  "fileNameSpan (log_append t s) = fileNameSpan s"
  "resultDiv (log_append t s) = resultDiv s"
  "uncaught (log_append t s) = uncaught s"
  by (simp_all add: log_append_def)

lemma show_result_frame [simp, frame]:
  "fileInput_files (show_result t s) = fileInput_files s"
  "fileNameSpan (show_result t s) = fileNameSpan s"
  "logArea (show_result t s) = logArea s"
  "uncaught (show_result t s) = uncaught s"
  by (simp_all add: show_result_def)

lemma throw_frame [simp, frame]:
  "fileInput_files (throw e s) = fileInput_files s"
  "fileNameSpan (throw e s) = fileNameSpan s"
  "logArea (throw e s) = logArea s"
  "resultDiv (throw e s) = resultDiv s"
  by (simp_all add: throw_def)

lemma pick_files_frame [simp, frame]:
  "fileNameSpan (pick_files fs s) = fileNameSpan s"
  "logArea (pick_files fs s) = logArea s"
  "resultDiv (pick_files fs s) = resultDiv s"
  "uncaught (pick_files fs s) = uncaught s"
  by (simp_all add: pick_files_def)

section \<open>How the writes to the log compose\<close>

lemma log_write_log_write [simp]: "log_write t (log_write u s) = log_write t s"
  by (simp add: log_write_def)

lemma log_append_log_write: "log_append t (log_write u s) = log_write (u @ t) s"
  by (simp add: log_write_def log_append_def)

lemma log_append_log_append: "log_append t (log_append u s) = log_append (u @ t) s"
  by (simp add: log_append_def)

lemma log_write_log_append [simp]: "log_write t (log_append u s) = log_write t s"
  by (simp add: log_write_def log_append_def)

lemma log_append_extends: "prefix (logArea s) (logArea (log_append t s))"
  by simp

lemma log_append_Nil [simp]: "log_append [] s = s"
  by (simp add: log_append_def)

end
