(* ===== verification/Engine.thy ===== *)
theory Engine
  imports Dom
begin

text \<open>
  The compiled engine as the script meets it: the global \<^verbatim>\<open>processText\<close> of line 2,
  the wrapper that \<^verbatim>\<open>Module.cwrap\<close> hands out in line 27, and the call of line 61.
  What the engine computes is not part of the script; it is a parameter of the state:
  the function on strings that the wrapper is. The theory \<open>Cwrap\<close> gives the form of
  that function over a compiled function on bytes. The record extends the surfaces of
  \<open>Dom\<close>, so every write to a surface applies to it.
\<close>

section \<open>The engine and its state\<close>

text \<open>
  An engine answers a text with a string or throws. It may keep state between calls,
  so its answer is a function of the texts it was called with before, oldest first,
  and of the text of this call. A pure engine ignores the first argument.
\<close>

type_synonym engine = "jsstring list \<Rightarrow> jsstring \<Rightarrow> jsstring completion"

text \<open>
  \<open>wasm_module\<close> is the function that the module exports as \<^verbatim>\<open>process_text\<close>;
  the script never writes it. \<open>processText\<close> is the global of line 2, \<open>None\<close> for
  \<^verbatim>\<open>null\<close>. \<open>calls\<close> is not a variable of the script: it records the texts that
  the engine has been called with, oldest first.
\<close>

record wasm = dom +
  wasm_module :: engine
  processText :: "engine option"
  calls :: "jsstring list"

section \<open>Operations\<close>

text \<open>Line 27: \<^verbatim>\<open>Module.cwrap("process_text", "string", ["string"])\<close>.\<close>

definition cwrap :: "'a wasm_scheme \<Rightarrow> engine" where
  "cwrap s = wasm_module s"

text \<open>Lines 27 and 45: the global is assigned once and tested for \<^verbatim>\<open>null\<close>.\<close>

definition set_processText :: "engine \<Rightarrow> 'a wasm_scheme \<Rightarrow> 'a wasm_scheme" where
  "set_processText f s = s\<lparr>processText := Some f\<rparr>"

definition engine_ready :: "'a wasm_scheme \<Rightarrow> bool" where
  "engine_ready s \<longleftrightarrow> processText s \<noteq> None"

text \<open>
  Line 61: one call of the engine. The call is recorded whether it returns or throws.
\<close>

definition invoke :: "engine \<Rightarrow> jsstring \<Rightarrow> 'a wasm_scheme \<Rightarrow> jsstring completion \<times> 'a wasm_scheme" where
  "invoke f text s = (f (calls s) text, s\<lparr>calls := calls s @ [text]\<rparr>)"

section \<open>Lemmas\<close>

lemma processText_set_processText [simp]: "processText (set_processText f s) = Some f"
  by (simp add: set_processText_def)

lemma engine_ready_set_processText [simp]: "engine_ready (set_processText f s)"
  by (simp add: engine_ready_def)

lemma set_processText_frame [simp, frame]:
  "fileInput_files (set_processText f s) = fileInput_files s"
  "fileNameSpan (set_processText f s) = fileNameSpan s"
  "logArea (set_processText f s) = logArea s"
  "resultDiv (set_processText f s) = resultDiv s"
  "uncaught (set_processText f s) = uncaught s"
  "wasm_module (set_processText f s) = wasm_module s"
  "calls (set_processText f s) = calls s"
  by (simp_all add: set_processText_def)

lemma set_processText_idem [simp]: "set_processText f (set_processText g s) = set_processText f s"
  by (simp add: set_processText_def)

lemma fst_invoke [simp]: "fst (invoke f text s) = f (calls s) text"
  by (simp add: invoke_def)

lemma calls_invoke [simp]: "calls (snd (invoke f text s)) = calls s @ [text]"
  by (simp add: invoke_def)

lemma invoke_frame [simp, frame]:
  "fileInput_files (snd (invoke f text s)) = fileInput_files s"
  "fileNameSpan (snd (invoke f text s)) = fileNameSpan s"
  "logArea (snd (invoke f text s)) = logArea s"
  "resultDiv (snd (invoke f text s)) = resultDiv s"
  "uncaught (snd (invoke f text s)) = uncaught s"
  "wasm_module (snd (invoke f text s)) = wasm_module s"
  "processText (snd (invoke f text s)) = processText s"
  by (simp_all add: invoke_def)

text \<open>The writes of \<open>Dom\<close> leave the engine's fields alone.\<close>

lemma surface_writes_engine_frame [simp, frame]:
  "wasm_module (show_file_name t s) = wasm_module s"
  "processText (show_file_name t s) = processText s"
  "calls (show_file_name t s) = calls s"
  "wasm_module (log_write t s) = wasm_module s"
  "processText (log_write t s) = processText s"
  "calls (log_write t s) = calls s"
  "wasm_module (log_append t s) = wasm_module s"
  "processText (log_append t s) = processText s"
  "calls (log_append t s) = calls s"
  "wasm_module (show_result t s) = wasm_module s"
  "processText (show_result t s) = processText s"
  "calls (show_result t s) = calls s"
  "wasm_module (throw e s) = wasm_module s"
  "processText (throw e s) = processText s"
  "calls (throw e s) = calls s"
  "wasm_module (pick_files fs s) = wasm_module s"
  "processText (pick_files fs s) = processText s"
  "calls (pick_files fs s) = calls s"
  by (simp_all add: surface_defs)

lemma engine_ready_surface_writes [simp]:
  "engine_ready (show_file_name t s) = engine_ready s"
  "engine_ready (log_write t s) = engine_ready s"
  "engine_ready (log_append t s) = engine_ready s"
  "engine_ready (show_result t s) = engine_ready s"
  "engine_ready (throw e s) = engine_ready s"
  "engine_ready (pick_files fs s) = engine_ready s"
  by (simp_all add: engine_ready_def)

end
