(* ===== verification/FileReader.thy ===== *)
theory FileReader
  imports Engine
begin

text \<open>
  The \<^verbatim>\<open>FileReader\<close> objects that the click handler creates (line 50) and starts
  (line 73), and the browser's side of a read: its completion, after which exactly one
  of the reader's two callbacks runs. A reader is known by the order of its creation.
  The record that adds the readers to the engine's state is the state of the whole page.
\<close>

section \<open>Readers\<close>

datatype ready_state = EMPTY | LOADING | DONE

text \<open>
  The numeric values of the three constants in the File API, and the order on the
  states that they give: a reader passes through its states in this order.
\<close>

fun state_value :: "ready_state \<Rightarrow> nat" where
  "state_value EMPTY = 0"
| "state_value LOADING = 1"
| "state_value DONE = 2"

lemma state_value_inj: "state_value a = state_value b \<Longrightarrow> a = b"
  by (cases a; cases b) simp_all

instantiation ready_state :: linorder
begin

definition less_eq_ready_state :: "ready_state \<Rightarrow> ready_state \<Rightarrow> bool" where
  "a \<le> b \<longleftrightarrow> state_value a \<le> state_value b"

definition less_ready_state :: "ready_state \<Rightarrow> ready_state \<Rightarrow> bool" where
  "a < b \<longleftrightarrow> state_value a < state_value b"

instance
  by standard (auto simp: less_eq_ready_state_def less_ready_state_def dest: state_value_inj)

end

lemma ready_state_le_DONE [simp]: "a \<le> DONE"
  by (cases a) (simp_all add: less_eq_ready_state_def)

lemma EMPTY_le_ready_state [simp]: "EMPTY \<le> a"
  by (simp add: less_eq_ready_state_def)

lemma LOADING_less_DONE [simp]: "LOADING < DONE" "EMPTY < LOADING"
  by (simp_all add: less_ready_state_def)

text \<open>
  \<open>reading\<close> is the file that the reader was started on, \<open>None\<close> before
  \<^verbatim>\<open>readAsText\<close>.
\<close>

record reader =
  reading :: "jsfile option"
  ready_state :: ready_state

record page = wasm +
  readers :: "reader list"

section \<open>Operations\<close>

text \<open>Line 50: \<^verbatim>\<open>new FileReader()\<close>; the result is the new state and the reader.\<close>

definition new_FileReader :: "page \<Rightarrow> nat \<times> page" where
  "new_FileReader s =
     (length (readers s), s\<lparr>readers := readers s @ [\<lparr>reading = None, ready_state = EMPTY\<rparr>]\<rparr>)"

text \<open>
  Line 73: \<^verbatim>\<open>reader.readAsText(file, "utf-8")\<close>. The File API refuses a reader that
  is loading with an \<^verbatim>\<open>InvalidStateError\<close>; any other reader starts to load.
\<close>

definition readAsText :: "nat \<Rightarrow> jsfile \<Rightarrow> page \<Rightarrow> page" where
  "readAsText i f s =
     (case item (readers s) i of
        None \<Rightarrow> throw TypeError s
      | Some r \<Rightarrow>
          if ready_state r = LOADING then throw InvalidStateError s
          else s\<lparr>readers := (readers s)[i := \<lparr>reading = Some f, ready_state = LOADING\<rparr>]\<rparr>)"

text \<open>
  The browser's side: a reader is loading, and the end of its read moves it to
  \<^verbatim>\<open>DONE\<close> before a callback runs.
\<close>

definition loading :: "page \<Rightarrow> nat \<Rightarrow> bool" where
  "loading s i \<longleftrightarrow> (case item (readers s) i of None \<Rightarrow> False | Some r \<Rightarrow> ready_state r = LOADING)"

definition finish_read :: "nat \<Rightarrow> page \<Rightarrow> page" where
  "finish_read i s =
     (case item (readers s) i of
        None \<Rightarrow> s
      | Some r \<Rightarrow> s\<lparr>readers := (readers s)[i := r\<lparr>ready_state := DONE\<rparr>]\<rparr>)"

text \<open>The number of reads in flight, and of reads that have ended.\<close>

definition in_flight :: "page \<Rightarrow> nat" where
  "in_flight s = length (filter (\<lambda>r. ready_state r = LOADING) (readers s))"

definition finished :: "page \<Rightarrow> nat" where
  "finished s = length (filter (\<lambda>r. ready_state r = DONE) (readers s))"

section \<open>Creating and starting a reader\<close>

lemma fst_new_FileReader [simp]: "fst (new_FileReader s) = length (readers s)"
  by (simp add: new_FileReader_def)

lemma readers_new_FileReader [simp]:
  "readers (snd (new_FileReader s)) = readers s @ [\<lparr>reading = None, ready_state = EMPTY\<rparr>]"
  by (simp add: new_FileReader_def)

lemma new_FileReader_frame [simp, frame]:
  "fileInput_files (snd (new_FileReader s)) = fileInput_files s"
  "fileNameSpan (snd (new_FileReader s)) = fileNameSpan s"
  "logArea (snd (new_FileReader s)) = logArea s"
  "resultDiv (snd (new_FileReader s)) = resultDiv s"
  "uncaught (snd (new_FileReader s)) = uncaught s"
  "wasm_module (snd (new_FileReader s)) = wasm_module s"
  "processText (snd (new_FileReader s)) = processText s"
  "calls (snd (new_FileReader s)) = calls s"
  by (simp_all add: new_FileReader_def)

text \<open>
  A reader that was just created is started without an exception: the composition that
  the click handler runs.
\<close>

lemma readAsText_new_FileReader:
  "readAsText (length (readers s)) f (snd (new_FileReader s)) =
     s\<lparr>readers := readers s @ [\<lparr>reading = Some f, ready_state = LOADING\<rparr>]\<rparr>"
  by (simp add: readAsText_def new_FileReader_def)

lemma readAsText_loading:
  "loading s i \<Longrightarrow> readAsText i f s = throw InvalidStateError s"
  by (auto simp: readAsText_def loading_def split: option.splits)

section \<open>The end of a read\<close>

lemma loading_iff:
  "loading s i \<longleftrightarrow> i < length (readers s) \<and> ready_state (readers s ! i) = LOADING"
  by (auto simp: loading_def item_def)

lemma readers_finish_read:
  "loading s i \<Longrightarrow> readers (finish_read i s) = (readers s)[i := (readers s ! i)\<lparr>ready_state := DONE\<rparr>]"
  by (simp add: finish_read_def loading_iff item_def)

lemma length_readers_finish_read [simp]: "length (readers (finish_read i s)) = length (readers s)"
  by (simp add: finish_read_def split: option.splits)

lemma finish_read_frame [simp, frame]:
  "fileInput_files (finish_read i s) = fileInput_files s"
  "fileNameSpan (finish_read i s) = fileNameSpan s"
  "logArea (finish_read i s) = logArea s"
  "resultDiv (finish_read i s) = resultDiv s"
  "uncaught (finish_read i s) = uncaught s"
  "wasm_module (finish_read i s) = wasm_module s"
  "processText (finish_read i s) = processText s"
  "calls (finish_read i s) = calls s"
  by (simp_all add: finish_read_def split: option.splits)

lemma not_loading_finish_read [simp]: "\<not> loading (finish_read i s) i"
  by (auto simp: loading_def finish_read_def item_def split: option.splits)

lemma loading_finish_read_other: "i \<noteq> j \<Longrightarrow> loading (finish_read i s) j = loading s j"
  by (auto simp: loading_def finish_read_def item_def split: option.splits)

text \<open>The writes of the earlier theories leave the readers alone.\<close>

lemma readers_frame [simp, frame]:
  "readers (show_file_name t s) = readers s"
  "readers (log_write t s) = readers s"
  "readers (log_append t s) = readers s"
  "readers (show_result t s) = readers s"
  "readers (throw e s) = readers s"
  "readers (pick_files fs s) = readers s"
  "readers (set_processText g s) = readers s"
  "readers (snd (invoke g text s)) = readers s"
  by (simp_all add: surface_defs set_processText_def invoke_def)

lemma loading_frame [simp]:
  "loading (show_file_name t s) = loading s"
  "loading (log_write t s) = loading s"
  "loading (log_append t s) = loading s"
  "loading (show_result t s) = loading s"
  "loading (throw e s) = loading s"
  "loading (pick_files fs s) = loading s"
  "loading (set_processText g s) = loading s"
  "loading (snd (invoke g text s)) = loading s"
  by (simp_all add: loading_def fun_eq_iff)

section \<open>Counting reads\<close>

lemma in_flight_finish_read: "loading s i \<Longrightarrow> Suc (in_flight (finish_read i s)) = in_flight s"
  unfolding in_flight_def
  by (simp add: readers_finish_read) (rule filter_update_count, auto simp: loading_iff)

lemma finished_finish_read: "loading s i \<Longrightarrow> finished (finish_read i s) = Suc (finished s)"
  unfolding finished_def
  by (simp add: readers_finish_read) (rule filter_update_count_up, auto simp: loading_iff)

end
