(* ===== verification/Handlers.thy ===== *)
theory Handlers
  imports FileReader
begin

text \<open>
  The five event handlers of \<^verbatim>\<open>src/script.js\<close>, each as one function from the
  state before the event to the state after it: the change handler of the file picker
  (lines 15-21), \<^verbatim>\<open>Module.onRuntimeInitialized\<close> (lines 26-32), the click handler
  of the analyze button (lines 37-74) and the two callbacks that it gives to every
  reader (lines 52-67 and 69-71). The lemmas give the result of each handler on each of
  its branches, the fields that it leaves alone, and the order of its guards.
\<close>

section \<open>The handlers\<close>

text \<open>
  Lines 15-21. The condition \<^verbatim>\<open>fileInput.files && fileInput.files[0]\<close> is false
  for \<^verbatim>\<open>null\<close> and for an empty list.
\<close>

definition on_change :: "'a dom_scheme \<Rightarrow> 'a dom_scheme" where [handler_defs]:
  "on_change s =
     (case fileInput_files s of
        None \<Rightarrow> show_file_name no_file_selected s
      | Some fs \<Rightarrow>
          (case item fs 0 of
             None \<Rightarrow> show_file_name no_file_selected s
           | Some f \<Rightarrow> show_file_name (file_name f) s))"

text \<open>Lines 26-32.\<close>

definition on_runtime_initialized :: "'a wasm_scheme \<Rightarrow> 'a wasm_scheme" where [handler_defs]:
  "on_runtime_initialized s = log_write wasm_loaded (set_processText (cwrap s) s)"

text \<open>
  Lines 52-67, with \<open>text\<close> for \<^verbatim>\<open>e.target.result\<close>. The log is cleared and the
  length reported before the engine is called; nothing catches what the call throws, so
  the two writes after it are skipped then.
\<close>

definition reader_onload :: "jsstring \<Rightarrow> 'a wasm_scheme \<Rightarrow> 'a wasm_scheme" where [handler_defs]:
  "reader_onload text s =
     (let s1 = log_write [] s;
          s2 = log_append (file_read_line (length text)) s1
      in case processText s2 of
           None \<Rightarrow> throw TypeError s2
         | Some f \<Rightarrow>
             (case invoke f text s2 of
                (Throws, s3) \<Rightarrow> throw EngineException s3
              | (Returns result, s3) \<Rightarrow>
                  log_append analysis_done (show_result result s3)))"

text \<open>Lines 69-71.\<close>

definition reader_onerror :: "'a dom_scheme \<Rightarrow> 'a dom_scheme" where [handler_defs]:
  "reader_onerror s = log_write read_failed s"

text \<open>
  Lines 37-74. Reading \<^verbatim>\<open>fileInput.files[0]\<close> throws when the list is
  \<^verbatim>\<open>null\<close>; for a list it yields \<^verbatim>\<open>undefined\<close> when the list is empty. The
  missing file is tested first, the engine second.
\<close>

definition on_click :: "page \<Rightarrow> page" where [handler_defs]:
  "on_click s =
     (case fileInput_files s of
        None \<Rightarrow> throw TypeError s
      | Some fs \<Rightarrow>
          (case item fs 0 of
             None \<Rightarrow> log_write select_file_first s
           | Some f \<Rightarrow>
               if \<not> engine_ready s then log_write wasm_not_ready s
               else let (r, s1) = new_FileReader s in readAsText r f s1))"

section \<open>Fixtures\<close>

text \<open>
  A page right after the script has run, with empty surfaces and a given engine; an
  engine that maps the ASCII letters to upper case and never throws; an engine that
  always throws; a file.
\<close>

definition page_load :: "engine \<Rightarrow> page" where
  "page_load g = \<lparr>fileInput_files = Some [], fileNameSpan = [], logArea = [], resultDiv = [],
     uncaught = [], wasm_module = g, processText = None, calls = [], readers = []\<rparr>"

definition upper_unit :: "code_unit \<Rightarrow> code_unit" where
  "upper_unit u = (if 0x61 \<le> u \<and> u \<le> 0x7a then u - 0x20 else u)"

definition upper_engine :: engine where
  "upper_engine = (\<lambda>_ text. Returns (map upper_unit text))"

definition failing_engine :: engine where
  "failing_engine = (\<lambda>_ _. Throws)"

definition hello_txt :: jsfile where
  "hello_txt = \<lparr>file_name = ascii ''hello.txt'', file_blob = 0\<rparr>"

lemmas fixture_defs = page_load_def upper_engine_def failing_engine_def hello_txt_def
  upper_unit_def ascii_def

section \<open>The change handler\<close>

lemma on_change_selected:
  "fileInput_files s = Some (f # fs) \<Longrightarrow> on_change s = show_file_name (file_name f) s"
  by (simp add: on_change_def)

lemma on_change_none:
  "fileInput_files s = Some [] \<or> fileInput_files s = None \<Longrightarrow>
   on_change s = show_file_name no_file_selected s"
  by (auto simp: on_change_def)

lemma on_change_frame [simp, frame]:
  "fileInput_files (on_change s) = fileInput_files s"
  "logArea (on_change s) = logArea s"
  "resultDiv (on_change s) = resultDiv s"
  "uncaught (on_change s) = uncaught s"
  by (simp_all add: on_change_def split: option.splits)

lemma on_change_engine_frame [simp, frame]:
  "wasm_module (on_change s) = wasm_module s"
  "processText (on_change s) = processText s"
  "calls (on_change s) = calls s"
  by (simp_all add: on_change_def split: option.splits)

lemma on_change_readers [simp, frame]:
  "readers (on_change s) = readers s"
  "loading (on_change s) = loading s"
  by (simp_all add: on_change_def split: option.splits)

lemma on_change_idem [simp]: "on_change (on_change s) = on_change s"
  by (simp add: on_change_def show_file_name_def split: option.splits)

section \<open>The start of the engine\<close>

lemma on_runtime_initialized_fields [simp]:
  "processText (on_runtime_initialized s) = Some (wasm_module s)"
  "logArea (on_runtime_initialized s) = wasm_loaded"
  "engine_ready (on_runtime_initialized s)"
  by (simp_all add: on_runtime_initialized_def cwrap_def engine_ready_def)

lemma on_runtime_initialized_frame [simp, frame]:
  "fileInput_files (on_runtime_initialized s) = fileInput_files s"
  "fileNameSpan (on_runtime_initialized s) = fileNameSpan s"
  "resultDiv (on_runtime_initialized s) = resultDiv s"
  "uncaught (on_runtime_initialized s) = uncaught s"
  "wasm_module (on_runtime_initialized s) = wasm_module s"
  "calls (on_runtime_initialized s) = calls s"
  by (simp_all add: on_runtime_initialized_def)

lemma on_runtime_initialized_readers [simp, frame]:
  "readers (on_runtime_initialized s) = readers s"
  "loading (on_runtime_initialized s) = loading s"
  by (simp_all add: on_runtime_initialized_def)

section \<open>The callbacks of a reader\<close>

lemma reader_onload_returns:
  assumes "processText s = Some g" and "g (calls s) text = Returns r"
  shows "reader_onload text s =
     s\<lparr>logArea := file_read_line (length text) @ analysis_done, resultDiv := r,
       calls := calls s @ [text]\<rparr>"
  using assms by (simp add: reader_onload_def invoke_def surface_defs)

lemma reader_onload_throws:
  assumes "processText s = Some g" and "g (calls s) text = Throws"
  shows "reader_onload text s =
     s\<lparr>logArea := file_read_line (length text), calls := calls s @ [text],
       uncaught := uncaught s @ [EngineException]\<rparr>"
  using assms by (simp add: reader_onload_def invoke_def surface_defs)

lemma reader_onload_null:
  assumes "processText s = None"
  shows "reader_onload text s =
     s\<lparr>logArea := file_read_line (length text), uncaught := uncaught s @ [TypeError]\<rparr>"
  using assms by (simp add: reader_onload_def surface_defs)

lemma reader_onload_cases [consumes 0, case_names null throws returns]:
  assumes "processText s = None \<Longrightarrow> P"
    and "\<And>g. processText s = Some g \<Longrightarrow> g (calls s) t = Throws \<Longrightarrow> P"
    and "\<And>g r. processText s = Some g \<Longrightarrow> g (calls s) t = Returns r \<Longrightarrow> P"
  shows P
proof (cases "processText s")
  case None
  then show ?thesis by (rule assms(1))
next
  case (Some g)
  then show ?thesis
    by (cases "g (calls s) t") (auto intro: assms(2,3))
qed

lemma reader_onload_frame [simp, frame]:
  "fileInput_files (reader_onload text s) = fileInput_files s"
  "fileNameSpan (reader_onload text s) = fileNameSpan s"
  "wasm_module (reader_onload text s) = wasm_module s"
  "processText (reader_onload text s) = processText s"
  by (rule reader_onload_cases [where s = s and t = "text"];
      simp add: reader_onload_null reader_onload_throws reader_onload_returns)+

lemma reader_onload_readers [simp, frame]: "readers (reader_onload text s) = readers s"
  by (rule reader_onload_cases [where s = s and t = "text"];
      simp add: reader_onload_null reader_onload_throws reader_onload_returns)

lemma reader_onload_loading [simp]: "loading (reader_onload text s) = loading s"
  by (simp add: loading_def fun_eq_iff)

lemma calls_reader_onload:
  "processText s \<noteq> None \<Longrightarrow> calls (reader_onload text s) = calls s @ [text]"
  by (rule reader_onload_cases [where s = s and t = "text"];
      simp add: reader_onload_throws reader_onload_returns)

lemma uncaught_reader_onload:
  "processText s \<noteq> None \<Longrightarrow>
   uncaught (reader_onload text s) = uncaught s \<or>
   uncaught (reader_onload text s) = uncaught s @ [EngineException]"
  by (rule reader_onload_cases [where s = s and t = "text"];
      simp add: reader_onload_throws reader_onload_returns)

lemma uncaught_reader_onload_eq:
  "processText s = Some g \<Longrightarrow>
   uncaught (reader_onload text s) =
     (case g (calls s) text of Returns r \<Rightarrow> uncaught s | Throws \<Rightarrow> uncaught s @ [EngineException])"
  by (cases "g (calls s) text") (simp_all add: reader_onload_throws reader_onload_returns)

lemma reader_onerror_frame [simp, frame]:
  "fileInput_files (reader_onerror s) = fileInput_files s"
  "fileNameSpan (reader_onerror s) = fileNameSpan s"
  "resultDiv (reader_onerror s) = resultDiv s"
  "uncaught (reader_onerror s) = uncaught s"
  by (simp_all add: reader_onerror_def)

lemma reader_onerror_engine_frame [simp, frame]:
  "wasm_module (reader_onerror s) = wasm_module s"
  "processText (reader_onerror s) = processText s"
  "calls (reader_onerror s) = calls s"
  by (simp_all add: reader_onerror_def)

lemma reader_onerror_readers [simp, frame]:
  "readers (reader_onerror s) = readers s"
  "loading (reader_onerror s) = loading s"
  by (simp_all add: reader_onerror_def)

lemma logArea_reader_onerror [simp]: "logArea (reader_onerror s) = read_failed"
  by (simp add: reader_onerror_def)

section \<open>The click handler\<close>

lemma on_click_no_file:
  "fileInput_files s = Some [] \<Longrightarrow> on_click s = log_write select_file_first s"
  by (simp add: on_click_def)

lemma on_click_not_ready:
  "fileInput_files s = Some (f # fs) \<Longrightarrow> processText s = None \<Longrightarrow>
   on_click s = log_write wasm_not_ready s"
  by (simp add: on_click_def engine_ready_def)

lemma on_click_starts_read:
  "fileInput_files s = Some (f # fs) \<Longrightarrow> processText s = Some g \<Longrightarrow>
   on_click s = s\<lparr>readers := readers s @ [\<lparr>reading = Some f, ready_state = LOADING\<rparr>]\<rparr>"
  by (simp add: on_click_def engine_ready_def split_def readAsText_new_FileReader)

lemma on_click_null:
  "fileInput_files s = None \<Longrightarrow> on_click s = throw TypeError s"
  by (simp add: on_click_def)

lemma on_click_cases [consumes 0, case_names null no_file not_ready starts_read]:
  assumes "fileInput_files s = None \<Longrightarrow> P"
    and "fileInput_files s = Some [] \<Longrightarrow> P"
    and "\<And>f fs. fileInput_files s = Some (f # fs) \<Longrightarrow> processText s = None \<Longrightarrow> P"
    and "\<And>f fs g. fileInput_files s = Some (f # fs) \<Longrightarrow> processText s = Some g \<Longrightarrow> P"
  shows P
proof (cases "fileInput_files s")
  case None
  then show ?thesis by (rule assms(1))
next
  case (Some fs)
  show ?thesis
  proof (cases fs)
    case Nil
    with Some show ?thesis by (simp add: assms(2))
  next
    case (Cons f fs')
    with Some show ?thesis
      by (cases "processText s") (auto intro: assms(3,4))
  qed
qed

lemma on_click_frame [simp, frame]:
  "fileInput_files (on_click s) = fileInput_files s"
  "fileNameSpan (on_click s) = fileNameSpan s"
  "resultDiv (on_click s) = resultDiv s"
  "wasm_module (on_click s) = wasm_module s"
  "processText (on_click s) = processText s"
  "calls (on_click s) = calls s"
  by (rule on_click_cases [where s = s];
      simp add: on_click_null on_click_no_file on_click_not_ready on_click_starts_read)+

lemma uncaught_on_click:
  "fileInput_files s \<noteq> None \<Longrightarrow> uncaught (on_click s) = uncaught s"
  by (rule on_click_cases [where s = s];
      simp add: on_click_no_file on_click_not_ready on_click_starts_read)

lemma readers_on_click:
  "readers (on_click s) = readers s \<or>
   (\<exists>f. engine_ready s \<and> item (the (fileInput_files s)) 0 = Some f \<and>
      readers (on_click s) = readers s @ [\<lparr>reading = Some f, ready_state = LOADING\<rparr>])"
  by (rule on_click_cases [where s = s];
      simp add: on_click_null on_click_no_file on_click_not_ready on_click_starts_read
        engine_ready_def)

section \<open>Pages for the examples\<close>

definition ready_page :: "engine \<Rightarrow> page" where
  "ready_page g = on_runtime_initialized (page_load g)"

definition picked_page :: "engine \<Rightarrow> page" where
  "picked_page g = on_change (pick_files [hello_txt] (ready_page g))"

lemmas eval_defs = handler_defs surface_defs set_processText_def cwrap_def engine_ready_def
  invoke_def new_FileReader_def readAsText_def loading_def finish_read_def item_def
  ready_page_def picked_page_def page_load_def hello_txt_def

section \<open>What the handlers promise\<close>

text \<open>
  C1 (error path, guard order). A click while no file is selected shows the request to
  select a file, whether or not the engine has started (the missing file is reported
  first), replaces whatever the log held, starts no read and calls no engine.
\<close>

theorem click_without_file:
  assumes "fileInput_files s = Some []"
  shows "logArea (on_click s) = select_file_first \<and> readers (on_click s) = readers s \<and>
    calls (on_click s) = calls s \<and> resultDiv (on_click s) = resultDiv s \<and>
    uncaught (on_click s) = uncaught s"
  using assms by (simp add: on_click_def)

theorem click_without_file_witness:
  "logArea (on_click (page_load failing_engine)) = select_file_first \<and>
   readers (on_click (page_load failing_engine)) = [] \<and>
   calls (on_click (page_load failing_engine)) = [] \<and>
   resultDiv (on_click (page_load failing_engine)) = [] \<and>
   uncaught (on_click (page_load failing_engine)) = []"
  using click_without_file [of "page_load failing_engine"] by (simp add: page_load_def)

text \<open>
  C2 (error path). A click before the engine has started never creates a reader and
  never calls the engine, whatever the picker holds; with a file selected it shows the
  notice that the engine is not ready.
\<close>

theorem click_before_ready:
  assumes "\<not> engine_ready s"
  shows "readers (on_click s) = readers s \<and> calls (on_click s) = calls s \<and>
    resultDiv (on_click s) = resultDiv s \<and>
    (\<forall>f fs. fileInput_files s = Some (f # fs) \<longrightarrow> logArea (on_click s) = wasm_not_ready)"
  using assms by (cases "fileInput_files s") (simp_all add: on_click_def split: option.splits)

theorem click_before_ready_witness:
  "readers (on_click (on_change (pick_files [hello_txt] (page_load upper_engine)))) = [] \<and>
   calls (on_click (on_change (pick_files [hello_txt] (page_load upper_engine)))) = [] \<and>
   logArea (on_click (on_change (pick_files [hello_txt] (page_load upper_engine)))) = wasm_not_ready"
  using click_before_ready [of "on_change (pick_files [hello_txt] (page_load upper_engine))"]
  by (simp add: page_load_def engine_ready_def)

text \<open>
  C5 (functional). A click with a file selected and the engine started creates exactly
  one reader, loading the first selected file, and changes nothing that the user sees:
  the log, the result and the file name stay, and the engine is not called yet.
\<close>

theorem click_starts_one_read:
  assumes "fileInput_files s = Some (f # fs)" and "engine_ready s"
  shows "readers (on_click s) = readers s @ [\<lparr>reading = Some f, ready_state = LOADING\<rparr>] \<and>
    loading (on_click s) (length (readers s)) \<and> logArea (on_click s) = logArea s \<and>
    resultDiv (on_click s) = resultDiv s \<and> calls (on_click s) = calls s \<and>
    uncaught (on_click s) = uncaught s"
  using assms
  by (simp add: on_click_def split_def readAsText_new_FileReader loading_iff)

theorem click_starts_one_read_witness:
  "readers (on_click (picked_page upper_engine)) = [\<lparr>reading = Some hello_txt, ready_state = LOADING\<rparr>] \<and>
   loading (on_click (picked_page upper_engine)) 0 \<and>
   logArea (on_click (picked_page upper_engine)) = wasm_loaded \<and>
   calls (on_click (picked_page upper_engine)) = []"
  using click_starts_one_read [of "picked_page upper_engine" hello_txt "[]"]
  by (simp add: eval_defs)

text \<open>
  C3 (functional). When the read of a file ends well and the engine returns, the result
  area shows what the engine returned for the text and for the calls before it, the
  log holds exactly the line that reports the length of the text (in UTF-16 code units)
  followed by the completion notice, and the engine was called once, with that text.
\<close>

theorem load_displays_result:
  assumes "processText s = Some g" and "g (calls s) text = Returns r"
  shows "resultDiv (reader_onload text s) = r \<and>
    logArea (reader_onload text s) = file_read_line (length text) @ analysis_done \<and>
    calls (reader_onload text s) = calls s @ [text] \<and>
    uncaught (reader_onload text s) = uncaught s"
  using assms by (simp add: reader_onload_def invoke_def)

theorem load_displays_result_witness:
  "resultDiv (reader_onload (ascii ''hello'') (ready_page upper_engine)) = ascii ''HELLO'' \<and>
   logArea (reader_onload (ascii ''hello'') (ready_page upper_engine)) = file_read_line 5 @ analysis_done \<and>
   calls (reader_onload (ascii ''hello'') (ready_page upper_engine)) = [ascii ''hello'']"
  using load_displays_result [of "ready_page upper_engine" upper_engine "ascii ''hello''" "ascii ''HELLO''"]
  by (simp add: eval_defs upper_engine_def upper_unit_def ascii_def)

text \<open>
  C4 (error path). When the engine throws, the exception leaves the callback uncaught:
  the log keeps the line that reports the length and gets no error line, the result
  area keeps its earlier text, and the failed call is the only trace of the attempt.
\<close>

theorem load_engine_throws:
  assumes "processText s = Some g" and "g (calls s) text = Throws"
  shows "logArea (reader_onload text s) = file_read_line (length text) \<and>
    resultDiv (reader_onload text s) = resultDiv s \<and>
    uncaught (reader_onload text s) = uncaught s @ [EngineException] \<and>
    calls (reader_onload text s) = calls s @ [text]"
  using assms by (simp add: reader_onload_def invoke_def)

theorem load_engine_throws_witness:
  "logArea (reader_onload (ascii ''hello'') (ready_page failing_engine)) = file_read_line 5 \<and>
   resultDiv (reader_onload (ascii ''hello'') (ready_page failing_engine)) = [] \<and>
   uncaught (reader_onload (ascii ''hello'') (ready_page failing_engine)) = [EngineException]"
  using load_engine_throws [of "ready_page failing_engine" failing_engine "ascii ''hello''"]
  by (simp add: eval_defs failing_engine_def)

text \<open>
  When a read fails, the log is replaced by the notice of the failure;
  the selection, the file name, the result and the engine are as before, so the user
  can try again.
\<close>

theorem read_error_reported:
  "logArea (reader_onerror s) = read_failed \<and> fileInput_files (reader_onerror s) = fileInput_files s \<and>
   fileNameSpan (reader_onerror s) = fileNameSpan s \<and> resultDiv (reader_onerror s) = resultDiv s \<and>
   processText (reader_onerror s) = processText s \<and> calls (reader_onerror s) = calls s \<and>
   uncaught (reader_onerror s) = uncaught s"
  by simp

text \<open>
  After the user has left the picker, the file-name span shows the name
  of the first selected file, or the placeholder when nothing is selected; nothing else
  on the page changes.
\<close>

theorem change_shows_name:
  "fileNameSpan (on_change (pick_files fs s)) = (case fs of [] \<Rightarrow> no_file_selected | f # _ \<Rightarrow> file_name f) \<and>
   logArea (on_change (pick_files fs s)) = logArea s \<and>
   resultDiv (on_change (pick_files fs s)) = resultDiv s \<and>
   readers (on_change (pick_files fs s)) = readers s \<and>
   calls (on_change (pick_files fs s)) = calls s"
  by (cases fs) (simp_all add: on_change_selected on_change_none)

text \<open>
  C38 (functional). The start of the engine is idempotent: a second run of
  \<^verbatim>\<open>onRuntimeInitialized\<close> leaves the page as the first one left it, with the
  engine ready and the log holding the start notice once.
\<close>

theorem runtime_initialized_idempotent:
  "on_runtime_initialized (on_runtime_initialized s) = on_runtime_initialized s \<and>
   engine_ready (on_runtime_initialized s) \<and> logArea (on_runtime_initialized s) = wasm_loaded"
  by (simp add: on_runtime_initialized_def cwrap_def set_processText_def log_write_def engine_ready_def)

end
