(* ===== verification/EventLoop.thy ===== *)
theory EventLoop
  imports Handlers
begin

text \<open>
  The page as a machine: the events that the browser can deliver to the script, the
  handler that each one runs, the pages in which an event can occur at all, runs over
  a sequence of events, and the states that a page can reach from its load. The
  invariants of the reachable states give the safety of the script: no handler ever
  reads a property of \<^verbatim>\<open>null\<close> or calls \<^verbatim>\<open>null\<close>, and the engine is called
  with exactly the texts of the reads that ended well, in the order in which they ended.
\<close>

section \<open>Events and steps\<close>

text \<open>
  \<open>Change fs\<close>: the user leaves the picker with the files \<open>fs\<close> selected.
  \<open>Load i text\<close> and \<open>Error i\<close>: the read of reader \<open>i\<close> ends, with the decoded
  text or with a failure. The browser decides which of the two, and when.
\<close>

datatype event = RuntimeInitialized | Change "jsfile list" | Click | Load nat jsstring | Error nat

fun dispatch :: "event \<Rightarrow> page \<Rightarrow> page" where
  "dispatch RuntimeInitialized s = on_runtime_initialized s"
| "dispatch (Change fs) s = on_change (pick_files fs s)"
| "dispatch Click s = on_click s"
| "dispatch (Load i text) s = reader_onload text (finish_read i s)"
| "dispatch (Error i) s = reader_onerror (finish_read i s)"

text \<open>A read can only end for a reader that is loading; the other events can always occur.\<close>

fun enabled :: "page \<Rightarrow> event \<Rightarrow> bool" where
  "enabled s (Load i text) = loading s i"
| "enabled s (Error i) = loading s i"
| "enabled s _ = True"

definition fire :: "page \<Rightarrow> event \<Rightarrow> page option" where
  "fire s e = (if enabled s e then Some (dispatch e s) else None)"

fun run :: "page \<Rightarrow> event list \<Rightarrow> page option" where
  "run s [] = Some s"
| "run s (e # es) = (case fire s e of None \<Rightarrow> None | Some s' \<Rightarrow> run s' es)"

text \<open>The same steps as a relation, one rule for each event.\<close>

inductive page_step :: "page \<Rightarrow> event \<Rightarrow> page \<Rightarrow> bool" where
  step_runtime: "page_step s RuntimeInitialized (on_runtime_initialized s)"
| step_change: "page_step s (Change fs) (on_change (pick_files fs s))"
| step_click: "page_step s Click (on_click s)"
| step_load: "loading s i \<Longrightarrow> page_step s (Load i text) (reader_onload text (finish_read i s))"
| step_error: "loading s i \<Longrightarrow> page_step s (Error i) (reader_onerror (finish_read i s))"

inductive_cases page_step_RuntimeInitializedE [elim!]: "page_step s RuntimeInitialized s'"
inductive_cases page_step_ChangeE [elim!]: "page_step s (Change fs) s'"
inductive_cases page_step_ClickE [elim!]: "page_step s Click s'"
inductive_cases page_step_LoadE [elim!]: "page_step s (Load i text) s'"
inductive_cases page_step_ErrorE [elim!]: "page_step s (Error i) s'"

text \<open>
  Lines 1-12: the page right after the script has run. The text of the surfaces comes
  from the document and is not constrained. That the picker has a list of files is an
  assumption on the markup, which the source does not show: the element is a file-picker
  input (section 6 of the specification), whose \<^verbatim>\<open>files\<close> is never
  \<^verbatim>\<open>null\<close>.
\<close>

definition initial :: "page \<Rightarrow> bool" where
  "initial s \<longleftrightarrow>
     fileInput_files s \<noteq> None \<and> uncaught s = [] \<and> processText s = None \<and>
     calls s = [] \<and> readers s = []"

inductive reachable :: "page \<Rightarrow> bool" where
  init: "initial s \<Longrightarrow> reachable s"
| step: "reachable s \<Longrightarrow> page_step s e s' \<Longrightarrow> reachable s'"

text \<open>The texts of the reads that end well in a sequence of events, in order.\<close>

fun loads :: "event list \<Rightarrow> jsstring list" where
  "loads [] = []"
| "loads (Load i text # es) = text # loads es"
| "loads (e # es) = loads es"

section \<open>The relation and the function agree\<close>

lemma page_step_iff_fire: "page_step s e s' \<longleftrightarrow> fire s e = Some s'"
  by (cases e) (auto simp: fire_def intro: page_step.intros)

lemma page_step_deterministic: "page_step s e s' \<Longrightarrow> page_step s e s'' \<Longrightarrow> s' = s''"
  by (simp add: page_step_iff_fire)

lemma run_append: "run s (es @ es') = Option.bind (run s es) (\<lambda>s'. run s' es')"
  by (induction es arbitrary: s) (auto split: option.splits)

lemma run_snoc: "run s (es @ [e]) = Option.bind (run s es) (\<lambda>s'. fire s' e)"
  by (cases "run s es") (simp_all add: run_append split: option.splits)

lemma loads_append [simp]: "loads (es @ es') = loads es @ loads es'"
  by (induction es rule: loads.induct) simp_all

lemma run_reachable: "reachable s \<Longrightarrow> run s es = Some s' \<Longrightarrow> reachable s'"
proof (induction es arbitrary: s)
  case Nil
  then show ?case by simp
next
  case (Cons e es)
  from Cons.prems(2) obtain t where t: "fire s e = Some t" and rest: "run t es = Some s'"
    by (auto split: option.splits)
  from t have "page_step s e t" by (simp add: page_step_iff_fire)
  with Cons.prems(1) have "reachable t" by (rule reachable.step)
  then show ?case using rest by (rule Cons.IH)
qed

lemma reachable_run: "reachable s \<Longrightarrow> \<exists>s0 es. initial s0 \<and> run s0 es = Some s"
proof (induction rule: reachable.induct)
  case (init s)
  then have "initial s \<and> run s [] = Some s" by simp
  then show ?case by blast
next
  case (step s e s')
  then obtain s0 es where "initial s0" and "run s0 es = Some s" by blast
  moreover from step.hyps(2) have "fire s e = Some s'" by (simp add: page_step_iff_fire)
  ultimately have "initial s0 \<and> run s0 (es @ [e]) = Some s'" by (simp add: run_snoc)
  then show ?case by blast
qed

section \<open>What every step keeps\<close>

text \<open>
  Five facts hold when the page has loaded and every step keeps them: the picker has a
  list of files; the global holds nothing or the engine of the module; every reader has
  been started on a file; a reader exists only if the engine has started; the only
  exceptions that were left uncaught are those that the engine threw.
\<close>

definition picker_ok :: "page \<Rightarrow> bool" where
  "picker_ok s \<longleftrightarrow> fileInput_files s \<noteq> None"

definition engine_bound :: "page \<Rightarrow> bool" where
  "engine_bound s \<longleftrightarrow> processText s = None \<or> processText s = Some (wasm_module s)"

definition readers_started :: "page \<Rightarrow> bool" where
  "readers_started s \<longleftrightarrow> list_all (\<lambda>r. reading r \<noteq> None \<and> ready_state r \<noteq> EMPTY) (readers s)"

definition ready_before_read :: "page \<Rightarrow> bool" where
  "ready_before_read s \<longleftrightarrow> readers s = [] \<or> engine_ready s"

definition only_engine_failures :: "page \<Rightarrow> bool" where
  "only_engine_failures s \<longleftrightarrow> list_all (\<lambda>e. e = EngineException) (uncaught s)"

definition page_inv :: "page \<Rightarrow> bool" where
  "page_inv s \<longleftrightarrow>
     picker_ok s \<and> engine_bound s \<and> readers_started s \<and> ready_before_read s \<and>
     only_engine_failures s"

lemmas inv_defs = picker_ok_def engine_bound_def readers_started_def ready_before_read_def
  only_engine_failures_def

lemma initial_page_inv: "initial s \<Longrightarrow> page_inv s"
  by (simp add: initial_def page_inv_def inv_defs)

lemma loading_readers_nonempty: "loading s i \<Longrightarrow> readers s \<noteq> []"
  by (auto simp: loading_iff)

lemma picker_ok_step: "page_step s e s' \<Longrightarrow> picker_ok s \<Longrightarrow> picker_ok s'"
  by (induction rule: page_step.induct) (simp_all add: picker_ok_def)

lemma engine_bound_step: "page_step s e s' \<Longrightarrow> engine_bound s \<Longrightarrow> engine_bound s'"
  by (induction rule: page_step.induct) (simp_all add: engine_bound_def)

lemma readers_started_finish_read: "readers_started s \<Longrightarrow> readers_started (finish_read i s)"
  by (auto simp: readers_started_def finish_read_def item_eq_Some_iff list_all_length nth_list_update
      split: option.splits)

lemma readers_started_step: "page_step s e s' \<Longrightarrow> readers_started s \<Longrightarrow> readers_started s'"
proof (induction rule: page_step.induct)
  case (step_click s)
  with readers_on_click [of s] show ?case by (auto simp: readers_started_def)
next
  case (step_load s i t)
  then have "readers_started (finish_read i s)" by (simp add: readers_started_finish_read)
  then show ?case by (simp add: readers_started_def)
next
  case (step_error s i)
  then have "readers_started (finish_read i s)" by (simp add: readers_started_finish_read)
  then show ?case by (simp add: readers_started_def)
qed (simp_all add: readers_started_def)

lemma engine_ready_step: "page_step s e s' \<Longrightarrow> engine_ready s \<Longrightarrow> engine_ready s'"
  by (induction rule: page_step.induct) (simp_all add: engine_ready_def)

lemma ready_before_read_step:
  "page_step s e s' \<Longrightarrow> ready_before_read s \<Longrightarrow> ready_before_read s'"
proof (induction rule: page_step.induct)
  case (step_click s)
  with readers_on_click [of s] show ?case
    by (auto simp: ready_before_read_def engine_ready_def)
next
  case (step_load s i t)
  then have "engine_ready s" by (auto simp: ready_before_read_def dest: loading_readers_nonempty)
  then show ?case by (simp add: ready_before_read_def engine_ready_def)
next
  case (step_error s i)
  then have "engine_ready s" by (auto simp: ready_before_read_def dest: loading_readers_nonempty)
  then show ?case by (simp add: ready_before_read_def engine_ready_def)
qed (simp_all add: ready_before_read_def engine_ready_def)

lemma only_engine_failures_step:
  assumes "page_step s e s'" and "picker_ok s" and "ready_before_read s"
    and "only_engine_failures s"
  shows "only_engine_failures s'"
  using assms
proof (induction rule: page_step.induct)
  case (step_click s)
  then show ?case by (simp add: only_engine_failures_def picker_ok_def uncaught_on_click)
next
  case (step_load s i t)
  then have "processText (finish_read i s) \<noteq> None"
    by (auto simp: ready_before_read_def engine_ready_def dest: loading_readers_nonempty)
  from uncaught_reader_onload [OF this, of t] step_load.prems(3) show ?case
    by (auto simp: only_engine_failures_def)
qed (simp_all add: only_engine_failures_def)

lemma page_inv_step: "page_step s e s' \<Longrightarrow> page_inv s \<Longrightarrow> page_inv s'"
  unfolding page_inv_def
  by (blast intro: picker_ok_step engine_bound_step readers_started_step ready_before_read_step
      only_engine_failures_step)

lemma reachable_page_inv: "reachable s \<Longrightarrow> page_inv s"
  by (induction rule: reachable.induct) (auto intro: initial_page_inv page_inv_step)

section \<open>The calls of the engine\<close>

text \<open>
  In a reachable page a read that ends well calls the engine once, with the text that
  was read, and no other event calls it.
\<close>

lemma calls_step:
  assumes "page_step s e s'" and "ready_before_read s"
  shows "calls s' = calls s @ loads [e]"
  using assms
proof (induction rule: page_step.induct)
  case (step_load s i t)
  then have "processText (finish_read i s) \<noteq> None"
    by (auto simp: ready_before_read_def engine_ready_def dest: loading_readers_nonempty)
  then show ?case by (simp add: calls_reader_onload)
qed simp_all

lemma calls_run:
  "reachable s \<Longrightarrow> run s es = Some s' \<Longrightarrow> calls s' = calls s @ loads es"
proof (induction es arbitrary: s)
  case Nil
  then show ?case by simp
next
  case (Cons e es)
  from Cons.prems(2) obtain u where u: "page_step s e u" and rest: "run u es = Some s'"
    by (auto simp: page_step_iff_fire split: option.splits)
  from Cons.prems(1) have "ready_before_read s"
    by (auto dest: reachable_page_inv simp: page_inv_def)
  with u have "calls u = calls s @ loads [e]" by (rule calls_step)
  moreover from Cons.prems(1) u have "reachable u" by (rule reachable.step)
  then have "calls s' = calls u @ loads es" using rest by (rule Cons.IH)
  ultimately show ?case by (cases e) simp_all
qed

section \<open>The life of a reader\<close>

text \<open>
  No step removes a reader, and a reader that is not loading never loads again: the
  script starts a reader once, right after it has created it.
\<close>

lemma readers_step_prefix: "page_step s e s' \<Longrightarrow> length (readers s) \<le> length (readers s')"
proof (induction rule: page_step.induct)
  case (step_click s)
  from readers_on_click [of s] show ?case by auto
qed simp_all

lemma loading_on_click_old:
  "i < length (readers s) \<Longrightarrow> loading (on_click s) i = loading s i"
  using readers_on_click [of s] by (auto simp: loading_iff nth_append)

lemma ended_stays:
  assumes "page_step s e s'" and "i < length (readers s)" and "\<not> loading s i"
  shows "\<not> loading s' i"
  using assms
proof (induction rule: page_step.induct)
  case (step_click s)
  then show ?case by (simp add: loading_on_click_old)
next
  case (step_load s j t)
  then show ?case by (cases "i = j") (simp_all add: loading_finish_read_other)
next
  case (step_error s j)
  then show ?case by (cases "i = j") (simp_all add: loading_finish_read_other)
qed simp_all

text \<open>The readers whose read ends in a sequence of events, in order.\<close>

fun ended :: "event list \<Rightarrow> nat list" where
  "ended [] = []"
| "ended (Load i text # es) = i # ended es"
| "ended (Error i # es) = i # ended es"
| "ended (e # es) = ended es"

lemma ended_never_again:
  "run s es = Some s' \<Longrightarrow> i < length (readers s) \<Longrightarrow> \<not> loading s i \<Longrightarrow> i \<notin> set (ended es)"
proof (induction es arbitrary: s)
  case Nil
  then show ?case by simp
next
  case (Cons e es)
  from Cons.prems(1) obtain u where u: "page_step s e u" and rest: "run u es = Some s'"
    by (auto simp: page_step_iff_fire split: option.splits)
  from u Cons.prems(2,3) have "\<not> loading u i" by (rule ended_stays)
  moreover from u Cons.prems(2) have "i < length (readers u)"
    by (auto dest: readers_step_prefix)
  ultimately have "i \<notin> set (ended es)" using rest Cons.IH by blast
  moreover from u Cons.prems(3) have "e \<noteq> Error i" and "\<And>t. e \<noteq> Load i t" by auto
  ultimately show ?case by (cases e) auto
qed

lemma ended_after_step:
  assumes "page_step s e u" and "i \<in> set (ended [e])"
  shows "\<not> loading u i \<and> i < length (readers u)"
  using assms
proof (induction rule: page_step.induct)
  case (step_load s j t)
  then have "i = j" by simp
  moreover from step_load.hyps have "j < length (readers s)" by (simp add: loading_iff)
  ultimately show ?case by simp
next
  case (step_error s j)
  then have "i = j" by simp
  moreover from step_error.hyps have "j < length (readers s)" by (simp add: loading_iff)
  ultimately show ?case by simp
qed simp_all

lemma ended_Cons: "ended (e # es) = ended [e] @ ended es"
  by (cases e) simp_all

text \<open>A reader keeps the file that it was started on, and its state only moves forward.\<close>

lemma reader_finish_read:
  "i < length (readers s) \<Longrightarrow>
   reading (readers (finish_read j s) ! i) = reading (readers s ! i) \<and>
   ready_state (readers s ! i) \<le> ready_state (readers (finish_read j s) ! i)"
  by (auto simp: finish_read_def item_def nth_list_update split: option.splits)

lemma reader_step:
  assumes "page_step s e s'" and "i < length (readers s)"
  shows "i < length (readers s') \<and> reading (readers s' ! i) = reading (readers s ! i) \<and>
    ready_state (readers s ! i) \<le> ready_state (readers s' ! i)"
  using assms
proof (induction rule: page_step.induct)
  case (step_click s)
  with readers_on_click [of s] show ?case by (auto simp: nth_append)
qed (simp_all add: reader_finish_read)

section \<open>Counting reads and calls\<close>

lemma started_count:
  "list_all (\<lambda>r. ready_state r \<noteq> EMPTY) rs \<Longrightarrow>
   length (filter (\<lambda>r. ready_state r = LOADING) rs) + length (filter (\<lambda>r. ready_state r = DONE) rs)
     = length rs"
proof (induction rs)
  case Nil
  then show ?case by simp
next
  case (Cons r rs)
  then show ?case by (cases "ready_state r") simp_all
qed

lemma in_flight_plus_finished: "reachable s \<Longrightarrow> in_flight s + finished s = length (readers s)"
proof -
  assume "reachable s"
  then have "readers_started s" by (auto dest: reachable_page_inv simp: page_inv_def)
  then have "list_all (\<lambda>r. ready_state r \<noteq> EMPTY) (readers s)"
    by (auto simp: readers_started_def list_all_iff)
  then show ?thesis unfolding in_flight_def finished_def by (rule started_count)
qed

lemma finished_frame [simp]:
  "finished (on_runtime_initialized s) = finished s"
  "finished (on_change s) = finished s"
  "finished (pick_files fs s) = finished s"
  "finished (reader_onload t s) = finished s"
  "finished (reader_onerror s) = finished s"
  by (simp_all add: finished_def)

lemma in_flight_frame [simp]:
  "in_flight (on_runtime_initialized s) = in_flight s"
  "in_flight (on_change s) = in_flight s"
  "in_flight (pick_files fs s) = in_flight s"
  "in_flight (reader_onload t s) = in_flight s"
  "in_flight (reader_onerror s) = in_flight s"
  by (simp_all add: in_flight_def)

lemma finished_on_click [simp]: "finished (on_click s) = finished s"
  using readers_on_click [of s] by (auto simp: finished_def)

lemma calls_le_finished_step:
  assumes "page_step s e s'" and "ready_before_read s" and "length (calls s) \<le> finished s"
  shows "length (calls s') \<le> finished s'"
proof -
  from assms(1,2) have c: "calls s' = calls s @ loads [e]" by (rule calls_step)
  from assms(1) show ?thesis
  proof cases
    case (step_load i t)
    with assms(3) c show ?thesis by (simp add: finished_finish_read)
  next
    case (step_error i)
    with assms(3) c show ?thesis by (simp add: finished_finish_read)
  qed (use assms(3) c in simp_all)
qed

lemma calls_le_finished: "reachable s \<Longrightarrow> length (calls s) \<le> finished s"
proof (induction rule: reachable.induct)
  case (init s)
  then show ?case by (simp add: initial_def)
next
  case (step s e s')
  from step.hyps(1) have "ready_before_read s"
    by (auto dest: reachable_page_inv simp: page_inv_def)
  with step.hyps(2) show ?case using step.IH by (rule calls_le_finished_step)
qed

text \<open>
  An exception is left uncaught only if the engine of the module can throw.
\<close>

lemma uncaught_step:
  assumes "page_step s e s'" and "page_inv s" and "uncaught s' \<noteq> uncaught s"
  shows "\<exists>h t. wasm_module s h t = Throws"
  using assms
proof (induction rule: page_step.induct)
  case (step_click s)
  then show ?case by (simp add: page_inv_def picker_ok_def uncaught_on_click)
next
  case (step_load s i t)
  then have "processText (finish_read i s) = Some (wasm_module s)"
    by (auto simp: page_inv_def engine_bound_def ready_before_read_def engine_ready_def
        dest: loading_readers_nonempty)
  from uncaught_reader_onload_eq [OF this, of t] step_load.prems(2) show ?case
    by (auto split: completion.splits)
qed simp_all

lemma wasm_module_step: "page_step s e s' \<Longrightarrow> wasm_module s' = wasm_module s"
  by (induction rule: page_step.induct) simp_all

lemma uncaught_only_if_engine_throws:
  "reachable s \<Longrightarrow> uncaught s \<noteq> [] \<Longrightarrow> \<exists>h t. wasm_module s h t = Throws"
proof (induction rule: reachable.induct)
  case (init s)
  then show ?case by (simp add: initial_def)
next
  case (step s e s')
  show ?case
  proof (cases "uncaught s' = uncaught s")
    case True
    with step show ?thesis by (simp add: wasm_module_step)
  next
    case False
    with step.hyps have "\<exists>h t. wasm_module s h t = Throws"
      by (auto intro: uncaught_step reachable_page_inv)
    with step.hyps(2) show ?thesis by (simp add: wasm_module_step)
  qed
qed

lemma reachable_ready:
  "reachable s \<Longrightarrow> engine_ready s \<Longrightarrow> processText s = Some (wasm_module s)"
  by (auto dest: reachable_page_inv simp: page_inv_def engine_bound_def engine_ready_def)

section \<open>Runs for the examples\<close>

text \<open>
  A run in which the engine throws: the engine starts, a file is picked, a click starts
  a read, and the read ends well. A run with two reads, of which the first fails.
\<close>

definition failing_run :: "event list" where
  "failing_run = [RuntimeInitialized, Change [hello_txt], Click, Load 0 (ascii ''hello'')]"

definition retry_run :: "event list" where
  "retry_run = [RuntimeInitialized, Change [hello_txt], Click, Click, Error 0, Load 1 (ascii ''hello'')]"

definition failed_page :: page where
  "failed_page = \<lparr>fileInput_files = Some [hello_txt], fileNameSpan = ascii ''hello.txt'',
     logArea = file_read_line 5, resultDiv = [], uncaught = [EngineException],
     wasm_module = failing_engine, processText = Some failing_engine,
     calls = [ascii ''hello''], readers = [\<lparr>reading = Some hello_txt, ready_state = DONE\<rparr>]\<rparr>"

definition retried_page :: page where
  "retried_page = \<lparr>fileInput_files = Some [hello_txt], fileNameSpan = ascii ''hello.txt'',
     logArea = file_read_line 5 @ analysis_done, resultDiv = ascii ''HELLO'', uncaught = [],
     wasm_module = upper_engine, processText = Some upper_engine,
     calls = [ascii ''hello''],
     readers = [\<lparr>reading = Some hello_txt, ready_state = DONE\<rparr>,
                \<lparr>reading = Some hello_txt, ready_state = DONE\<rparr>]\<rparr>"

lemmas run_defs = fire_def eval_defs failing_run_def retry_run_def

lemma initial_page_load [simp]: "initial (page_load g)"
  by (simp add: initial_def page_load_def)

lemma run_failing_run: "run (page_load failing_engine) failing_run = Some failed_page"
  by (simp add: run_defs failed_page_def failing_engine_def ascii_def)

lemma run_retry_run: "run (page_load upper_engine) retry_run = Some retried_page"
  by (simp add: run_defs retried_page_def upper_engine_def upper_unit_def ascii_def)

lemma reachable_failed_page: "reachable failed_page"
  by (rule run_reachable [OF reachable.init [OF initial_page_load] run_failing_run])

lemma reachable_retried_page: "reachable retried_page"
  by (rule run_reachable [OF reachable.init [OF initial_page_load] run_retry_run])

section \<open>What the page promises\<close>

text \<open>
  C6 (safety). In every state that the page can reach, no handler has read a property
  of \<^verbatim>\<open>null\<close>, called \<^verbatim>\<open>null\<close> or started a busy reader: the call
  \<^verbatim>\<open>processText(text)\<close> of line 61, which the callback makes without a test, only
  runs for a reader that the click handler created after it had found the engine
  started. The only exceptions ever left uncaught are those of the engine.
\<close>

theorem no_null_failure:
  assumes "reachable s"
  shows "TypeError \<notin> set (uncaught s) \<and> InvalidStateError \<notin> set (uncaught s)"
proof -
  from assms have "only_engine_failures s"
    by (auto dest: reachable_page_inv simp: page_inv_def)
  then show ?thesis by (auto simp: only_engine_failures_def list_all_iff)
qed

theorem no_null_failure_witness:
  "reachable failed_page \<and> uncaught failed_page = [EngineException] \<and>
   TypeError \<notin> set (uncaught failed_page) \<and> InvalidStateError \<notin> set (uncaught failed_page)"
  using no_null_failure [OF reachable_failed_page] reachable_failed_page
  by (simp add: failed_page_def)

text \<open>
  C7 (safety). From the load of the page on, the engine is called with exactly the
  texts of the reads that ended well, once each and in the order in which the reads
  ended: no click, selection, start of the engine or failed read calls it, and no text
  reaches it that a reader did not deliver.
\<close>

theorem engine_calls_are_loads:
  assumes "initial s0" and "run s0 es = Some s"
  shows "calls s = loads es"
proof -
  from assms(1) have "reachable s0" by (rule reachable.init)
  then have "calls s = calls s0 @ loads es" using assms(2) by (rule calls_run)
  with assms(1) show ?thesis by (simp add: initial_def)
qed

theorem engine_calls_are_loads_witness:
  "initial (page_load upper_engine) \<and> run (page_load upper_engine) retry_run = Some retried_page \<and>
   calls retried_page = [ascii ''hello''] \<and> loads retry_run = [ascii ''hello'']"
  using engine_calls_are_loads [OF initial_page_load run_retry_run] run_retry_run
  by (simp add: retried_page_def)

text \<open>
  In any run, the read of a reader ends at most once: after one of its two
  callbacks has run, neither runs again for that reader.
\<close>

theorem reader_ends_once: "run s es = Some s' \<Longrightarrow> distinct (ended es)"
proof (induction es arbitrary: s)
  case Nil
  then show ?case by simp
next
  case (Cons e es)
  from Cons.prems obtain u where u: "page_step s e u" and rest: "run u es = Some s'"
    by (auto simp: page_step_iff_fire split: option.splits)
  from rest have "distinct (ended es)" by (rule Cons.IH)
  moreover have "distinct (ended [e])" by (cases e) simp_all
  moreover have "i \<notin> set (ended es)" if "i \<in> set (ended [e])" for i
    using ended_after_step [OF u that] rest by (auto dest: ended_never_again)
  ultimately show ?case by (subst ended_Cons) auto
qed

theorem reader_ends_once_witness:
  "run (page_load upper_engine) retry_run = Some retried_page \<and> ended retry_run = [0, 1] \<and>
   distinct (ended retry_run) \<and>
   run retried_page [Load 1 (ascii ''again'')] = None"
  using reader_ends_once [OF run_retry_run] run_retry_run
  by (simp add: retry_run_def retried_page_def fire_def loading_def item_def)

text \<open>
  In any run a reader keeps the file that it was started on, and its
  state only moves forward in the order empty, loading, done: a later selection or
  click never redirects a read, and a read that has ended is never restarted.
\<close>

theorem reader_keeps_file:
  assumes "run s es = Some s'" and "i < length (readers s)"
  shows "i < length (readers s') \<and> reading (readers s' ! i) = reading (readers s ! i) \<and>
    ready_state (readers s ! i) \<le> ready_state (readers s' ! i)"
  using assms
proof (induction es arbitrary: s)
  case Nil
  then show ?case by simp
next
  case (Cons e es)
  from Cons.prems(1) obtain u where u: "page_step s e u" and rest: "run u es = Some s'"
    by (auto simp: page_step_iff_fire split: option.splits)
  from reader_step [OF u Cons.prems(2)] Cons.IH [OF rest] show ?case by auto
qed

theorem reader_keeps_file_witness:
  "run (page_load upper_engine) retry_run = Some retried_page \<and>
   (\<exists>s. run (page_load upper_engine) [RuntimeInitialized, Change [hello_txt], Click] = Some s \<and>
      run s [Click, Error 0, Load 1 (ascii ''hello'')] = Some retried_page \<and>
      length (readers s) = 1 \<and> reading (readers s ! 0) = Some hello_txt \<and>
      ready_state (readers s ! 0) = LOADING \<and>
      reading (readers retried_page ! 0) = Some hello_txt \<and>
      ready_state (readers retried_page ! 0) = DONE)"
proof -
  let ?s = "on_click (picked_page upper_engine)"
  have a: "run (page_load upper_engine) [RuntimeInitialized, Change [hello_txt], Click] = Some ?s"
    by (simp add: fire_def picked_page_def ready_page_def)
  have b: "run ?s [Click, Error 0, Load 1 (ascii ''hello'')] = Some retried_page"
    using run_retry_run by (simp add: retry_run_def fire_def picked_page_def ready_page_def)
  have l: "0 < length (readers ?s)" by (simp add: eval_defs)
  from reader_keeps_file [OF b l] a b run_retry_run show ?thesis
    by (simp add: eval_defs retried_page_def)
qed

text \<open>
  C25 (invariant). In every reachable state each reader is either loading or done, and
  the engine has been called at most once for each read that has ended: one click
  leads to at most one call, and there is no retry.
\<close>

theorem reads_accounting:
  assumes "reachable s"
  shows "in_flight s + finished s = length (readers s) \<and> length (calls s) \<le> finished s"
  using assms by (simp add: in_flight_plus_finished calls_le_finished)

theorem reads_accounting_witness:
  "reachable retried_page \<and> in_flight retried_page = 0 \<and> finished retried_page = 2 \<and>
   length (readers retried_page) = 2 \<and> length (calls retried_page) = 1"
  using reads_accounting [OF reachable_retried_page] reachable_retried_page
  by (simp add: retried_page_def in_flight_def finished_def)

text \<open>
  If the engine of the module never throws, nothing is ever left uncaught:
  every handler of the script runs to its end in every reachable state.
\<close>

theorem quiet_engine_no_uncaught:
  assumes "reachable s" and "\<forall>h t. wasm_module s h t \<noteq> Throws"
  shows "uncaught s = []"
  using assms uncaught_only_if_engine_throws by blast

theorem quiet_engine_no_uncaught_witness:
  "reachable retried_page \<and> (\<forall>h t. wasm_module retried_page h t \<noteq> Throws) \<and>
   uncaught retried_page = []"
proof -
  have q: "\<forall>h t. wasm_module retried_page h t \<noteq> Throws"
    by (simp add: retried_page_def upper_engine_def)
  from quiet_engine_no_uncaught [OF reachable_retried_page q] reachable_retried_page q
  show ?thesis by simp
qed

text \<open>
  The two descriptions of the page agree: a state is reachable by
  steps of the relation exactly if it is the result of a run of the dispatcher from a
  page that has just loaded.
\<close>

theorem reachable_iff_run: "reachable s \<longleftrightarrow> (\<exists>s0 es. initial s0 \<and> run s0 es = Some s)"
  by (blast intro: reachable_run run_reachable reachable.init)

theorem reachable_iff_run_witness:
  "reachable failed_page \<and>
   (\<exists>s0 es. initial s0 \<and> run s0 es = Some failed_page)"
  using reachable_iff_run [of failed_page] reachable_failed_page by simp

end
