(* ===== verification/Session_Spec.thy ===== *)
theory Session_Spec
  imports EventLoop
begin

text \<open>
  The state machine of the pipeline controller as the specification words it (section
  4.6): six phases and the transitions between them, with no reference to the page.
  The theory relates it to the page of \<open>EventLoop\<close>: the phase that a page is in, the
  triggers that an event of the page stands for, and the events in the situations that
  the specification covers. For those, every step of the page is a run of the machine
  of the specification; for the others, lemmas show what the page does where the
  specification has no transition.
\<close>

section \<open>The machine of the specification\<close>

datatype phase = Idle | ReadyNoFile | ReadyWithFile | Reading | Invoking | Displayed

text \<open>
  The triggers of section 4.6. \<open>Settled\<close> stands for the return from \<open>Displayed\<close>
  to \<open>ReadyWithFile\<close>, which the specification describes without a name.
\<close>

datatype trigger =
  EngineReady | FilePicked | AnalyzeRequested | ReadSucceeded | ReadFailed |
  InvokeSucceeded | InvokeFailed | Settled

inductive spec_step :: "phase \<Rightarrow> trigger \<Rightarrow> phase \<Rightarrow> bool" where
  engine_ready: "spec_step Idle EngineReady ReadyNoFile"
| first_pick: "spec_step ReadyNoFile FilePicked ReadyWithFile"
| next_pick: "spec_step ReadyWithFile FilePicked ReadyWithFile"
| analyze: "spec_step ReadyWithFile AnalyzeRequested Reading"
| read_ok: "spec_step Reading ReadSucceeded Invoking"
| invoke_ok: "spec_step Invoking InvokeSucceeded Displayed"
| read_failed: "spec_step Reading ReadFailed ReadyWithFile"
| invoke_failed: "spec_step Invoking InvokeFailed ReadyWithFile"
| settled: "spec_step Displayed Settled ReadyWithFile"
| not_ready: "spec_step Idle AnalyzeRequested Idle"
| no_file: "spec_step ReadyNoFile AnalyzeRequested ReadyNoFile"

inductive_cases spec_step_IdleE [elim!]: "spec_step Idle t p"
inductive_cases spec_step_ReadingE [elim!]: "spec_step Reading t p"
inductive_cases spec_step_EngineReadyE [elim!]: "spec_step p EngineReady q"
inductive_cases spec_step_FilePickedE [elim!]: "spec_step p FilePicked q"

text \<open>The same machine as a function, and its runs.\<close>

fun spec_next :: "phase \<Rightarrow> trigger \<Rightarrow> phase option" where
  "spec_next Idle EngineReady = Some ReadyNoFile"
| "spec_next ReadyNoFile FilePicked = Some ReadyWithFile"
| "spec_next ReadyWithFile FilePicked = Some ReadyWithFile"
| "spec_next ReadyWithFile AnalyzeRequested = Some Reading"
| "spec_next Reading ReadSucceeded = Some Invoking"
| "spec_next Invoking InvokeSucceeded = Some Displayed"
| "spec_next Reading ReadFailed = Some ReadyWithFile"
| "spec_next Invoking InvokeFailed = Some ReadyWithFile"
| "spec_next Displayed Settled = Some ReadyWithFile"
| "spec_next Idle AnalyzeRequested = Some Idle"
| "spec_next ReadyNoFile AnalyzeRequested = Some ReadyNoFile"
| "spec_next _ _ = None"

fun spec_run :: "phase \<Rightarrow> trigger list \<Rightarrow> phase option" where
  "spec_run p [] = Some p"
| "spec_run p (t # ts) = (case spec_next p t of None \<Rightarrow> None | Some q \<Rightarrow> spec_run q ts)"

lemma spec_step_iff_next: "spec_step p t q \<longleftrightarrow> spec_next p t = Some q"
proof
  assume "spec_step p t q"
  then show "spec_next p t = Some q" by cases simp_all
next
  assume "spec_next p t = Some q"
  then show "spec_step p t q"
    by (cases p; cases t) (auto intro: spec_step.intros)
qed

lemma spec_step_deterministic: "spec_step p t q \<Longrightarrow> spec_step p t q' \<Longrightarrow> q = q'"
  by (simp add: spec_step_iff_next)

lemma spec_run_append:
  "spec_run p (ts @ us) = Option.bind (spec_run p ts) (\<lambda>q. spec_run q us)"
  by (induction ts arbitrary: p) (auto split: option.splits)

section \<open>The phase of a page\<close>

text \<open>
  A file is selected when the picker's list has a first element. A page is \<open>Idle\<close>
  until the engine has started, \<open>Reading\<close> while a read is in flight, and otherwise
  ready with or without a file. \<open>Invoking\<close> and \<open>Displayed\<close> are phases inside the
  load callback; no page between two events is in them.
\<close>

definition selected :: "page \<Rightarrow> bool" where
  "selected s \<longleftrightarrow> (case fileInput_files s of None \<Rightarrow> False | Some fs \<Rightarrow> fs \<noteq> [])"

definition phase_of :: "page \<Rightarrow> phase" where
  "phase_of s =
     (if \<not> engine_ready s then Idle
      else if 0 < in_flight s then Reading
      else if selected s then ReadyWithFile
      else ReadyNoFile)"

text \<open>The triggers that an event of the page stands for, in the page where it occurs.\<close>

fun triggers :: "page \<Rightarrow> event \<Rightarrow> trigger list" where
  "triggers s RuntimeInitialized = [EngineReady]"
| "triggers s (Change fs) = [FilePicked]"
| "triggers s Click = [AnalyzeRequested]"
| "triggers s (Load i t) =
     (case wasm_module s (calls s) t of
        Returns r \<Rightarrow> [ReadSucceeded, InvokeSucceeded, Settled]
      | Throws \<Rightarrow> [ReadSucceeded, InvokeFailed])"
| "triggers s (Error i) = [ReadFailed]"

text \<open>
  The situations that section 4.6 covers: the engine starts once, before any file is
  picked; a pick selects a file, after the engine has started and while no read is in
  flight; a click comes while no read is in flight; a read ends while it is the only
  one and its file is still selected.
\<close>

fun specified :: "page \<Rightarrow> event \<Rightarrow> bool" where
  "specified s RuntimeInitialized \<longleftrightarrow> \<not> engine_ready s \<and> \<not> selected s"
| "specified s (Change fs) \<longleftrightarrow> engine_ready s \<and> fs \<noteq> [] \<and> in_flight s = 0"
| "specified s Click \<longleftrightarrow> in_flight s = 0"
| "specified s (Load i t) \<longleftrightarrow> in_flight s = 1 \<and> selected s"
| "specified s (Error i) \<longleftrightarrow> in_flight s = 1 \<and> selected s"

text \<open>Runs in which every event occurs in a specified situation, and their triggers.\<close>

fun disciplined :: "page \<Rightarrow> event list \<Rightarrow> bool" where
  "disciplined s [] \<longleftrightarrow> True"
| "disciplined s (e # es) \<longleftrightarrow> specified s e \<and> enabled s e \<and> disciplined (dispatch e s) es"

fun run_triggers :: "page \<Rightarrow> event list \<Rightarrow> trigger list" where
  "run_triggers s [] = []"
| "run_triggers s (e # es) = triggers s e @ run_triggers (dispatch e s) es"

section \<open>Facts about phases\<close>

lemma selected_frame [simp]:
  "selected (on_runtime_initialized s) = selected s"
  "selected (on_click s) = selected s"
  "selected (reader_onload t s) = selected s"
  "selected (reader_onerror s) = selected s"
  "selected (finish_read i s) = selected s"
  "selected (on_change (pick_files fs s)) \<longleftrightarrow> fs \<noteq> []"
  by (simp_all add: selected_def)

lemma in_flight_on_click:
  "in_flight (on_click s) = (if engine_ready s \<and> selected s then Suc (in_flight s) else in_flight s)"
  by (rule on_click_cases [where s = s];
      simp add: on_click_null on_click_no_file on_click_not_ready on_click_starts_read
        in_flight_def selected_def engine_ready_def surface_defs)

lemma engine_ready_handlers [simp]:
  "engine_ready (on_click s) = engine_ready s"
  "engine_ready (reader_onload t s) = engine_ready s"
  "engine_ready (reader_onerror s) = engine_ready s"
  "engine_ready (finish_read i s) = engine_ready s"
  "engine_ready (on_change s) = engine_ready s"
  by (simp_all add: engine_ready_def)

lemma reachable_idle_no_reads: "reachable s \<Longrightarrow> \<not> engine_ready s \<Longrightarrow> in_flight s = 0"
  by (auto dest!: reachable_page_inv simp: page_inv_def ready_before_read_def in_flight_def)

lemma loading_in_flight: "loading s i \<Longrightarrow> 0 < in_flight s"
  using in_flight_finish_read [of s i] by simp

lemma phase_of_ready_cases:
  "engine_ready s \<Longrightarrow> in_flight s = 0 \<Longrightarrow>
   phase_of s = (if selected s then ReadyWithFile else ReadyNoFile)"
  by (simp add: phase_of_def)

section \<open>Every specified step of the page is a run of the specified machine\<close>

lemma step_simulation:
  assumes "reachable s" and "page_step s e s'" and "specified s e"
  shows "spec_run (phase_of s) (triggers s e) = Some (phase_of s')"
  using assms(2,1,3)
proof (induction rule: page_step.induct)
  case (step_runtime s)
  then have "in_flight s = 0" by (simp add: reachable_idle_no_reads)
  with step_runtime show ?case by (simp add: phase_of_def)
next
  case (step_change s fs)
  then show ?case by (simp add: phase_of_def)
next
  case (step_click s)
  then show ?case by (simp add: phase_of_def in_flight_on_click)
next
  case (step_load s i t)
  then have r: "engine_ready s"
    by (auto dest!: reachable_page_inv loading_readers_nonempty simp: page_inv_def ready_before_read_def)
  from step_load have "in_flight (finish_read i s) = 0"
    using in_flight_finish_read [of s i] by simp
  with r step_load show ?case by (simp add: phase_of_def split: completion.splits)
next
  case (step_error s i)
  then have r: "engine_ready s"
    by (auto dest!: reachable_page_inv loading_readers_nonempty simp: page_inv_def ready_before_read_def)
  from step_error have "in_flight (finish_read i s) = 0"
    using in_flight_finish_read [of s i] by simp
  with r step_error show ?case by (simp add: phase_of_def)
qed

section \<open>What the machine promises, and where the page leaves it\<close>

text \<open>
  C8 (refinement). The page implements the state machine of the specification wherever
  the specification defines it: from any reachable page, a sequence of events that each
  occur in a specified situation is a run of the page, and the triggers that the events
  stand for lead the machine of section 4.6 from the phase of the first page to the
  phase of the last.
\<close>

theorem disciplined_run_follows_spec:
  "reachable s \<Longrightarrow> disciplined s es \<Longrightarrow>
   \<exists>s'. run s es = Some s' \<and> spec_run (phase_of s) (run_triggers s es) = Some (phase_of s')"
proof (induction es arbitrary: s)
  case Nil
  then show ?case by simp
next
  case (Cons e es)
  let ?u = "dispatch e s"
  from Cons.prems(2) have f: "fire s e = Some ?u" by (simp add: fire_def)
  then have st: "page_step s e ?u" by (simp add: page_step_iff_fire)
  with Cons.prems(1) have "reachable ?u" by (rule reachable.step)
  with Cons.prems(2) obtain s' where s': "run ?u es = Some s'"
    and IH: "spec_run (phase_of ?u) (run_triggers ?u es) = Some (phase_of s')"
    using Cons.IH [of ?u] by auto
  from Cons.prems st have "spec_run (phase_of s) (triggers s e) = Some (phase_of ?u)"
    by (simp add: step_simulation)
  with IH s' f show ?case by (simp add: spec_run_append)
qed

definition good_attempt :: "event list" where
  "good_attempt = [RuntimeInitialized, Change [hello_txt], Click, Load 0 (ascii ''hello'')]"

theorem disciplined_run_follows_spec_witness:
  "reachable (page_load upper_engine) \<and> disciplined (page_load upper_engine) good_attempt \<and>
   run_triggers (page_load upper_engine) good_attempt =
     [EngineReady, FilePicked, AnalyzeRequested, ReadSucceeded, InvokeSucceeded, Settled] \<and>
   phase_of (page_load upper_engine) = Idle \<and>
   (\<exists>s'. run (page_load upper_engine) good_attempt = Some s' \<and> phase_of s' = ReadyWithFile)"
proof -
  have r: "reachable (page_load upper_engine)" by (simp add: reachable.init)
  have d: "disciplined (page_load upper_engine) good_attempt"
    by (simp add: good_attempt_def eval_defs selected_def in_flight_def)
  have t: "run_triggers (page_load upper_engine) good_attempt =
      [EngineReady, FilePicked, AnalyzeRequested, ReadSucceeded, InvokeSucceeded, Settled]"
    by (simp add: good_attempt_def eval_defs upper_engine_def)
  have p: "phase_of (page_load upper_engine) = Idle"
    by (simp add: phase_of_def eval_defs)
  from disciplined_run_follows_spec [OF r d] r d show ?thesis
    by (auto simp: t p)
qed

text \<open>
  C34 (refinement, a gap). A file can be picked before the engine has started. When the
  engine then starts, the page goes from \<open>Idle\<close> straight to \<open>ReadyWithFile\<close>; the
  machine of the specification can only go from \<open>Idle\<close> to \<open>ReadyNoFile\<close>.
\<close>

theorem pick_before_ready_leaves_spec:
  assumes "reachable s" and "\<not> engine_ready s" and "selected s"
  shows "phase_of s = Idle \<and> phase_of (on_runtime_initialized s) = ReadyWithFile \<and>
    (\<forall>q. spec_step Idle EngineReady q \<longrightarrow> q = ReadyNoFile)"
proof -
  from assms(1,2) have "in_flight s = 0" by (rule reachable_idle_no_reads)
  with assms(2,3) show ?thesis by (auto simp: phase_of_def)
qed

theorem pick_before_ready_leaves_spec_witness:
  "reachable (on_change (pick_files [hello_txt] (page_load upper_engine))) \<and>
   phase_of (on_change (pick_files [hello_txt] (page_load upper_engine))) = Idle \<and>
   phase_of (on_runtime_initialized (on_change (pick_files [hello_txt] (page_load upper_engine))))
     = ReadyWithFile \<and>
   \<not> spec_step Idle EngineReady ReadyWithFile"
proof -
  let ?s = "on_change (pick_files [hello_txt] (page_load upper_engine))"
  have "run (page_load upper_engine) [Change [hello_txt]] = Some ?s" by (simp add: fire_def)
  then have r: "reachable ?s"
    by (rule run_reachable [OF reachable.init [OF initial_page_load]])
  have n: "\<not> engine_ready ?s" and f: "selected ?s" by (simp_all add: eval_defs selected_def)
  from pick_before_ready_leaves_spec [OF r n f] r show ?thesis by auto
qed

text \<open>
  C33 (refinement, a gap). A click while a read is in flight is not ignored and not
  queued: it starts a second read beside the first. The machine of the specification
  has no transition for a request in the phase \<open>Reading\<close>.
\<close>

theorem click_while_reading_leaves_spec:
  assumes "reachable s" and "loading s i" and "selected s"
  shows "phase_of s = Reading \<and> spec_next Reading AnalyzeRequested = None \<and>
    in_flight (on_click s) = Suc (in_flight s)"
proof -
  from assms(1,2) have "engine_ready s"
    by (auto dest!: reachable_page_inv loading_readers_nonempty simp: page_inv_def ready_before_read_def)
  with assms(2,3) show ?thesis
    by (simp add: phase_of_def in_flight_on_click loading_in_flight)
qed

theorem click_while_reading_leaves_spec_witness:
  "reachable (on_click (picked_page upper_engine)) \<and> loading (on_click (picked_page upper_engine)) 0 \<and>
   phase_of (on_click (picked_page upper_engine)) = Reading \<and>
   in_flight (on_click (on_click (picked_page upper_engine))) = 2"
proof -
  let ?s = "on_click (picked_page upper_engine)"
  have "run (page_load upper_engine) [RuntimeInitialized, Change [hello_txt], Click] = Some ?s"
    by (simp add: fire_def picked_page_def ready_page_def)
  then have r: "reachable ?s"
    by (rule run_reachable [OF reachable.init [OF initial_page_load]])
  have l: "loading ?s 0" and f: "selected ?s" and n: "in_flight ?s = 1"
    by (simp_all add: eval_defs selected_def in_flight_def)
  from click_while_reading_leaves_spec [OF r l f] r l n show ?thesis by simp
qed

text \<open>
  Leaving the picker with nothing selected takes the page from
  \<open>ReadyWithFile\<close> back to \<open>ReadyNoFile\<close> and shows the placeholder; the machine
  of the specification never leaves \<open>ReadyWithFile\<close> for \<open>ReadyNoFile\<close>.
\<close>

theorem deselect_leaves_spec:
  assumes "engine_ready s" and "in_flight s = 0" and "selected s"
  shows "phase_of s = ReadyWithFile \<and> phase_of (on_change (pick_files [] s)) = ReadyNoFile \<and>
    fileNameSpan (on_change (pick_files [] s)) = no_file_selected \<and>
    (\<forall>t. \<not> spec_step ReadyWithFile t ReadyNoFile)"
proof -
  from assms have "phase_of s = ReadyWithFile"
    and "phase_of (on_change (pick_files [] s)) = ReadyNoFile"
    by (simp_all add: phase_of_def)
  moreover have "fileNameSpan (on_change (pick_files [] s)) = no_file_selected"
    by (simp add: on_change_none)
  moreover have "\<forall>t. \<not> spec_step ReadyWithFile t ReadyNoFile"
    by (auto elim: spec_step.cases)
  ultimately show ?thesis by simp
qed

theorem deselect_leaves_spec_witness:
  "engine_ready (picked_page upper_engine) \<and> phase_of (picked_page upper_engine) = ReadyWithFile \<and>
   phase_of (on_change (pick_files [] (picked_page upper_engine))) = ReadyNoFile"
proof -
  have a: "engine_ready (picked_page upper_engine)" "in_flight (picked_page upper_engine) = 0"
    "selected (picked_page upper_engine)"
    by (simp_all add: eval_defs selected_def in_flight_def)
  from deselect_leaves_spec [OF a] a(1) show ?thesis by simp
qed

end
