(* ===== verification/Display.thy ===== *)
theory Display
  imports EventLoop
begin

text \<open>
  What the user can conclude from what the page shows. The script writes to three
  surfaces; this theory gives, for every page that a run from the load can reach, the
  content of each of them in terms of what has happened: the log holds one of six
  reports and the report is true of the page (\<open>report\<close>, \<open>report_text\<close>,
  \<open>report_holds\<close>, \<open>truthful\<close>); the result area holds the engine's answer to the
  latest call that returned (\<open>answers\<close>, \<open>last_answer\<close>); once the user has left the
  picker, the file-name span names the selection (\<open>shown_name\<close>).
\<close>

section \<open>The reports of the log\<close>

text \<open>
  The six texts that the handlers write to the log (lines 30, 41, 46, 70, and 56-58
  without or with the notice of line 66). An attempt on which the engine throws has no
  message of its own: the log is left at the length line.
\<close>

datatype report =
  EngineStarted | NoFileSelected | EngineNotReady | ReadError | EngineError nat | Analysed nat

fun report_text :: "report \<Rightarrow> jsstring" where
  "report_text EngineStarted = wasm_loaded"
| "report_text NoFileSelected = select_file_first"
| "report_text EngineNotReady = wasm_not_ready"
| "report_text ReadError = read_failed"
| "report_text (EngineError n) = file_read_line n"
| "report_text (Analysed n) = file_read_line n @ analysis_done"

text \<open>The reference reading of a log: the report that it is the text of, if any.\<close>

definition read_report :: "jsstring \<Rightarrow> report option" where
  "read_report l =
     (if l = wasm_loaded then Some EngineStarted
      else if l = select_file_first then Some NoFileSelected
      else if l = wasm_not_ready then Some EngineNotReady
      else if l = read_failed then Some ReadError
      else case reported_length l of
          Some n \<Rightarrow> if l = file_read_line n then Some (EngineError n) else None
        | None \<Rightarrow>
            (case reported_length (take (length l - length analysis_done) l) of
               Some n \<Rightarrow> if l = file_read_line n @ analysis_done then Some (Analysed n) else None
             | None \<Rightarrow> None))"

text \<open>
  What a report says of the page. The latest call of the engine is the last element of
  \<open>calls\<close>, made when the calls before it had been made.
\<close>

definition last_call_gave :: "nat \<Rightarrow> jsstring completion \<Rightarrow> 'a wasm_scheme \<Rightarrow> bool" where
  "last_call_gave n c s \<longleftrightarrow>
     calls s \<noteq> [] \<and> length (last (calls s)) = n \<and>
     wasm_module s (butlast (calls s)) (last (calls s)) = c"

fun report_holds :: "report \<Rightarrow> page \<Rightarrow> bool" where
  "report_holds EngineStarted s \<longleftrightarrow> engine_ready s"
| "report_holds NoFileSelected s \<longleftrightarrow> True"
| "report_holds EngineNotReady s \<longleftrightarrow> \<not> engine_ready s"
| "report_holds ReadError s \<longleftrightarrow> length (calls s) < finished s"
| "report_holds (EngineError n) s \<longleftrightarrow> last_call_gave n Throws s"
| "report_holds (Analysed n) s \<longleftrightarrow> last_call_gave n (Returns (resultDiv s)) s"

text \<open>
  The log of a page is truthful, given the log \<open>l0\<close> that the document came with: it
  is still that log, or it is a report that holds of the page.
\<close>

definition truthful :: "jsstring \<Rightarrow> page \<Rightarrow> bool" where
  "truthful l0 s \<longleftrightarrow>
     logArea s = l0 \<or>
     (case read_report (logArea s) of None \<Rightarrow> False | Some r \<Rightarrow> report_holds r s)"

section \<open>The answers of the engine\<close>

text \<open>
  The outcome of every call made so far, oldest first: call \<open>k\<close> was made with the
  text \<open>calls s ! k\<close> when the \<open>k\<close> calls before it had been made. \<open>last_answer\<close> is
  the answer of the latest call that returned, which the session of the specification
  keeps in its field \<^verbatim>\<open>lastResult\<close> (section 3).
\<close>

definition answers :: "'a wasm_scheme \<Rightarrow> jsstring completion list" where
  "answers s = map (\<lambda>k. wasm_module s (take k (calls s)) (calls s ! k)) [0..<length (calls s)]"

fun returned :: "'a completion list \<Rightarrow> 'a list" where
  "returned [] = []"
| "returned (Returns r # cs) = r # returned cs"
| "returned (Throws # cs) = returned cs"

definition last_answer :: "'a wasm_scheme \<Rightarrow> jsstring option" where
  "last_answer s =
     (if returned (answers s) = [] then None else Some (last (returned (answers s))))"

text \<open>
  The result area shows the latest answer, or the text \<open>r0\<close> that the document came
  with while there is none.
\<close>

definition result_ok :: "jsstring \<Rightarrow> 'a wasm_scheme \<Rightarrow> bool" where
  "result_ok r0 s \<longleftrightarrow> resultDiv s = (case last_answer s of None \<Rightarrow> r0 | Some r \<Rightarrow> r)"

section \<open>The name that the span shows\<close>

text \<open>Lines 16-20: the name of the first selected file, or the placeholder.\<close>

definition shown_name :: "jsfile list option \<Rightarrow> jsstring" where
  "shown_name files =
     (case files of
        None \<Rightarrow> no_file_selected
      | Some fs \<Rightarrow> (case item fs 0 of None \<Rightarrow> no_file_selected | Some f \<Rightarrow> file_name f))"

fun is_Change :: "event \<Rightarrow> bool" where
  "is_Change (Change fs) = True"
| "is_Change _ = False"

definition name_ok :: "'a dom_scheme \<Rightarrow> bool" where
  "name_ok s \<longleftrightarrow> fileNameSpan s = shown_name (fileInput_files s)"

section \<open>Reading a report back\<close>

lemma reported_length_shape:
  "reported_length l = Some n \<Longrightarrow> \<exists>ds. l = file_read_prefix @ ds @ file_read_suffix"
  by (auto simp: reported_length_def Let_def split: if_splits)

lemma reported_length_done [simp]: "reported_length (xs @ analysis_done) = None"
proof (cases "reported_length (xs @ analysis_done)")
  case (Some n)
  then obtain ds where "xs @ analysis_done = file_read_prefix @ ds @ file_read_suffix"
    by (auto dest: reported_length_shape)
  then have "last (butlast (xs @ analysis_done)) = last (butlast (file_read_prefix @ ds @ file_read_suffix))"
    by simp
  then show ?thesis by (simp add: msg_defs butlast_append)
qed simp

lemma reported_length_file_read_line [simp]: "reported_length (file_read_line n) = Some n"
  by (simp add: reported_length_def file_read_line_def Let_def nat_of_js_def)

lemma fixed_not_length_line [simp]:
  "file_read_line n \<noteq> wasm_loaded" "file_read_line n \<noteq> select_file_first"
  "file_read_line n \<noteq> wasm_not_ready" "file_read_line n \<noteq> read_failed"
  using file_read_line_not_fixed [of n] by (auto simp: fixed_messages_def)

lemma fixed_not_analysed [simp]:
  "file_read_line n @ analysis_done \<noteq> wasm_loaded"
  "file_read_line n @ analysis_done \<noteq> select_file_first"
  "file_read_line n @ analysis_done \<noteq> wasm_not_ready"
  "file_read_line n @ analysis_done \<noteq> read_failed"
  by (simp_all add: file_read_line_def msg_defs)

lemma fixed_distinct [simp]:
  "wasm_loaded \<noteq> select_file_first" "wasm_loaded \<noteq> wasm_not_ready" "wasm_loaded \<noteq> read_failed"
  "select_file_first \<noteq> wasm_not_ready" "select_file_first \<noteq> read_failed"
  "wasm_not_ready \<noteq> read_failed"
  by (simp_all add: msg_defs)

lemma read_report_text [simp]: "read_report (report_text r) = Some r"
  by (cases r) (simp_all add: read_report_def fixed_distinct [symmetric])

lemma read_report_sound: "read_report l = Some r \<Longrightarrow> l = report_text r"
  unfolding read_report_def by (simp split: if_splits option.splits) auto

lemma report_text_inj: "report_text r = report_text r' \<Longrightarrow> r = r'"
  by (metis read_report_text option.inject)

section \<open>Reports across the handlers\<close>

lemma report_holds_cong:
  assumes "processText s' = processText s" and "calls s' = calls s"
    and "finished s' = finished s" and "wasm_module s' = wasm_module s"
    and "resultDiv s' = resultDiv s"
  shows "report_holds r s' = report_holds r s"
  using assms by (cases r) (simp_all add: engine_ready_def last_call_gave_def)

lemma truthful_frame:
  assumes "truthful l0 s"
    and "logArea s' = logArea s" and "processText s' = processText s" and "calls s' = calls s"
    and "finished s' = finished s" and "wasm_module s' = wasm_module s"
    and "resultDiv s' = resultDiv s"
  shows "truthful l0 s'"
  using assms(1,2) report_holds_cong [OF assms(3-7)]
  by (simp add: truthful_def split: option.splits)

lemma truthfulI: "logArea s = report_text r \<Longrightarrow> report_holds r s \<Longrightarrow> truthful l0 s"
  by (simp add: truthful_def)

lemma processText_at_load:
  "page_inv s \<Longrightarrow> loading s i \<Longrightarrow> processText s = Some (wasm_module s)"
  by (auto simp: page_inv_def engine_bound_def ready_before_read_def engine_ready_def
      dest: loading_readers_nonempty)

lemma last_call_gave_reader_onload:
  assumes "processText s = Some (wasm_module s)"
  shows "last_call_gave (length t) (wasm_module s (calls s) t) (reader_onload t s)"
  using assms
  by (cases "wasm_module s (calls s) t")
    (simp_all add: last_call_gave_def reader_onload_returns reader_onload_throws)

lemma truthful_reader_onload:
  assumes "processText s = Some (wasm_module s)"
  shows "truthful l0 (reader_onload t s)"
proof (cases "wasm_module s (calls s) t")
  case (Returns r)
  with assms have "logArea (reader_onload t s) = report_text (Analysed (length t))"
    and "resultDiv (reader_onload t s) = r"
    by (simp_all add: reader_onload_returns)
  with last_call_gave_reader_onload [OF assms, of t] Returns show ?thesis
    by (intro truthfulI [where r = "Analysed (length t)"]) simp_all
next
  case Throws
  with assms have "logArea (reader_onload t s) = report_text (EngineError (length t))"
    by (simp add: reader_onload_throws)
  with last_call_gave_reader_onload [OF assms, of t] Throws show ?thesis
    by (intro truthfulI [where r = "EngineError (length t)"]) simp_all
qed

lemma truthful_on_click:
  assumes "truthful l0 s"
  shows "truthful l0 (on_click s)"
proof (rule on_click_cases [where s = s])
  assume "fileInput_files s = None"
  then have "on_click s = throw TypeError s" by (rule on_click_null)
  then show ?thesis
    by (intro truthful_frame [OF assms]) (simp_all add: throw_def finished_def)
next
  assume "fileInput_files s = Some []"
  then have "logArea (on_click s) = report_text NoFileSelected"
    by (simp add: on_click_no_file)
  then show ?thesis by (rule truthfulI) simp
next
  fix f fs assume "fileInput_files s = Some (f # fs)" and none: "processText s = None"
  then have "logArea (on_click s) = report_text EngineNotReady"
    and "\<not> engine_ready (on_click s)"
    by (simp_all add: on_click_not_ready engine_ready_def)
  then show ?thesis by (intro truthfulI [where r = EngineNotReady]) simp_all
next
  fix f fs g assume "fileInput_files s = Some (f # fs)" and "processText s = Some g"
  then have "logArea (on_click s) = logArea s" by (simp add: on_click_starts_read)
  then show ?thesis by (intro truthful_frame [OF assms]) simp_all
qed

lemma truthful_step:
  assumes "page_step s e s'" and "reachable s" and "truthful l0 s"
  shows "truthful l0 s'"
  using assms
proof (induction rule: page_step.induct)
  case (step_runtime s)
  have "logArea (on_runtime_initialized s) = report_text EngineStarted" by simp
  then show ?case by (rule truthfulI) simp
next
  case (step_change s fs)
  from step_change.prems(2) show ?case by (rule truthful_frame) simp_all
next
  case (step_click s)
  then show ?case by (simp add: truthful_on_click)
next
  case (step_load s i t)
  then have "processText (finish_read i s) = Some (wasm_module (finish_read i s))"
    by (simp add: processText_at_load reachable_page_inv)
  then show ?case by (rule truthful_reader_onload)
next
  case (step_error s i)
  have "logArea (reader_onerror (finish_read i s)) = report_text ReadError" by simp
  moreover from step_error have "length (calls s) < finished (finish_read i s)"
    using calls_le_finished [of s] by (simp add: finished_finish_read)
  ultimately show ?case by (intro truthfulI [where r = ReadError]) simp_all
qed

lemma truthful_run:
  "reachable s \<Longrightarrow> truthful l0 s \<Longrightarrow> run s es = Some s' \<Longrightarrow> truthful l0 s'"
proof (induction es arbitrary: s)
  case Nil
  then show ?case by simp
next
  case (Cons e es)
  from Cons.prems(3) obtain u where u: "page_step s e u" and rest: "run u es = Some s'"
    by (auto simp: page_step_iff_fire split: option.splits)
  from u Cons.prems(1,2) have "truthful l0 u" by (rule truthful_step)
  moreover from Cons.prems(1) u have "reachable u" by (rule reachable.step)
  ultimately show ?case using rest by (intro Cons.IH)
qed

section \<open>The result area\<close>

lemma returned_append [simp]: "returned (cs @ ds) = returned cs @ returned ds"
  by (induction cs rule: returned.induct) simp_all

lemma answers_frame:
  "calls s' = calls s \<Longrightarrow> wasm_module s' = wasm_module s \<Longrightarrow> answers s' = answers s"
  by (simp add: answers_def)

lemma answers_snoc:
  assumes "calls s' = calls s @ [t]" and "wasm_module s' = wasm_module s"
  shows "answers s' = answers s @ [wasm_module s (calls s) t]"
  using assms by (simp add: answers_def nth_append)

lemma result_ok_frame:
  assumes "result_ok r0 s" and "resultDiv s' = resultDiv s" and "calls s' = calls s"
    and "wasm_module s' = wasm_module s"
  shows "result_ok r0 s'"
  using assms(1,2) answers_frame [OF assms(3,4)] by (simp add: result_ok_def last_answer_def)

lemma result_ok_reader_onload:
  assumes "result_ok r0 s" and "processText s = Some (wasm_module s)"
  shows "result_ok r0 (reader_onload t s)"
proof (cases "wasm_module s (calls s) t")
  case (Returns r)
  with assms(2) have "answers (reader_onload t s) = answers s @ [Returns r]"
    and "resultDiv (reader_onload t s) = r"
    by (simp_all add: answers_snoc [where t = t] reader_onload_returns)
  then show ?thesis by (simp add: result_ok_def last_answer_def)
next
  case Throws
  with assms(2) have "answers (reader_onload t s) = answers s @ [Throws]"
    and "resultDiv (reader_onload t s) = resultDiv s"
    by (simp_all add: answers_snoc [where t = t] reader_onload_throws)
  with assms(1) show ?thesis by (simp add: result_ok_def last_answer_def)
qed

lemma result_ok_step:
  assumes "page_step s e s'" and "page_inv s" and "result_ok r0 s"
  shows "result_ok r0 s'"
  using assms
proof (induction rule: page_step.induct)
  case (step_load s i t)
  from step_load.prems(2) have "result_ok r0 (finish_read i s)"
    by (rule result_ok_frame) simp_all
  moreover from step_load have "processText (finish_read i s) = Some (wasm_module (finish_read i s))"
    by (simp add: processText_at_load)
  ultimately show ?case by (rule result_ok_reader_onload)
qed (erule result_ok_frame; simp)+

lemma result_ok_run:
  "reachable s \<Longrightarrow> result_ok r0 s \<Longrightarrow> run s es = Some s' \<Longrightarrow> result_ok r0 s'"
proof (induction es arbitrary: s)
  case Nil
  then show ?case by simp
next
  case (Cons e es)
  from Cons.prems(3) obtain u where u: "page_step s e u" and rest: "run u es = Some s'"
    by (auto simp: page_step_iff_fire split: option.splits)
  from u Cons.prems(1,2) have "result_ok r0 u" by (auto intro: result_ok_step reachable_page_inv)
  moreover from Cons.prems(1) u have "reachable u" by (rule reachable.step)
  ultimately show ?case using rest by (intro Cons.IH)
qed

section \<open>The file-name span\<close>

lemma name_ok_change [simp]: "name_ok (on_change (pick_files fs s))"
  by (simp add: name_ok_def shown_name_def on_change_def surface_defs split: option.splits)

lemma name_ok_frame:
  "name_ok s \<Longrightarrow> fileNameSpan s' = fileNameSpan s \<Longrightarrow> fileInput_files s' = fileInput_files s \<Longrightarrow>
   name_ok s'"
  by (simp add: name_ok_def)

lemma name_ok_step:
  assumes "page_step s e s'" and "name_ok s \<or> is_Change e"
  shows "name_ok s'"
  using assms by (induction rule: page_step.induct) (simp_all, (erule name_ok_frame; simp)+)

lemma name_ok_run:
  "run s es = Some s' \<Longrightarrow> name_ok s \<or> list_ex is_Change es \<Longrightarrow> name_ok s'"
proof (induction es arbitrary: s)
  case Nil
  then show ?case by simp
next
  case (Cons e es)
  from Cons.prems(1) obtain u where u: "page_step s e u" and rest: "run u es = Some s'"
    by (auto simp: page_step_iff_fire split: option.splits)
  from Cons.prems(2) have "name_ok u \<or> list_ex is_Change es"
    using name_ok_step [OF u] by auto
  with rest show ?case by (rule Cons.IH)
qed

section \<open>What the surfaces promise\<close>

text \<open>
  C10 (invariant). The log never misleads: in every page that a run from the load
  reaches, the log is either the text that the document came with or exactly one of the
  six reports, and the report is true of that page. In particular, when the log ends
  with the notice that the analysis is complete, the result area holds the engine's
  answer to its latest call and the length in the log is the length of the text of that
  call; when the log is the length line alone, the engine threw on its latest call;
  when it is the failure notice, a read has ended without a call.
\<close>

theorem log_is_truthful:
  assumes "initial s0" and "run s0 es = Some s" and "logArea s \<noteq> logArea s0"
  shows "\<exists>r. logArea s = report_text r \<and> report_holds r s"
proof -
  from assms(1) have "reachable s0" by (rule reachable.init)
  moreover have "truthful (logArea s0) s0" by (simp add: truthful_def)
  ultimately have "truthful (logArea s0) s" using assms(2) by (rule truthful_run)
  with assms(3) show ?thesis
    by (auto simp: truthful_def split: option.splits dest: read_report_sound)
qed

theorem log_is_truthful_witness:
  "initial (page_load failing_engine) \<and>
   run (page_load failing_engine) failing_run = Some failed_page \<and>
   logArea failed_page \<noteq> logArea (page_load failing_engine) \<and>
   logArea failed_page = report_text (EngineError 5) \<and>
   (\<exists>r. logArea failed_page = report_text r \<and> report_holds r failed_page)"
proof -
  have "logArea failed_page \<noteq> logArea (page_load failing_engine)"
    by (simp add: failed_page_def page_load_def file_read_line_def file_read_prefix_def)
  from log_is_truthful [OF initial_page_load run_failing_run this] this run_failing_run
  show ?thesis by (simp add: failed_page_def)
qed

text \<open>
  C11 (functional). The result area always shows the engine's answer to the latest call
  that returned, or the text that the document came with while no call has returned:
  no handler writes anything else to it, and a call that throws leaves the earlier
  answer on display.
\<close>

theorem result_is_last_answer:
  assumes "initial s0" and "run s0 es = Some s"
  shows "resultDiv s = (case last_answer s of None \<Rightarrow> resultDiv s0 | Some r \<Rightarrow> r)"
proof -
  from assms(1) have "reachable s0" by (rule reachable.init)
  moreover from assms(1) have "result_ok (resultDiv s0) s0"
    by (simp add: result_ok_def last_answer_def answers_def initial_def)
  ultimately have "result_ok (resultDiv s0) s" using assms(2) by (rule result_ok_run)
  then show ?thesis by (simp add: result_ok_def)
qed

theorem result_is_last_answer_witness:
  "initial (page_load upper_engine) \<and>
   run (page_load upper_engine) retry_run = Some retried_page \<and>
   last_answer retried_page = Some (ascii ''HELLO'') \<and>
   resultDiv retried_page = ascii ''HELLO''"
proof -
  have "last_answer retried_page = Some (ascii ''HELLO'')"
    by (simp add: last_answer_def answers_def retried_page_def upper_engine_def upper_unit_def
        ascii_def)
  with result_is_last_answer [OF initial_page_load run_retry_run] run_retry_run
  show ?thesis by simp
qed

text \<open>
  C15 (invariant). Once the user has left the picker at least once, the file-name span
  names the selection: it shows the name of the first selected file, or the placeholder
  when nothing is selected, whatever else has happened since.
\<close>

theorem name_follows_selection:
  assumes "run s0 es = Some s" and "list_ex is_Change es"
  shows "fileNameSpan s = shown_name (fileInput_files s)"
  using name_ok_run [OF assms(1)] assms(2) by (simp add: name_ok_def)

theorem name_follows_selection_witness:
  "run (page_load upper_engine) retry_run = Some retried_page \<and> list_ex is_Change retry_run \<and>
   fileNameSpan retried_page = ascii ''hello.txt'' \<and>
   shown_name (fileInput_files retried_page) = ascii ''hello.txt''"
proof -
  have c: "list_ex is_Change retry_run" by (simp add: retry_run_def)
  from name_follows_selection [OF run_retry_run c] c run_retry_run
  show ?thesis by (simp add: retried_page_def)
qed

text \<open>
  A log is the text of at most one report, and the reference reading
  finds it: the six reports can be told apart by their text alone.
\<close>

theorem report_read_back: "read_report l = Some r \<longleftrightarrow> l = report_text r"
  by (auto dest: read_report_sound)

end
