(* ===== verification/Session.thy ===== *)
theory Session
  imports Session_Spec Display "HOL-Library.Sublist"
begin

text \<open>
  The session of the specification (section 3) and the contracts of its components
  (sections 4.1 to 4.5), modelled from the words of the specification: a record of four
  fields, the operations of the trackers and of the presenter, and what the pipeline
  does with them on each trigger. The messages are those of the script; the
  specification names the kinds of error and not their texts. The theory then relates
  the page to the session: after every event of a run in which the engine starts once
  and does not throw, the fields of the session are what the page holds, and the text
  on the log surface is the concatenation of the last lines of the session's log. The
  page keeps less than the session: a guidance or failure message replaces the log of
  the page and is appended to the log of the session.
\<close>

section \<open>The data of the specification\<close>

text \<open>Section 7: the kinds of error. Section 3: the outcome of a read or of a call.\<close>

datatype error_kind = NoFile | NotReady | ReadFailure | EngineFailure

datatype outcome = Success jsstring | Failure error_kind

record session =
  engineReady :: bool
  selectedFile :: "jsfile option"
  log :: "jsstring list"
  lastResult :: "jsstring option"

text \<open>The session at the load of the page.\<close>

definition new_session :: session where
  "new_session = \<lparr>engineReady = False, selectedFile = None, log = [], lastResult = None\<rparr>"

section \<open>The components\<close>

text \<open>Section 4.5, the presenter: a line is appended, the log is cleared, the result is set.\<close>

definition append_line :: "jsstring \<Rightarrow> session \<Rightarrow> session" where
  "append_line l \<sigma> = \<sigma>\<lparr>log := log \<sigma> @ [l]\<rparr>"

definition reset :: "session \<Rightarrow> session" where
  "reset \<sigma> = \<sigma>\<lparr>log := []\<rparr>"

definition showResult :: "jsstring \<Rightarrow> session \<Rightarrow> session" where
  "showResult t \<sigma> = \<sigma>\<lparr>lastResult := Some t\<rparr>"

text \<open>
  Section 4.1, the readiness tracker: \<^verbatim>\<open>markReady\<close> is idempotent and announces
  readiness once. Section 4.2, the selection tracker: the selection is replaced.
\<close>

definition markReady :: "session \<Rightarrow> session" where
  "markReady \<sigma> = (if engineReady \<sigma> then \<sigma> else append_line wasm_loaded (\<sigma>\<lparr>engineReady := True\<rparr>))"

definition isReady :: "session \<Rightarrow> bool" where
  "isReady \<sigma> \<longleftrightarrow> engineReady \<sigma>"

definition onFilePicked :: "jsfile option \<Rightarrow> session \<Rightarrow> session" where
  "onFilePicked f \<sigma> = \<sigma>\<lparr>selectedFile := f\<rparr>"

text \<open>
  The text of the line for each kind of error. The script has a text for three of the
  four kinds; \<open>engine_line\<close> stands for the line of an engine failure.
\<close>

fun error_line :: "jsstring \<Rightarrow> error_kind \<Rightarrow> jsstring" where
  "error_line engine_line NoFile = select_file_first"
| "error_line engine_line NotReady = wasm_not_ready"
| "error_line engine_line ReadFailure = read_failed"
| "error_line engine_line EngineFailure = engine_line"

text \<open>
  Section 4.6, an analysis is requested: the missing file is tested first, the engine
  second; a failed precondition is surfaced as a message and the attempt ends. The
  result says whether a read is to start.
\<close>

definition analyzeRequested :: "jsstring \<Rightarrow> session \<Rightarrow> session \<times> bool" where
  "analyzeRequested engine_line \<sigma> =
     (if selectedFile \<sigma> = None then (append_line (error_line engine_line NoFile) \<sigma>, False)
      else if \<not> isReady \<sigma> then (append_line (error_line engine_line NotReady) \<sigma>, False)
      else (\<sigma>, True))"

text \<open>
  Section 4.4, the invoker: the outcome of one call of the engine. Sections 4.3 to 4.6,
  the end of a read: a failure is reported; a text is processed, which clears the log
  (section 4.5), reports the length, calls the engine and either shows the result and
  reports the end, or reports the failure of the engine.
\<close>

definition invoke_outcome :: "jsstring completion \<Rightarrow> outcome" where
  "invoke_outcome c = (case c of Returns r \<Rightarrow> Success r | Throws \<Rightarrow> Failure EngineFailure)"

fun readCompleted :: "jsstring \<Rightarrow> (jsstring \<Rightarrow> jsstring completion) \<Rightarrow> outcome \<Rightarrow> session \<Rightarrow> session" where
  "readCompleted engine_line process (Failure k) \<sigma> = append_line (error_line engine_line k) \<sigma>"
| "readCompleted engine_line process (Success t) \<sigma> =
     (let \<sigma>1 = append_line (file_read_line (length t)) (reset \<sigma>)
      in case invoke_outcome (process t) of
           Success r \<Rightarrow> append_line analysis_done (showResult r \<sigma>1)
         | Failure k \<Rightarrow> append_line (error_line engine_line k) \<sigma>1)"

text \<open>
  The session after an event of the page; \<open>process\<close> is the engine as it answers at
  this event.
\<close>

fun session_step :: "jsstring \<Rightarrow> (jsstring \<Rightarrow> jsstring completion) \<Rightarrow> event \<Rightarrow> session \<Rightarrow> session" where
  "session_step l process RuntimeInitialized \<sigma> = markReady \<sigma>"
| "session_step l process (Change fs) \<sigma> = onFilePicked (item fs 0) \<sigma>"
| "session_step l process Click \<sigma> = fst (analyzeRequested l \<sigma>)"
| "session_step l process (Load i t) \<sigma> = readCompleted l process (Success t) \<sigma>"
| "session_step l process (Error i) \<sigma> = readCompleted l process (Failure ReadFailure) \<sigma>"

text \<open>The session along a run of the page, which supplies the answers of the engine.\<close>

fun session_run :: "jsstring \<Rightarrow> page \<Rightarrow> event list \<Rightarrow> session \<Rightarrow> session" where
  "session_run l s [] \<sigma> = \<sigma>"
| "session_run l s (e # es) \<sigma> =
     session_run l (dispatch e s) es (session_step l (wasm_module s (calls s)) e \<sigma>)"

section \<open>The page as an implementation of the session\<close>

text \<open>
  The first selected file of the page. The page implements a session when the three
  fields agree with what the page holds and the text of the log surface is the
  concatenation of the last lines of the session's log.
\<close>

definition selected_file :: "page \<Rightarrow> jsfile option" where
  "selected_file s = (case fileInput_files s of None \<Rightarrow> None | Some fs \<Rightarrow> item fs 0)"

definition shows_log :: "jsstring \<Rightarrow> jsstring list \<Rightarrow> bool" where
  "shows_log surface ls \<longleftrightarrow> list_ex (\<lambda>shown. concat shown = surface) (suffixes ls)"

definition implements :: "page \<Rightarrow> session \<Rightarrow> bool" where
  "implements s \<sigma> \<longleftrightarrow>
     engineReady \<sigma> = engine_ready s \<and> selectedFile \<sigma> = selected_file s \<and>
     lastResult \<sigma> = last_answer s \<and> shows_log (logArea s) (log \<sigma>)"

text \<open>
  The events that the contracts cover: the engine starts once, and it answers every
  text without throwing.
\<close>

fun covered :: "page \<Rightarrow> event \<Rightarrow> bool" where
  "covered s RuntimeInitialized \<longleftrightarrow> \<not> engine_ready s"
| "covered s (Load i t) \<longleftrightarrow> wasm_module s (calls s) t \<noteq> Throws"
| "covered s e \<longleftrightarrow> True"

fun covered_run :: "page \<Rightarrow> event list \<Rightarrow> bool" where
  "covered_run s [] \<longleftrightarrow> True"
| "covered_run s (e # es) \<longleftrightarrow> covered s e \<and> covered_run (dispatch e s) es"

section \<open>The log surface and the log\<close>

lemma shows_log_iff:
  "shows_log surface ls \<longleftrightarrow> (\<exists>older shown. ls = older @ shown \<and> concat shown = surface)"
proof
  assume "shows_log surface ls"
  then obtain shown where "suffix shown ls" "concat shown = surface"
    by (auto simp: shows_log_def list_ex_iff)
  then show "\<exists>older shown. ls = older @ shown \<and> concat shown = surface"
    by (auto simp: suffix_def)
next
  assume "\<exists>older shown. ls = older @ shown \<and> concat shown = surface"
  then show "shows_log surface ls" by (force simp: shows_log_def list_ex_iff suffix_def)
qed

lemma shows_log_whole: "shows_log (concat ls) ls"
  unfolding shows_log_iff by (intro exI [of _ "[]"] exI [of _ ls]) simp

lemma shows_log_last: "shows_log l (ls @ [l])"
  unfolding shows_log_iff by (intro exI [of _ ls] exI [of _ "[l]"]) simp

lemma shows_log_empty [simp]: "shows_log [] ls"
  unfolding shows_log_iff by (intro exI [of _ ls] exI [of _ "[]"]) simp

lemma shows_log_append:
  assumes "shows_log surface ls"
  shows "shows_log (surface @ l) (ls @ [l])"
proof -
  from assms obtain older shown where "ls = older @ shown" "concat shown = surface"
    by (auto simp: shows_log_iff)
  then have "ls @ [l] = older @ (shown @ [l])" "concat (shown @ [l]) = surface @ l" by simp_all
  then show ?thesis unfolding shows_log_iff by blast
qed

section \<open>The fields along a step\<close>

lemma last_answer_frame:
  "calls s' = calls s \<Longrightarrow> wasm_module s' = wasm_module s \<Longrightarrow> last_answer s' = last_answer s"
  using answers_frame [of s' s] by (simp add: last_answer_def)

lemma last_answer_returns:
  assumes "calls s' = calls s @ [t]" and "wasm_module s' = wasm_module s"
    and "wasm_module s (calls s) t = Returns r"
  shows "last_answer s' = Some r"
  using answers_snoc [OF assms(1,2)] assms(3) by (simp add: last_answer_def)

lemma selected_file_frame [simp]:
  "selected_file (on_runtime_initialized s) = selected_file s"
  "selected_file (on_click s) = selected_file s"
  "selected_file (reader_onload t s) = selected_file s"
  "selected_file (reader_onerror s) = selected_file s"
  "selected_file (finish_read i s) = selected_file s"
  "selected_file (on_change (pick_files fs s)) = item fs 0"
  by (simp_all add: selected_file_def)

lemma implementsI:
  assumes "engineReady \<sigma> = engine_ready s" and "selectedFile \<sigma> = selected_file s"
    and "lastResult \<sigma> = last_answer s" and "shows_log (logArea s) (log \<sigma>)"
  shows "implements s \<sigma>"
  using assms by (simp add: implements_def)

lemmas session_defs = markReady_def isReady_def onFilePicked_def analyzeRequested_def append_line_def
  reset_def showResult_def invoke_outcome_def new_session_def

section \<open>Every covered step keeps the relation\<close>

lemma implements_runtime:
  assumes "implements s \<sigma>" and "\<not> engine_ready s"
  shows "implements (on_runtime_initialized s) (markReady \<sigma>)"
  using assms last_answer_frame [of "on_runtime_initialized s" s]
  by (simp add: implements_def session_defs shows_log_last)

lemma implements_change:
  assumes "implements s \<sigma>"
  shows "implements (on_change (pick_files fs s)) (onFilePicked (item fs 0) \<sigma>)"
  using assms last_answer_frame [of "on_change (pick_files fs s)" s]
  by (simp add: implements_def session_defs engine_ready_def)

lemma implements_click:
  assumes "implements s \<sigma>" and "fileInput_files s \<noteq> None"
  shows "implements (on_click s) (fst (analyzeRequested l \<sigma>))"
proof (cases rule: on_click_cases [of s])
  case null
  with assms(2) show ?thesis by simp
next
  case no_file
  with assms(1) last_answer_frame [of "log_write select_file_first s" s] show ?thesis
    by (simp add: implements_def session_defs on_click_no_file selected_file_def shows_log_last
        item_def)
next
  case (not_ready f fs)
  with assms(1) last_answer_frame [of "log_write wasm_not_ready s" s] show ?thesis
    by (simp add: implements_def session_defs on_click_not_ready selected_file_def shows_log_last
        engine_ready_def item_def)
next
  case (starts_read f fs g)
  with assms(1) last_answer_frame [of "on_click s" s] show ?thesis
    by (simp add: implements_def session_defs selected_file_def engine_ready_def item_def)
      (simp add: on_click_starts_read)
qed

lemma implements_load:
  assumes "implements s \<sigma>" and "processText s = Some (wasm_module s)"
    and "wasm_module s (calls s) t = Returns r"
  shows "implements (reader_onload t (finish_read i s)) (readCompleted l (wasm_module s (calls s)) (Success t) \<sigma>)"
proof -
  let ?s = "finish_read i s"
  from assms(2,3) have u: "reader_onload t ?s =
    ?s\<lparr>logArea := file_read_line (length t) @ analysis_done, resultDiv := r, calls := calls ?s @ [t]\<rparr>"
    by (intro reader_onload_returns [where g = "wasm_module s"]) simp_all
  have "last_answer (reader_onload t ?s) = Some r"
    using assms(3) by (intro last_answer_returns [where s = s and t = t]) (simp_all add: u)
  moreover have "shows_log (file_read_line (length t) @ analysis_done)
      [file_read_line (length t), analysis_done]"
    using shows_log_whole [of "[file_read_line (length t), analysis_done]"] by simp
  ultimately show ?thesis
    using assms(1,3) by (simp add: implements_def session_defs Let_def) (simp add: u engine_ready_def)
qed

lemma implements_error:
  assumes "implements s \<sigma>"
  shows "implements (reader_onerror (finish_read i s)) (readCompleted l process (Failure ReadFailure) \<sigma>)"
  using assms last_answer_frame [of "reader_onerror (finish_read i s)" s]
  by (simp add: implements_def session_defs shows_log_last)

lemma implements_step:
  assumes "implements s \<sigma>" and "page_inv s" and "enabled s e" and "covered s e"
  shows "implements (dispatch e s) (session_step l (wasm_module s (calls s)) e \<sigma>)"
proof (cases e)
  case RuntimeInitialized
  with assms(1,4) show ?thesis by (simp add: implements_runtime)
next
  case (Change fs)
  with assms(1) show ?thesis by (simp add: implements_change)
next
  case Click
  from assms(2) have "fileInput_files s \<noteq> None" by (simp add: page_inv_def picker_ok_def)
  with Click assms(1) show ?thesis by (simp add: implements_click)
next
  case (Load i t)
  with assms(3) have "loading s i" by simp
  with assms(2) have "processText s = Some (wasm_module s)" by (rule processText_at_load)
  moreover from Load assms(4) obtain r where "wasm_module s (calls s) t = Returns r"
    by (cases "wasm_module s (calls s) t") auto
  ultimately show ?thesis using Load assms(1) by (simp add: implements_load del: readCompleted.simps)
next
  case (Error i)
  with assms(1) show ?thesis by (simp add: implements_error del: readCompleted.simps)
qed

section \<open>Runs\<close>

lemma implements_new_session:
  assumes "initial s" and "logArea s = []" and "fileInput_files s = Some []"
  shows "implements s new_session"
  using assms
  by (simp add: implements_def new_session_def initial_def engine_ready_def selected_file_def
      last_answer_def answers_def item_def)

lemma implements_run:
  "reachable s \<Longrightarrow> implements s \<sigma> \<Longrightarrow> run s es = Some s' \<Longrightarrow> covered_run s es \<Longrightarrow>
   implements s' (session_run l s es \<sigma>)"
proof (induction es arbitrary: s \<sigma>)
  case Nil
  then show ?case by simp
next
  case (Cons e es)
  from Cons.prems(3) have e: "enabled s e" and rest: "run (dispatch e s) es = Some s'"
    by (auto simp: fire_def split: if_splits)
  from Cons.prems(1) have "page_inv s" by (rule reachable_page_inv)
  with Cons.prems(2,4) e
  have "implements (dispatch e s) (session_step l (wasm_module s (calls s)) e \<sigma>)"
    by (intro implements_step) simp_all
  moreover from Cons.prems(1) e have "reachable (dispatch e s)"
    by (auto intro: reachable.step simp: page_step_iff_fire fire_def)
  ultimately show ?case using rest Cons.prems(4) by (simp add: Cons.IH)
qed

section \<open>The log of the session only grows between attempts\<close>

text \<open>
  Section 3: the log is appended to, and cleared only when a text that was read is
  processed. The session has this property by construction; the page does not, since
  its messages replace the log.
\<close>

lemma session_log_grows:
  "prefix (log \<sigma>) (log (session_step l process e \<sigma>)) \<or> (\<exists>i t. e = Load i t)"
  by (cases e) (simp_all add: session_defs)

section \<open>Where the page leaves the session\<close>

text \<open>
  When the engine throws, the session has the line of the failure at the end of its
  log and the page shows the length line alone.
\<close>

lemma shows_log_two:
  "shows_log surface [a, b] \<longleftrightarrow> surface = [] \<or> surface = b \<or> surface = a @ b"
  by (auto simp: shows_log_def)

lemma engine_failure_leaves_session:
  assumes "processText s = Some (wasm_module s)" and "wasm_module s (calls s) t = Throws"
    and "l \<noteq> []" and "l \<noteq> file_read_line (length t)"
  shows "\<not> implements (dispatch (Load i t) s) (session_step l (wasm_module s (calls s)) (Load i t) \<sigma>)"
proof -
  let ?s = "finish_read i s"
  from assms(1,2) have "reader_onload t ?s =
    ?s\<lparr>logArea := file_read_line (length t), calls := calls ?s @ [t],
      uncaught := uncaught ?s @ [EngineException]\<rparr>"
    by (intro reader_onload_throws [where g = "wasm_module s"]) simp_all
  then have "logArea (dispatch (Load i t) s) = file_read_line (length t)" by simp
  moreover have "file_read_line (length t) \<noteq> []" by (simp add: file_read_line_def file_read_prefix_def)
  ultimately show ?thesis
    using assms(2-4) by (simp add: implements_def session_defs shows_log_two)
qed

section \<open>Fixtures\<close>

text \<open>
  A run in which the user clicks before anything else, the engine starts, the user
  selects a file and clicks, and the read fails.
\<close>

definition eager_run :: "event list" where
  "eager_run = [Click, RuntimeInitialized, Change [hello_txt], Click, Error 0]"

definition eager_page :: page where
  "eager_page = \<lparr>fileInput_files = Some [hello_txt], fileNameSpan = ascii ''hello.txt'',
     logArea = read_failed, resultDiv = [], uncaught = [],
     wasm_module = upper_engine, processText = Some upper_engine, calls = [],
     readers = [\<lparr>reading = Some hello_txt, ready_state = DONE\<rparr>]\<rparr>"

definition eager_session :: session where
  "eager_session = \<lparr>engineReady = True, selectedFile = Some hello_txt,
     log = [select_file_first, wasm_loaded, read_failed], lastResult = None\<rparr>"

lemma run_eager_run: "run (page_load upper_engine) eager_run = Some eager_page"
  by (simp add: eager_run_def eager_page_def run_defs)

lemma covered_eager_run: "covered_run (page_load upper_engine) eager_run"
  by (simp add: eager_run_def eval_defs)

lemma session_eager_run: "session_run l (page_load upper_engine) eager_run new_session = eager_session"
  by (simp add: eager_run_def eager_session_def session_defs item_def)

section \<open>What the session promises\<close>

text \<open>
  C9 (refinement). The page implements the session of the specification along every run
  from a page that has loaded with an empty log and no selection, as long as the engine
  starts once and answers without throwing: after the run the session's readiness,
  selection and last result are those of the page, and the log surface shows the last
  lines of the session's log.
\<close>

theorem page_implements_session:
  assumes "initial s0" and "logArea s0 = []" and "fileInput_files s0 = Some []"
    and "run s0 es = Some s" and "covered_run s0 es"
  shows "implements s (session_run l s0 es new_session)"
  using reachable.init [OF assms(1)] implements_new_session [OF assms(1-3)] assms(4,5)
  by (rule implements_run)

theorem page_implements_session_witness:
  "initial (page_load upper_engine) \<and> run (page_load upper_engine) eager_run = Some eager_page \<and>
   covered_run (page_load upper_engine) eager_run \<and>
   session_run [] (page_load upper_engine) eager_run new_session = eager_session \<and>
   implements eager_page eager_session \<and> logArea eager_page = read_failed \<and>
   log eager_session = [select_file_first, wasm_loaded, read_failed]"
proof -
  have "logArea (page_load upper_engine) = []" "fileInput_files (page_load upper_engine) = Some []"
    by (simp_all add: page_load_def)
  from page_implements_session [OF initial_page_load this run_eager_run covered_eager_run, of "[]"]
  show ?thesis
    by (simp add: session_eager_run run_eager_run covered_eager_run)
      (simp add: eager_page_def eager_session_def)
qed

end
