(* ===== verification/Decode.thy ===== *)
theory Decode
  imports JsString
begin

text \<open>
  What \<^verbatim>\<open>reader.readAsText(file, "utf-8")\<close> (line 73) makes of the bytes of a
  file: the text that the load callback receives as \<^verbatim>\<open>e.target.result\<close>. The
  decoding is the browser's, not the script's; it is modelled from the Encoding
  Standard, which the File API refers to: a byte order mark at the start of the file
  selects the decoder (and is dropped), otherwise the decoder of the label
  \<^verbatim>\<open>utf-8\<close> runs; an ill-formed sequence yields U+FFFD and decoding goes on; the
  code points are then stored as UTF-16 code units, two for a code point above U+FFFF.
  The lemmas relate the length of the text, which the script reports as bytes in line
  58, to the number of bytes of the file.
\<close>

unbundle bit_operations_syntax

section \<open>Bytes, code points, code units\<close>

type_synonym byte = "8 word"
type_synonym code_point = nat

definition REPLACEMENT :: code_point where
  "REPLACEMENT = 0xFFFD"

text \<open>The code units of a code point in a JavaScript string.\<close>

definition units_of :: "code_point \<Rightarrow> jsstring" where
  "units_of c =
     (if c < 0x10000 then [of_nat c]
      else [of_nat (0xD800 + drop_bit 10 (c - 0x10000)), of_nat (0xDC00 + ((c - 0x10000) AND 0x3FF))])"

definition string_of :: "code_point list \<Rightarrow> jsstring" where
  "string_of cs = concat (map units_of cs)"

section \<open>The UTF-8 decoder\<close>

text \<open>
  The state of the decoder of the standard: the code point under construction, the
  number of continuation bytes seen and needed, and the bounds that the next
  continuation byte has to lie in.
\<close>

record utf8_state =
  code_point :: code_point
  bytes_seen :: nat
  bytes_needed :: nat
  lower_boundary :: byte
  upper_boundary :: byte

definition utf8_init :: utf8_state where
  "utf8_init = \<lparr>code_point = 0, bytes_seen = 0, bytes_needed = 0, lower_boundary = 0x80,
     upper_boundary = 0xBF\<rparr>"

text \<open>
  A byte above 0x7F when no continuation byte is needed: the state after a lead byte,
  or nothing for a byte that cannot start a sequence.
\<close>

definition utf8_lead :: "byte \<Rightarrow> utf8_state \<Rightarrow> utf8_state option" where
  "utf8_lead b st =
     (if 0xC2 \<le> b \<and> b \<le> 0xDF then
        Some (st\<lparr>bytes_needed := 1, code_point := unat (b AND 0x1F)\<rparr>)
      else if 0xE0 \<le> b \<and> b \<le> 0xEF then
        Some (st\<lparr>lower_boundary := (if b = 0xE0 then 0xA0 else lower_boundary st),
                 upper_boundary := (if b = 0xED then 0x9F else upper_boundary st),
                 bytes_needed := 2, code_point := unat (b AND 0xF)\<rparr>)
      else if 0xF0 \<le> b \<and> b \<le> 0xF4 then
        Some (st\<lparr>lower_boundary := (if b = 0xF0 then 0x90 else lower_boundary st),
                 upper_boundary := (if b = 0xF4 then 0x8F else upper_boundary st),
                 bytes_needed := 3, code_point := unat (b AND 0x7)\<rparr>)
      else None)"

text \<open>A continuation byte within the bounds.\<close>

definition utf8_continue :: "byte \<Rightarrow> utf8_state \<Rightarrow> utf8_state" where
  "utf8_continue b st =
     st\<lparr>lower_boundary := 0x80, upper_boundary := 0xBF,
        code_point := push_bit 6 (code_point st) OR unat (b AND 0x3F),
        bytes_seen := bytes_seen st + 1\<rparr>"

text \<open>
  The handler of the decoder for one byte: the code points that it emits (U+FFFD for an
  error), the next state, and whether the byte is put back to be decoded again, which
  happens when it is out of bounds and ends the sequence under construction.
\<close>

definition utf8_handler :: "utf8_state \<Rightarrow> byte \<Rightarrow> code_point list \<times> utf8_state \<times> bool" where
  "utf8_handler st b =
     (if bytes_needed st = 0 then
        (if b \<le> 0x7F then ([unat b], st, False)
         else case utf8_lead b st of
             None \<Rightarrow> ([REPLACEMENT], st, False)
           | Some st' \<Rightarrow> ([], st', False))
      else if b < lower_boundary st \<or> upper_boundary st < b then ([REPLACEMENT], utf8_init, True)
      else
        (let st' = utf8_continue b st
         in if bytes_seen st' \<noteq> bytes_needed st' then ([], st', False)
            else ([code_point st'], utf8_init, False)))"

text \<open>The end of the bytes within a sequence is an error.\<close>

definition utf8_end :: "utf8_state \<Rightarrow> code_point list" where
  "utf8_end st = (if bytes_needed st \<noteq> 0 then [REPLACEMENT] else [])"

lemma utf8_handler_again:
  "utf8_handler st b = (out, st', True) \<Longrightarrow> bytes_needed st \<noteq> 0 \<and> bytes_needed st' = 0"
  by (auto simp: utf8_handler_def utf8_init_def Let_def split: if_splits option.splits)

function utf8_decode :: "utf8_state \<Rightarrow> byte list \<Rightarrow> code_point list" where
  "utf8_decode st [] = utf8_end st"
| "utf8_decode st (b # bs) =
     (case utf8_handler st b of
        (out, st', again) \<Rightarrow> out @ utf8_decode st' (if again then b # bs else bs))"
  by pat_completeness auto

termination
  by (relation "measure (\<lambda>(st, bs). 2 * length bs + (if bytes_needed st = 0 then 0 else 1))")
    (auto dest: utf8_handler_again [OF sym])

section \<open>The UTF-16 decoders\<close>

text \<open>
  The state of the shared UTF-16 decoder of the standard: the first byte of a code unit
  and a leading surrogate, when one has been read and its partner has not.
\<close>

record utf16_state =
  leading_byte :: "byte option"
  leading_surrogate :: "code_unit option"

definition utf16_init :: utf16_state where
  "utf16_init = \<lparr>leading_byte = None, leading_surrogate = None\<rparr>"

definition utf16_unit :: "bool \<Rightarrow> byte \<Rightarrow> byte \<Rightarrow> code_unit" where
  "utf16_unit be lead b =
     (if be then push_bit 8 (ucast lead) + ucast b else push_bit 8 (ucast b) + ucast lead)"

definition is_lead_surrogate :: "code_unit \<Rightarrow> bool" where
  "is_lead_surrogate u \<longleftrightarrow> 0xD800 \<le> u \<and> u \<le> 0xDBFF"

definition is_trail_surrogate :: "code_unit \<Rightarrow> bool" where
  "is_trail_surrogate u \<longleftrightarrow> 0xDC00 \<le> u \<and> u \<le> 0xDFFF"

definition pair_point :: "code_unit \<Rightarrow> code_unit \<Rightarrow> code_point" where
  "pair_point ls u = 0x10000 + push_bit 10 (unat (ls - 0xD800)) + unat (u - 0xDC00)"

text \<open>
  The handler for one byte; \<open>be\<close> is true for the big-endian decoder. It emits code
  points, gives the next state and the bytes that are put back: a leading surrogate
  that is not followed by a trailing one is an error, and the two bytes of the unit
  that followed it are decoded again.
\<close>

definition utf16_handler ::
  "bool \<Rightarrow> utf16_state \<Rightarrow> byte \<Rightarrow> code_point list \<times> utf16_state \<times> byte list" where
  "utf16_handler be st b =
     (case leading_byte st of
        None \<Rightarrow> ([], st\<lparr>leading_byte := Some b\<rparr>, [])
      | Some lead \<Rightarrow>
          (let u = utf16_unit be lead b
           in case leading_surrogate st of
                Some ls \<Rightarrow>
                  if is_trail_surrogate u then ([pair_point ls u], utf16_init, [])
                  else ([REPLACEMENT], utf16_init, [lead, b])
              | None \<Rightarrow>
                  if is_lead_surrogate u then
                    ([], \<lparr>leading_byte = None, leading_surrogate = Some u\<rparr>, [])
                  else if is_trail_surrogate u then ([REPLACEMENT], utf16_init, [])
                  else ([unat u], utf16_init, [])))"

definition utf16_end :: "utf16_state \<Rightarrow> code_point list" where
  "utf16_end st =
     (if leading_byte st \<noteq> None \<or> leading_surrogate st \<noteq> None then [REPLACEMENT] else [])"

definition weight16 :: "utf16_state \<Rightarrow> nat" where
  "weight16 st =
     (if leading_byte st = None then 0 else 2) + (if leading_surrogate st = None then 0 else 4)"

lemma utf16_handler_weight:
  "utf16_handler be st b = (out, st', back) \<Longrightarrow> 3 * length back + weight16 st' < 3 + weight16 st"
  by (auto simp: utf16_handler_def utf16_init_def weight16_def Let_def split: if_splits option.splits)

function utf16_decode :: "bool \<Rightarrow> utf16_state \<Rightarrow> byte list \<Rightarrow> code_point list" where
  "utf16_decode be st [] = utf16_end st"
| "utf16_decode be st (b # bs) =
     (case utf16_handler be st b of
        (out, st', back) \<Rightarrow> out @ utf16_decode be st' (back @ bs))"
  by pat_completeness auto

termination
  by (relation "measure (\<lambda>(be, st, bs). 3 * length bs + weight16 st)")
    (auto dest: utf16_handler_weight [OF sym])

section \<open>The text of a file\<close>

datatype encoding = UTF8 | UTF16BE | UTF16LE

definition bom_sniff :: "byte list \<Rightarrow> encoding option" where
  "bom_sniff bs =
     (if take 3 bs = [0xEF, 0xBB, 0xBF] then Some UTF8
      else if take 2 bs = [0xFE, 0xFF] then Some UTF16BE
      else if take 2 bs = [0xFF, 0xFE] then Some UTF16LE
      else None)"

fun run_decoder :: "encoding \<Rightarrow> byte list \<Rightarrow> code_point list" where
  "run_decoder UTF8 bs = utf8_decode utf8_init bs"
| "run_decoder UTF16BE bs = utf16_decode True utf16_init bs"
| "run_decoder UTF16LE bs = utf16_decode False utf16_init bs"

text \<open>
  Decoding with a fallback encoding: a byte order mark overrides the fallback and is
  not part of the text.
\<close>

definition decode :: "encoding \<Rightarrow> byte list \<Rightarrow> code_point list" where
  "decode fallback bs =
     (case bom_sniff bs of
        None \<Rightarrow> run_decoder fallback bs
      | Some UTF8 \<Rightarrow> run_decoder UTF8 (drop 3 bs)
      | Some e \<Rightarrow> run_decoder e (drop 2 bs))"

text \<open>Line 73: the result of the read, for the label \<^verbatim>\<open>"utf-8"\<close>.\<close>

definition text_of_bytes :: "byte list \<Rightarrow> jsstring" where
  "text_of_bytes bs = string_of (decode UTF8 bs)"

section \<open>Code units\<close>

lemma length_units_of: "length (units_of c) \<le> 2"
  by (simp add: units_of_def)

lemma unat_byte_less: "unat (b :: byte) < 256"
  using unsigned_less [of b, where ?'a = nat] by simp

lemma units_of_byte [simp]: "units_of (unat (b :: byte)) = [ucast b]"
  using unat_byte_less [of b] by (simp add: units_of_def)

lemma units_of_REPLACEMENT [simp]: "units_of REPLACEMENT = [0xFFFD]"
  by (simp add: units_of_def REPLACEMENT_def)

lemma string_of_simps [simp]:
  "string_of [] = []"
  "string_of (c # cs) = units_of c @ string_of cs"
  by (simp_all add: string_of_def)

lemma unat_unit_less: "unat (u :: code_unit) < 65536"
  using unsigned_less [of u, where ?'a = nat] by simp

lemma units_of_unit [simp]: "units_of (unat (u :: code_unit)) = [u]"
  using unat_unit_less [of u] by (simp add: units_of_def)

section \<open>The length of the decoded text\<close>

text \<open>
  The bytes that a state of a decoder has consumed and not yet accounted for by a code
  point. In a state of the UTF-8 decoder that needs no continuation byte, none has been
  seen.
\<close>

definition pending8 :: "utf8_state \<Rightarrow> nat" where
  "pending8 st = (if bytes_needed st = 0 then 0 else 1 + bytes_seen st)"

definition utf8_wf :: "utf8_state \<Rightarrow> bool" where
  "utf8_wf st \<longleftrightarrow> (bytes_needed st = 0 \<longrightarrow> bytes_seen st = 0)"

definition pending16 :: "utf16_state \<Rightarrow> nat" where
  "pending16 st =
     (if leading_byte st = None then 0 else 1) + (if leading_surrogate st = None then 0 else 2)"

lemma utf8_init_wf [simp]: "utf8_wf utf8_init" "pending8 utf8_init = 0"
  by (simp_all add: utf8_wf_def pending8_def utf8_init_def)

lemma utf8_lead_wf:
  "utf8_lead b st = Some st' \<Longrightarrow> utf8_wf st' \<and> bytes_needed st' \<noteq> 0 \<and> bytes_seen st' = bytes_seen st"
  by (auto simp: utf8_lead_def utf8_wf_def split: if_splits)

lemma pending16_init [simp]: "pending16 utf16_init = 0"
  by (simp add: pending16_def utf16_init_def)

lemma string_of_append [simp]: "string_of (cs @ ds) = string_of cs @ string_of ds"
  by (simp add: string_of_def)

text \<open>One byte more is consumed by every step of a handler, whatever it emits or puts back.\<close>

lemma utf8_handler_budget:
  assumes "utf8_wf st" and "utf8_handler st b = (out, st', again)"
  shows "utf8_wf st'"
    and "length (string_of out) + pending8 st' + (if again then 1 else 0) \<le> pending8 st + 1"
  using assms length_units_of [of "code_point (utf8_continue b st)"]
  by (auto simp: utf8_handler_def utf8_init_def Let_def pending8_def utf8_wf_def utf8_continue_def
      dest!: utf8_lead_wf split: if_splits option.splits)

lemma utf16_handler_budget:
  assumes "utf16_handler be st b = (out, st', back)"
  shows "length (string_of out) + pending16 st' + length back \<le> pending16 st + 1"
  using assms length_units_of [of "pair_point (the (leading_surrogate st)) (utf16_unit be (the (leading_byte st)) b)"]
  by (auto simp: utf16_handler_def utf16_init_def Let_def pending16_def
      split: if_splits option.splits)

lemma length_utf8_decode:
  "utf8_wf st \<Longrightarrow> length (string_of (utf8_decode st bs)) \<le> length bs + pending8 st"
proof (induction st bs rule: utf8_decode.induct)
  case (1 st)
  then show ?case by (simp add: utf8_end_def pending8_def)
next
  case (2 st b bs)
  obtain out st' again where h: "utf8_handler st b = (out, st', again)"
    by (cases "utf8_handler st b") auto
  from utf8_handler_budget [OF "2.prems" h] "2.IH" [OF h [symmetric] refl] h
  show ?case by (simp split: if_splits)
qed

lemma length_utf16_decode:
  "length (string_of (utf16_decode be st bs)) \<le> length bs + pending16 st"
proof (induction be st bs rule: utf16_decode.induct)
  case (1 be st)
  then show ?case by (simp add: utf16_end_def pending16_def)
next
  case (2 be st b bs)
  obtain out st' put where h: "utf16_handler be st b = (out, st', put)"
    by (cases "utf16_handler be st b") auto
  from utf16_handler_budget [OF h] "2.IH" [OF h [symmetric] refl] h
  show ?case by simp
qed

lemma length_run_decoder: "length (string_of (run_decoder e bs)) \<le> length bs"
  using length_utf8_decode [of utf8_init bs] length_utf16_decode [of _ utf16_init bs]
  by (cases e) simp_all

lemma length_decode: "length (string_of (decode e bs)) \<le> length bs"
proof (cases "bom_sniff bs")
  case None
  then show ?thesis by (simp add: decode_def length_run_decoder)
next
  case (Some e')
  have "length (string_of (run_decoder e' (drop n bs))) \<le> length bs" for n
    using length_run_decoder [of e' "drop n bs"] by simp
  with Some show ?thesis by (cases e') (simp_all add: decode_def)
qed

section \<open>Files of ASCII text\<close>

definition is_ascii :: "byte list \<Rightarrow> bool" where
  "is_ascii bs \<longleftrightarrow> list_all (\<lambda>b. b \<le> 0x7F) bs"

lemma utf8_decode_ascii: "is_ascii bs \<Longrightarrow> utf8_decode utf8_init bs = map unat bs"
  by (induction bs) (simp_all add: is_ascii_def utf8_end_def utf8_handler_def utf8_init_def)

lemma bom_sniff_ascii: "is_ascii bs \<Longrightarrow> bom_sniff bs = None"
  by (cases bs) (auto simp: is_ascii_def bom_sniff_def take_Cons' split: if_splits)

lemma string_of_bytes: "string_of (map unat (bs :: byte list)) = map ucast bs"
  by (induction bs) simp_all

lemma text_of_ascii: "is_ascii bs \<Longrightarrow> text_of_bytes bs = map ucast bs"
  by (simp add: text_of_bytes_def decode_def bom_sniff_ascii utf8_decode_ascii string_of_bytes)

section \<open>Examples\<close>

text \<open>
  The bytes of \<^verbatim>\<open>hello\<close>; of one Hangul syllable (U+D55C, three bytes, one code
  unit); of one code point above U+FFFF (U+1F600, four bytes, two code units); a byte
  order mark before \<^verbatim>\<open>h\<close>; a little-endian UTF-16 file with its mark, which is
  decoded as UTF-16 whatever the label; a byte that starts no sequence; a sequence cut
  short by the end of the file; an encoded surrogate, which is three errors.
\<close>

definition hello_bytes :: "byte list" where
  "hello_bytes = [0x68, 0x65, 0x6C, 0x6C, 0x6F]"

definition hangul_bytes :: "byte list" where
  "hangul_bytes = [0xED, 0x95, 0x9C]"

lemmas decode_defs = text_of_bytes_def decode_def bom_sniff_def utf8_handler_def utf8_lead_def
  utf8_continue_def utf8_end_def utf8_init_def utf16_handler_def utf16_end_def utf16_init_def
  utf16_unit_def is_lead_surrogate_def is_trail_surrogate_def pair_point_def units_of_def
  REPLACEMENT_def Let_def

lemma text_of_hello: "text_of_bytes hello_bytes = ascii ''hello''"
  by (simp add: hello_bytes_def decode_defs ascii_def)

lemma text_of_hangul: "text_of_bytes hangul_bytes = [0xD55C]"
  by (simp add: hangul_bytes_def decode_defs)

lemma length_hangul_bytes [simp]: "length hangul_bytes = 3"
  by (simp add: hangul_bytes_def)

lemma text_of_astral: "text_of_bytes [0xF0, 0x9F, 0x98, 0x80] = [0xD83D, 0xDE00]"
  by (simp add: decode_defs)

lemma text_of_utf8_bom: "text_of_bytes [0xEF, 0xBB, 0xBF, 0x68] = [0x68]"
  by (simp add: decode_defs)

lemma text_of_utf16le_bom: "text_of_bytes [0xFF, 0xFE, 0x5C, 0xD5, 0x68, 0x00] = [0xD55C, 0x68]"
  by (simp add: decode_defs)

lemma text_of_bad_byte: "text_of_bytes [0x68, 0xFF, 0x69] = [0x68, 0xFFFD, 0x69]"
  by (simp add: decode_defs)

lemma text_of_cut_short: "text_of_bytes [0x68, 0xED, 0x95] = [0x68, 0xFFFD]"
  by (simp add: decode_defs)

lemma text_of_surrogate: "text_of_bytes [0xED, 0xA0, 0x80] = [0xFFFD, 0xFFFD, 0xFFFD]"
  by (simp add: decode_defs)

text \<open>
  More vectors: a two-byte and a three-byte sequence; overlong forms and a code point
  above U+10FFFF, of which every byte is an error; a sequence that another character
  interrupts, which is one error.
\<close>

lemma text_of_vectors:
  "text_of_bytes [0xC3, 0xA9] = [0xE9]"
  "text_of_bytes [0xE2, 0x82, 0xAC] = [0x20AC]"
  "text_of_bytes [0xC0, 0x80] = [0xFFFD, 0xFFFD]"
  "text_of_bytes [0xE0, 0x80, 0x80] = [0xFFFD, 0xFFFD, 0xFFFD]"
  "text_of_bytes [0xF4, 0x90, 0x80, 0x80] = [0xFFFD, 0xFFFD, 0xFFFD, 0xFFFD]"
  "text_of_bytes [0xF0, 0x9F, 0x98] = [0xFFFD]"
  "text_of_bytes [0x61, 0xE2, 0x82, 0x62] = [0x61, 0xFFFD, 0x62]"
  by (simp_all add: decode_defs)

lemma text_of_lone_surrogate_utf16:
  "text_of_bytes [0xFE, 0xFF, 0xD8, 0x00, 0x00, 0x68] = [0xFFFD, 0x68]"
  by (simp add: decode_defs)

end
