(* ===== verification/Files.thy ===== *)
theory Files
  imports EventLoop Decode
begin

text \<open>
  The files behind the picker. In \<open>EventLoop\<close> the text that a \<open>Load\<close> event
  carries is the browser's choice; here it is what the file holds. A disk gives the bytes
  of a file, or nothing for a file that cannot be read; the read of a reader ends with
  the decoded bytes of the file that the reader was started on, or with an error. The
  theory relates the runs in which every read ends this way to the content of the
  files: what the engine is called with, what the log reports as the length, and how
  that number relates to the size of the file.
\<close>

section \<open>Disks and the end of a read\<close>

text \<open>
  The content of a file, by the handle \<open>file_blob\<close> of the \<^verbatim>\<open>File\<close> object. The
  disk does not change during a run.
\<close>

type_synonym disk = "nat \<Rightarrow> byte list option"

text \<open>The event that ends the read of reader \<open>i\<close>, if there is such a reader.\<close>

definition read_outcome :: "disk \<Rightarrow> page \<Rightarrow> nat \<Rightarrow> event option" where
  "read_outcome d s i =
     (case item (readers s) i of
        None \<Rightarrow> None
      | Some r \<Rightarrow>
          (case reading r of
             None \<Rightarrow> None
           | Some f \<Rightarrow>
               Some (case d (file_blob f) of
                       None \<Rightarrow> Error i
                     | Some bs \<Rightarrow> Load i (text_of_bytes bs))))"

text \<open>An event is honest when a read ends the way the disk says; a run, when every event is.\<close>

fun honest :: "disk \<Rightarrow> page \<Rightarrow> event \<Rightarrow> bool" where
  "honest d s (Load i t) \<longleftrightarrow> read_outcome d s i = Some (Load i t)"
| "honest d s (Error i) \<longleftrightarrow> read_outcome d s i = Some (Error i)"
| "honest d s e \<longleftrightarrow> True"

fun honest_run :: "disk \<Rightarrow> page \<Rightarrow> event list \<Rightarrow> bool" where
  "honest_run d s [] \<longleftrightarrow> True"
| "honest_run d s (e # es) \<longleftrightarrow>
     honest d s e \<and> (case fire s e of None \<Rightarrow> False | Some s' \<Rightarrow> honest_run d s' es)"

text \<open>The files that the readers were started on, in the order of the clicks.\<close>

definition read_files :: "page \<Rightarrow> jsfile option list" where
  "read_files s = map reading (readers s)"

text \<open>Every text that the engine was called with is the decoded content of such a file.\<close>

definition from_disk :: "disk \<Rightarrow> jsfile option list \<Rightarrow> jsstring \<Rightarrow> bool" where
  "from_disk d fs t \<longleftrightarrow>
     list_ex (\<lambda>f. case f of
                None \<Rightarrow> False
              | Some f \<Rightarrow> (case d (file_blob f) of None \<Rightarrow> False | Some bs \<Rightarrow> t = text_of_bytes bs)) fs"

definition calls_from_disk :: "disk \<Rightarrow> page \<Rightarrow> bool" where
  "calls_from_disk d s \<longleftrightarrow> list_all (from_disk d (read_files s)) (calls s)"

section \<open>The files of the readers\<close>

lemma read_files_finish_read [simp]: "read_files (finish_read i s) = read_files s"
  by (simp add: read_files_def finish_read_def map_update split: option.splits)
    (simp add: item_eq_Some_iff list_update_same_conv)

lemma read_files_frame [simp]:
  "read_files (on_runtime_initialized s) = read_files s"
  "read_files (on_change s) = read_files s"
  "read_files (pick_files fs s) = read_files s"
  "read_files (reader_onload t s) = read_files s"
  "read_files (reader_onerror s) = read_files s"
  by (simp_all add: read_files_def)

lemma read_files_on_click:
  "\<exists>fs. read_files (on_click s) = read_files s @ fs"
  using readers_on_click [of s] by (auto simp: read_files_def)

lemma read_files_step: "page_step s e s' \<Longrightarrow> \<exists>fs. read_files s' = read_files s @ fs"
  by (induction rule: page_step.induct) (simp_all add: read_files_on_click)

lemma from_disk_iff:
  "from_disk d fs t \<longleftrightarrow>
   (\<exists>f bs. Some f \<in> set fs \<and> d (file_blob f) = Some bs \<and> t = text_of_bytes bs)"
proof
  assume "from_disk d fs t"
  then obtain x where "x \<in> set fs"
    and "case x of None \<Rightarrow> False
         | Some f \<Rightarrow> (case d (file_blob f) of None \<Rightarrow> False | Some bs \<Rightarrow> t = text_of_bytes bs)"
    by (auto simp: from_disk_def list_ex_iff)
  then show "\<exists>f bs. Some f \<in> set fs \<and> d (file_blob f) = Some bs \<and> t = text_of_bytes bs"
    by (cases x) (auto split: option.splits)
next
  assume "\<exists>f bs. Some f \<in> set fs \<and> d (file_blob f) = Some bs \<and> t = text_of_bytes bs"
  then show "from_disk d fs t" by (force simp: from_disk_def list_ex_iff)
qed

lemma from_disk_append: "from_disk d fs t \<Longrightarrow> from_disk d (fs @ gs) t"
  by (auto simp: from_disk_iff)

lemma read_outcome_Load:
  "read_outcome d s i = Some (Load j t) \<Longrightarrow> from_disk d (read_files s) t"
  by (auto simp: read_outcome_def from_disk_def read_files_def list_ex_iff item_eq_Some_iff
      split: option.splits)

section \<open>Honest runs\<close>

lemma calls_from_disk_step:
  assumes "page_step s e s'" and "page_inv s" and "honest d s e" and "calls_from_disk d s"
  shows "calls_from_disk d s'"
proof -
  from assms(2) have "ready_before_read s" by (simp add: page_inv_def)
  with assms(1) have c: "calls s' = calls s @ loads [e]" by (rule calls_step)
  from assms(1) obtain fs where f: "read_files s' = read_files s @ fs"
    by (auto dest: read_files_step)
  have "from_disk d (read_files s) t" if "t \<in> set (loads [e])" for t
    using that assms(3) by (cases e) (auto dest: read_outcome_Load)
  with assms(4) show ?thesis
    by (auto simp: calls_from_disk_def c f list_all_iff intro: from_disk_append)
qed

lemma calls_from_disk_run:
  "reachable s \<Longrightarrow> calls_from_disk d s \<Longrightarrow> honest_run d s es \<Longrightarrow> run s es = Some s' \<Longrightarrow>
   calls_from_disk d s'"
proof (induction es arbitrary: s)
  case Nil
  then show ?case by simp
next
  case (Cons e es)
  from Cons.prems(4) obtain u where u: "page_step s e u" and rest: "run u es = Some s'"
    by (auto simp: page_step_iff_fire split: option.splits)
  from u Cons.prems(3) have h: "honest d s e" "honest_run d u es"
    by (simp_all add: page_step_iff_fire)
  from u Cons.prems(1,2) h(1) have "calls_from_disk d u"
    by (auto intro: calls_from_disk_step reachable_page_inv)
  moreover from Cons.prems(1) u have "reachable u" by (rule reachable.step)
  ultimately show ?case using h(2) rest by (intro Cons.IH)
qed

lemma honest_calls_from_disk:
  assumes "initial s0" and "honest_run d s0 es" and "run s0 es = Some s"
  shows "calls_from_disk d s"
proof -
  from assms(1) have "reachable s0" by (rule reachable.init)
  moreover from assms(1) have "calls_from_disk d s0"
    by (simp add: calls_from_disk_def initial_def)
  ultimately show ?thesis using assms(2,3) by (rule calls_from_disk_run)
qed

text \<open>The read that a click starts ends the way the disk says for the selected file.\<close>

lemma read_outcome_after_click:
  assumes "fileInput_files s = Some (f # fs)" and "processText s = Some g"
  shows "read_outcome d (on_click s) (length (readers s)) =
    Some (case d (file_blob f) of
            None \<Rightarrow> Error (length (readers s))
          | Some bs \<Rightarrow> Load (length (readers s)) (text_of_bytes bs))"
  using assms by (simp add: read_outcome_def on_click_starts_read item_append_length)

lemma fire_click [simp]: "fire s Click = Some (on_click s)"
  by (simp add: fire_def)

lemma loading_after_click:
  "fileInput_files s = Some (f # fs) \<Longrightarrow> processText s = Some g \<Longrightarrow>
   loading (on_click s) (length (readers s))"
  by (simp add: on_click_starts_read loading_def item_append_length)

lemma honest_click_load:
  assumes "fileInput_files s = Some (f # fs)" and "processText s = Some g"
    and "d (file_blob f) = Some bs"
  shows "honest_run d s [Click, Load (length (readers s)) (text_of_bytes bs)]"
  using assms loading_after_click [OF assms(1,2)]
  by (simp add: read_outcome_after_click fire_def)

lemma honest_click_error:
  assumes "fileInput_files s = Some (f # fs)" and "processText s = Some g"
    and "d (file_blob f) = None"
  shows "honest_run d s [Click, Error (length (readers s))]"
  using assms loading_after_click [OF assms(1,2)]
  by (simp add: read_outcome_after_click fire_def)

section \<open>Fixtures\<close>

text \<open>
  A disk on which the file \<open>hello_txt\<close> holds the five bytes of \<^verbatim>\<open>hello\<close>, and
  one on which it holds one Hangul syllable in three bytes; no other file can be read.
\<close>

definition hello_disk :: disk where
  "hello_disk = (\<lambda>b. if b = 0 then Some hello_bytes else None)"

definition hangul_disk :: disk where
  "hangul_disk = (\<lambda>b. if b = 0 then Some hangul_bytes else None)"

definition hello_run :: "event list" where
  "hello_run = [RuntimeInitialized, Change [hello_txt], Click, Load 0 (ascii ''hello'')]"

definition hello_page :: page where
  "hello_page = \<lparr>fileInput_files = Some [hello_txt], fileNameSpan = ascii ''hello.txt'',
     logArea = file_read_line 5 @ analysis_done, resultDiv = ascii ''HELLO'', uncaught = [],
     wasm_module = upper_engine, processText = Some upper_engine,
     calls = [ascii ''hello''], readers = [\<lparr>reading = Some hello_txt, ready_state = DONE\<rparr>]\<rparr>"

lemma run_hello_run: "run (page_load upper_engine) hello_run = Some hello_page"
  by (simp add: hello_run_def hello_page_def run_defs upper_engine_def upper_unit_def ascii_def)

lemma honest_hello_run: "honest_run hello_disk (page_load upper_engine) hello_run"
  by (simp add: hello_run_def hello_disk_def read_outcome_def text_of_hello run_defs)

section \<open>What the files promise\<close>

text \<open>
  When every read ends the way the disk says, the engine is only ever
  called with the decoded content of a file that a click started a reader on: no text
  reaches the engine that is not the content of such a file, and the content of a file
  that was selected and replaced before the click never reaches it.
\<close>

theorem engine_sees_file_contents:
  assumes "initial s0" and "honest_run d s0 es" and "run s0 es = Some s"
  shows "\<forall>t \<in> set (calls s). \<exists>f bs. Some f \<in> set (read_files s) \<and>
    d (file_blob f) = Some bs \<and> t = text_of_bytes bs"
  using honest_calls_from_disk [OF assms]
  by (simp add: calls_from_disk_def from_disk_iff list_all_iff)

theorem engine_sees_file_contents_witness:
  "initial (page_load upper_engine) \<and> honest_run hello_disk (page_load upper_engine) hello_run \<and>
   run (page_load upper_engine) hello_run = Some hello_page \<and>
   calls hello_page = [ascii ''hello''] \<and>
   (\<exists>f bs. Some f \<in> set (read_files hello_page) \<and> hello_disk (file_blob f) = Some bs \<and>
      ascii ''hello'' = text_of_bytes bs)"
proof -
  have c: "calls hello_page = [ascii ''hello'']" by (simp add: hello_page_def)
  then have "ascii ''hello'' \<in> set (calls hello_page)" by simp
  with engine_sees_file_contents [OF initial_page_load honest_hello_run run_hello_run]
  have "\<exists>f bs. Some f \<in> set (read_files hello_page) \<and> hello_disk (file_blob f) = Some bs \<and>
      ascii ''hello'' = text_of_bytes bs"
    by blast
  with c honest_hello_run run_hello_run show ?thesis by simp
qed

end
