(* ===== verification/Settle.thy ===== *)
theory Settle
  imports Files "HOL-Library.While_Combinator"
begin

text \<open>
  The reads in flight run to their end. The script never cancels a read and sets no
  timeout (lines 50-73 create a reader, start it and forget it), so what the user sees
  after the last click depends on the browser ending every read. This theory models
  that as a loop over the page: while a reader is loading, the read of the oldest such
  reader ends the way the disk says and its callback runs. The loop is written with
  \<open>while_option\<close>, so that its result is \<open>None\<close> if it never stops; the lemmas show
  that it stops after as many turns as there are reads in flight, and that no sequence
  of read endings in any other order is longer.
\<close>

section \<open>The loop\<close>

text \<open>The oldest reader that is loading.\<close>

definition next_loading :: "page \<Rightarrow> nat option" where
  "next_loading s = find (loading s) [0..<length (readers s)]"

text \<open>The event that ends the oldest read in flight, if there is one.\<close>

definition next_end :: "disk \<Rightarrow> page \<Rightarrow> event option" where
  "next_end d s = (case next_loading s of None \<Rightarrow> None | Some i \<Rightarrow> read_outcome d s i)"

text \<open>One turn: that event is delivered. Without such an event the page stays as it is.\<close>

definition settle_step :: "disk \<Rightarrow> page \<Rightarrow> page" where
  "settle_step d s = (case next_end d s of None \<Rightarrow> s | Some e \<Rightarrow> dispatch e s)"

definition settle :: "disk \<Rightarrow> page \<Rightarrow> page option" where
  "settle d = while_option (\<lambda>s. next_loading s \<noteq> None) (settle_step d)"

text \<open>The events that end a read.\<close>

fun read_end :: "event \<Rightarrow> bool" where
  "read_end (Load i t) \<longleftrightarrow> True"
| "read_end (Error i) \<longleftrightarrow> True"
| "read_end e \<longleftrightarrow> False"

text \<open>
  What the loop keeps, from the page \<open>s\<close> that it started on: the page \<open>u\<close> is reached from
  \<open>s\<close> by read endings that the disk accounts for, one for each read that is no longer in
  flight.
\<close>

definition settling :: "disk \<Rightarrow> page \<Rightarrow> page \<Rightarrow> bool" where
  "settling d s u \<longleftrightarrow>
     reachable u \<and>
     (\<exists>es. run s es = Some u \<and> honest_run d s es \<and> list_all read_end es \<and>
        length es + in_flight u = in_flight s)"

section \<open>The oldest read in flight\<close>

lemma next_loading_Some: "next_loading s = Some i \<Longrightarrow> loading s i"
  by (auto simp: next_loading_def find_Some_iff)

lemma next_loading_None: "next_loading s = None \<longleftrightarrow> in_flight s = 0"
  by (auto simp: next_loading_def find_None_iff in_flight_def loading_iff filter_empty_conv
      all_set_conv_all_nth)

lemma read_outcome_loading:
  assumes "readers_started s" and "loading s i"
  shows "read_outcome d s i = Some (Error i) \<or> (\<exists>t. read_outcome d s i = Some (Load i t))"
proof -
  from assms(2) have i: "i < length (readers s)" by (simp add: loading_iff)
  with assms(1) have "reading (readers s ! i) \<noteq> None"
    by (simp add: readers_started_def list_all_length)
  with i show ?thesis by (auto simp: read_outcome_def item_def split: option.splits)
qed

lemma next_end_cases:
  assumes "page_inv s" and "in_flight s \<noteq> 0"
  obtains i e where "next_loading s = Some i" and "loading s i" and "next_end d s = Some e"
    and "e = Error i \<or> (\<exists>t. e = Load i t)" and "read_outcome d s i = Some e"
proof -
  from assms(2) obtain i where i: "next_loading s = Some i"
    by (auto simp: next_loading_None [symmetric])
  then have l: "loading s i" by (rule next_loading_Some)
  from assms(1) have "readers_started s" by (simp add: page_inv_def)
  from read_outcome_loading [OF this l, of d] i l that show thesis
    by (auto simp: next_end_def)
qed

text \<open>One turn of the loop is a step of the page, it is honest, and it ends one read.\<close>

lemma settle_step_fire:
  assumes "page_inv s" and "in_flight s \<noteq> 0"
  obtains e where "fire s e = Some (settle_step d s)" and "honest d s e" and "read_end e"
    and "Suc (in_flight (settle_step d s)) = in_flight s"
proof -
  from assms obtain i e where l: "loading s i" and n: "next_end d s = Some e"
    and e: "e = Error i \<or> (\<exists>t. e = Load i t)" and r: "read_outcome d s i = Some e"
    by (rule next_end_cases)
  from l e have "fire s e = Some (dispatch e s)" by (auto simp: fire_def)
  moreover from e r have "honest d s e" by auto
  moreover from e have "read_end e" by auto
  moreover from l e have "Suc (in_flight (dispatch e s)) = in_flight s"
    by (auto simp: in_flight_finish_read)
  ultimately show thesis using n that by (simp add: settle_step_def)
qed

section \<open>Runs of read endings\<close>

lemma honest_run_snoc:
  "run s es = Some u \<Longrightarrow> honest_run d s (es @ [e]) \<longleftrightarrow>
     honest_run d s es \<and> honest d u e \<and> fire u e \<noteq> None"
  by (induction es arbitrary: s) (auto split: option.splits)

lemma in_flight_read_end:
  "page_step s e s' \<Longrightarrow> read_end e \<Longrightarrow> Suc (in_flight s') = in_flight s"
  by (induction rule: page_step.induct) (simp_all add: in_flight_finish_read)

lemma read_ends_count:
  "run s es = Some s' \<Longrightarrow> list_all read_end es \<Longrightarrow> length es + in_flight s' = in_flight s"
proof (induction es arbitrary: s)
  case Nil
  then show ?case by simp
next
  case (Cons e es)
  from Cons.prems(1) obtain u where u: "page_step s e u" and rest: "run u es = Some s'"
    by (auto simp: page_step_iff_fire split: option.splits)
  from u Cons.prems(2) have "Suc (in_flight u) = in_flight s" by (simp add: in_flight_read_end)
  with Cons.IH [OF rest] Cons.prems(2) show ?case by simp
qed

section \<open>The invariant of the loop\<close>

lemma settling_start: "reachable s \<Longrightarrow> settling d s s"
  unfolding settling_def by (auto intro: exI [of _ "[]"])

lemma settling_step:
  assumes "settling d s u" and "next_loading u \<noteq> None"
  shows "settling d s (settle_step d u) \<and> in_flight (settle_step d u) < in_flight u"
proof -
  from assms(1) obtain es where u: "reachable u" and es: "run s es = Some u" "honest_run d s es"
    "list_all read_end es" "length es + in_flight u = in_flight s"
    by (auto simp: settling_def)
  from u have "page_inv u" by (rule reachable_page_inv)
  moreover from assms(2) have "in_flight u \<noteq> 0" by (simp add: next_loading_None)
  ultimately obtain e where e: "fire u e = Some (settle_step d u)" "honest d u e" "read_end e"
    "Suc (in_flight (settle_step d u)) = in_flight u"
    by (rule settle_step_fire)
  from u e(1) have "reachable (settle_step d u)"
    by (auto intro: reachable.step simp: page_step_iff_fire)
  moreover from es(1) e(1) have "run s (es @ [e]) = Some (settle_step d u)"
    by (simp add: run_snoc)
  moreover from es(1,2) e(1,2) have "honest_run d s (es @ [e])" by (simp add: honest_run_snoc)
  moreover from es(3) e(3) have "list_all read_end (es @ [e])" by simp
  moreover from es(4) e(4) have "length (es @ [e]) + in_flight (settle_step d u) = in_flight s"
    by simp
  ultimately have "settling d s (settle_step d u)" unfolding settling_def by blast
  with e(4) show ?thesis by simp
qed

lemma settle_returns:
  assumes "reachable s"
  shows "\<exists>s'. settle d s = Some s'"
  unfolding settle_def
proof (rule measure_while_option_Some [where P = "settling d s" and f = in_flight])
  show "settling d s s" using assms by (rule settling_start)
qed (simp add: settling_step)

lemma settle_settling:
  assumes "reachable s" and "settle d s = Some s'"
  shows "settling d s s'"
proof (rule while_option_rule [where P = "settling d s"])
  show "while_option (\<lambda>s. next_loading s \<noteq> None) (settle_step d) s = Some s'"
    using assms(2) by (simp add: settle_def)
  show "settling d s s" using assms(1) by (rule settling_start)
qed (simp add: settling_step)

lemma settle_stop: "settle d s = Some s' \<Longrightarrow> in_flight s' = 0"
  unfolding settle_def by (drule while_option_stop) (simp add: next_loading_None)

lemma settle_idle: "in_flight s = 0 \<Longrightarrow> settle d s = Some s"
  unfolding settle_def by (subst while_option_unfold) (simp add: next_loading_None)

section \<open>Fixtures\<close>

text \<open>Two clicks on the selected file \<open>hello_txt\<close>: two reads are in flight.\<close>

definition busy_page :: page where
  "busy_page = on_click (on_click (picked_page upper_engine))"

definition settled_page :: page where
  "settled_page = \<lparr>fileInput_files = Some [hello_txt], fileNameSpan = ascii ''hello.txt'',
     logArea = file_read_line 5 @ analysis_done, resultDiv = ascii ''HELLO'', uncaught = [],
     wasm_module = upper_engine, processText = Some upper_engine,
     calls = [ascii ''hello'', ascii ''hello''],
     readers = [\<lparr>reading = Some hello_txt, ready_state = DONE\<rparr>,
                \<lparr>reading = Some hello_txt, ready_state = DONE\<rparr>]\<rparr>"

lemma run_busy_page:
  "run (page_load upper_engine) [RuntimeInitialized, Change [hello_txt], Click, Click] = Some busy_page"
  by (simp add: busy_page_def fire_def picked_page_def ready_page_def)

lemma reachable_busy_page: "reachable busy_page"
  using reachable.init [OF initial_page_load] run_busy_page by (rule run_reachable)

lemma in_flight_busy_page: "in_flight busy_page = 2"
  by (simp add: busy_page_def in_flight_def eval_defs)

lemmas settle_eval = settle_def while_option_unfold settle_step_def next_end_def
  next_loading_def read_outcome_def loading_def item_def hello_disk_def text_of_hello
  busy_page_def settled_page_def eval_defs finish_read_def upper_engine_def upper_unit_def
  ascii_def in_flight_def

section \<open>What the loop promises\<close>

text \<open>
  C19 (termination). From every reachable page the reads in flight run to their end:
  the loop that ends the oldest read the way the disk says and runs its callback stops,
  after exactly as many turns as there were reads in flight; the page it stops on is
  reached by a run of the page and has no read in flight.
\<close>

theorem settle_halts:
  assumes "reachable s"
  shows "\<exists>s' es. settle d s = Some s' \<and> run s es = Some s' \<and> honest_run d s es \<and>
    list_all read_end es \<and> length es = in_flight s \<and> in_flight s' = 0"
proof -
  from assms obtain s' where s': "settle d s = Some s'" by (auto dest: settle_returns)
  with assms have "settling d s s'" by (rule settle_settling)
  moreover from s' have "in_flight s' = 0" by (rule settle_stop)
  ultimately show ?thesis using s' by (auto simp: settling_def)
qed

theorem settle_halts_witness:
  "reachable busy_page \<and> in_flight busy_page = 2 \<and>
   settle hello_disk busy_page = Some settled_page \<and>
   (\<exists>es. run busy_page es = Some settled_page \<and> honest_run hello_disk busy_page es \<and>
      list_all read_end es \<and> length es = 2 \<and> in_flight settled_page = 0)"
proof -
  have "settle hello_disk busy_page = Some settled_page" by (simp add: settle_eval)
  with settle_halts [OF reachable_busy_page, of hello_disk] reachable_busy_page show ?thesis
    by (simp add: in_flight_busy_page)
qed

end
