(* ===== verification/Orders.thy ===== *)
theory Orders
  imports Settle "HOL-Library.Multiset"
begin

text \<open>
  Reads that overlap can end in any order: every click creates a reader of its own
  (line 50) and the callbacks of lines 52 and 69 run when the browser says so. This
  theory shows what does not depend on the order. The texts that the reads in flight
  will hand to the engine are fixed by the disk at the click; whatever the order in
  which the reads end, the engine is called with these texts, each once. What the page
  shows at the end does depend on the order, which is the race of
  \<open>stale_result_race\<close>.
\<close>

section \<open>The texts that are still to come\<close>

text \<open>The text that the read of a reader will yield, if it is loading and its file can be read.\<close>

definition pending_text :: "disk \<Rightarrow> reader \<Rightarrow> jsstring option" where
  "pending_text d r =
     (if ready_state r = LOADING then
        (case reading r of None \<Rightarrow> None | Some f \<Rightarrow> map_option text_of_bytes (d (file_blob f)))
      else None)"

definition pending_texts :: "disk \<Rightarrow> page \<Rightarrow> jsstring list" where
  "pending_texts d s = List.map_filter (pending_text d) (readers s)"

section \<open>One reader ends\<close>

lemma mset_map_filter_update:
  "i < length xs \<Longrightarrow>
   mset (List.map_filter g (xs[i := y])) + mset (List.map_filter g [xs ! i]) =
   mset (List.map_filter g xs) + mset (List.map_filter g [y])"
proof (induction xs arbitrary: i)
  case Nil
  then show ?case by simp
next
  case (Cons x xs)
  then show ?case by (cases i) (auto simp: map_filter_simps split: option.splits)
qed

lemma pending_text_done [simp]: "pending_text d (r\<lparr>ready_state := DONE\<rparr>) = None"
  by (simp add: pending_text_def)

lemma pending_text_outcome:
  assumes "loading s i"
  shows "read_outcome d s i = Some (Load i t) \<Longrightarrow> pending_text d (readers s ! i) = Some t"
    and "read_outcome d s i = Some (Error i) \<Longrightarrow> pending_text d (readers s ! i) = None"
  using assms
  by (auto simp: read_outcome_def pending_text_def loading_iff item_def split: option.splits)

lemma pending_texts_finish_read:
  assumes "loading s i"
  shows "mset (pending_texts d (finish_read i s)) + mset (List.map_filter (pending_text d) [readers s ! i]) =
    mset (pending_texts d s)"
  using assms mset_map_filter_update [of i "readers s" "pending_text d" "(readers s ! i)\<lparr>ready_state := DONE\<rparr>"]
  by (simp add: pending_texts_def readers_finish_read loading_iff map_filter_simps)

lemma pending_texts_frame [simp]:
  "pending_texts d (reader_onload t s) = pending_texts d s"
  "pending_texts d (reader_onerror s) = pending_texts d s"
  by (simp_all add: pending_texts_def)

text \<open>A read that ends moves its text from the texts to come to the calls made.\<close>

lemma conservation_step:
  assumes "page_step s e s'" and "read_end e" and "honest d s e" and "ready_before_read s"
  shows "mset (calls s') + mset (pending_texts d s') = mset (calls s) + mset (pending_texts d s)"
proof -
  from assms(1,4) have c: "calls s' = calls s @ loads [e]" by (rule calls_step)
  from assms(1,2) show ?thesis
  proof cases
    case (step_load i t)
    with assms(3) have "pending_text d (readers s ! i) = Some t"
      by (simp add: pending_text_outcome)
    with pending_texts_finish_read [OF step_load(3), of d] step_load c show ?thesis
      by (simp add: map_filter_simps)
  next
    case (step_error i)
    with assms(3) have "pending_text d (readers s ! i) = None"
      by (simp add: pending_text_outcome)
    with pending_texts_finish_read [OF step_error(3), of d] step_error c show ?thesis
      by (simp add: map_filter_simps)
  qed simp_all
qed

lemma conservation_run:
  "reachable s \<Longrightarrow> run s es = Some s' \<Longrightarrow> honest_run d s es \<Longrightarrow> list_all read_end es \<Longrightarrow>
   mset (calls s') + mset (pending_texts d s') = mset (calls s) + mset (pending_texts d s)"
proof (induction es arbitrary: s)
  case Nil
  then show ?case by simp
next
  case (Cons e es)
  from Cons.prems(2) obtain u where u: "page_step s e u" and rest: "run u es = Some s'"
    by (auto simp: page_step_iff_fire split: option.splits)
  from u Cons.prems(3) have h: "honest d s e" "honest_run d u es"
    by (simp_all add: page_step_iff_fire)
  from Cons.prems(1) have "ready_before_read s" by (auto dest: reachable_page_inv simp: page_inv_def)
  with u Cons.prems(4) h(1)
  have "mset (calls u) + mset (pending_texts d u) = mset (calls s) + mset (pending_texts d s)"
    by (intro conservation_step) simp_all
  moreover from Cons.prems(1) u have "reachable u" by (rule reachable.step)
  then have "mset (calls s') + mset (pending_texts d s') = mset (calls u) + mset (pending_texts d u)"
    using rest h(2) Cons.prems(4) by (intro Cons.IH) simp_all
  ultimately show ?case by simp
qed

lemma pending_texts_idle: "in_flight s = 0 \<Longrightarrow> pending_texts d s = []"
  by (auto simp: pending_texts_def in_flight_def filter_empty_conv map_filter_def pending_text_def)

section \<open>Fixtures\<close>

text \<open>
  Two files on a disk, and the page after a click on each: two reads are in flight, the
  first on \<open>hello_txt\<close>, the second on \<open>hangul_txt\<close>.
\<close>

definition hangul_txt :: jsfile where
  "hangul_txt = \<lparr>file_name = ascii ''hangul.txt'', file_blob = 1\<rparr>"

definition two_disk :: disk where
  "two_disk = (\<lambda>b. if b = 0 then Some hello_bytes else if b = 1 then Some hangul_bytes else None)"

definition racing_page :: page where
  "racing_page = on_click (on_change (pick_files [hangul_txt] (on_click (picked_page upper_engine))))"

definition hello_first :: "event list" where
  "hello_first = [Load 0 (ascii ''hello''), Load 1 [0xD55C]]"

definition hangul_first :: "event list" where
  "hangul_first = [Load 1 [0xD55C], Load 0 (ascii ''hello'')]"

lemma reachable_racing_page: "reachable racing_page"
proof -
  have "run (page_load upper_engine)
      [RuntimeInitialized, Change [hello_txt], Click, Change [hangul_txt], Click] = Some racing_page"
    by (simp add: racing_page_def fire_def picked_page_def ready_page_def)
  with reachable.init [OF initial_page_load] show ?thesis by (rule run_reachable)
qed

lemmas order_eval = racing_page_def hello_first_def hangul_first_def two_disk_def hangul_txt_def
  fire_def eval_defs read_outcome_def loading_def finish_read_def item_def text_of_hello text_of_hangul
  upper_engine_def upper_unit_def in_flight_def ascii_def

section \<open>What does not depend on the order\<close>

text \<open>
  C27 (equivalence). However the reads in flight are ordered when they end, the engine
  is called with the same texts, each as often: the texts of the calls made when no
  read is left are those made before and the decoded contents of the readable files of
  the reads that were in flight. Two orders differ only in the sequence of the calls,
  and in what the page shows at the end.
\<close>

theorem calls_independent_of_order:
  assumes "reachable s"
    and "run s es1 = Some s1" and "honest_run d s es1" and "list_all read_end es1"
    and "in_flight s1 = 0"
    and "run s es2 = Some s2" and "honest_run d s es2" and "list_all read_end es2"
    and "in_flight s2 = 0"
  shows "mset (calls s1) = mset (calls s) + mset (pending_texts d s) \<and>
    mset (calls s2) = mset (calls s1)"
  using conservation_run [OF assms(1,2,3,4)] conservation_run [OF assms(1,6,7,8)] assms(5,9)
  by (simp add: pending_texts_idle)

theorem calls_independent_of_order_witness:
  "reachable racing_page \<and> honest_run two_disk racing_page hello_first \<and>
   honest_run two_disk racing_page hangul_first \<and>
   (\<exists>s1 s2. run racing_page hello_first = Some s1 \<and> run racing_page hangul_first = Some s2 \<and>
      calls s1 = [ascii ''hello'', [0xD55C]] \<and> calls s2 = [[0xD55C], ascii ''hello''] \<and>
      resultDiv s1 = [0xD55C] \<and> resultDiv s2 = ascii ''HELLO'' \<and>
      mset (calls s2) = mset (calls s1))"
proof -
  let ?s1 = "dispatch (Load 1 [0xD55C]) (dispatch (Load 0 (ascii ''hello'')) racing_page)"
  let ?s2 = "dispatch (Load 0 (ascii ''hello'')) (dispatch (Load 1 [0xD55C]) racing_page)"
  have r: "run racing_page hello_first = Some ?s1" "run racing_page hangul_first = Some ?s2"
    by (simp_all add: order_eval)
  have h: "honest_run two_disk racing_page hello_first" "honest_run two_disk racing_page hangul_first"
    by (simp_all add: order_eval)
  have e: "list_all read_end hello_first" "list_all read_end hangul_first"
    by (simp_all add: hello_first_def hangul_first_def)
  have i: "in_flight ?s1 = 0" "in_flight ?s2 = 0" by (simp_all add: order_eval)
  have c: "calls ?s1 = [ascii ''hello'', [0xD55C]]" "calls ?s2 = [[0xD55C], ascii ''hello'']"
    "resultDiv ?s1 = [0xD55C]" "resultDiv ?s2 = ascii ''HELLO''"
    by (simp_all add: order_eval)
  from calls_independent_of_order [OF reachable_racing_page r(1) h(1) e(1) i(1) r(2) h(2) e(2) i(2)]
  have "mset (calls ?s2) = mset (calls ?s1)" by simp
  with r h c reachable_racing_page show ?thesis by blast
qed

end
