(* ===== verification/Scalar.thy ===== *)
theory Scalar
  imports Decode
begin

text \<open>
  The text of a load is a well-formed string. The decoders of \<open>Decode\<close> emit scalar
  values only, that is code points outside the surrogate range and below 0x110000:
  whatever the bytes of the file, no lone surrogate reaches \<^verbatim>\<open>text.length\<close> (line
  58) or the engine (line 61). The theory states this for the code points and for the
  code units of the string, and shows that the code points are recovered from the code
  units.
\<close>

section \<open>Continuation bytes\<close>

text \<open>The value of a continuation byte, and the code point after it.\<close>

lemma continuation_value:
  fixes b :: byte
  assumes "0x80 \<le> b" and "b \<le> 0xBF"
  shows "unat (b AND 0x3F) = unat b - 0x80"
  using assms mod_window [of 2 64 "unat b"] by (simp add: word_le_nat_alt unat_and_low_bits)

lemma code_point_utf8_continue:
  "code_point (utf8_continue b st) = code_point st * 64 + unat b mod 64"
  using push_bit_or_add [of "unat b mod 64" 6 "code_point st"]
  by (simp add: utf8_continue_def unat_and_low_bits)

section \<open>Scalar values\<close>

definition scalar :: "code_point \<Rightarrow> bool" where
  "scalar c \<longleftrightarrow> c < 0xD800 \<or> (0xE000 \<le> c \<and> c < 0x110000)"

lemma scalar_REPLACEMENT [simp]: "scalar REPLACEMENT"
  by (simp add: scalar_def REPLACEMENT_def)

lemma scalar_byte: "(b::byte) \<le> 0x7F \<Longrightarrow> scalar (unat b)"
  by (simp add: scalar_def word_le_nat_alt)

section \<open>The UTF-8 decoder emits scalar values\<close>

text \<open>
  Within a sequence, the code points that the sequence can still end in form an
  interval: the least is reached when the next byte is the lower boundary and every
  later one is 0x80, the greatest when they are the upper boundary and 0xBF. The
  boundaries that a lead byte sets keep this interval within the scalar values.
\<close>

definition remaining :: "utf8_state \<Rightarrow> nat" where
  "remaining st = bytes_needed st - bytes_seen st"

definition utf8_lo :: "utf8_state \<Rightarrow> nat" where
  "utf8_lo st = (code_point st * 64 + (unat (lower_boundary st) - 0x80)) * 64 ^ (remaining st - 1)"

definition utf8_hi :: "utf8_state \<Rightarrow> nat" where
  "utf8_hi st = (code_point st * 64 + (unat (upper_boundary st) - 0x80) + 1) * 64 ^ (remaining st - 1)"

definition utf8_ok :: "utf8_state \<Rightarrow> bool" where
  "utf8_ok st \<longleftrightarrow>
     (if bytes_needed st = 0 then st = utf8_init
      else bytes_seen st < bytes_needed st \<and>
        0x80 \<le> lower_boundary st \<and> lower_boundary st \<le> upper_boundary st \<and>
        upper_boundary st \<le> 0xBF \<and>
        utf8_hi st \<le> 0x110000 \<and> (utf8_hi st \<le> 0xD800 \<or> 0xE000 \<le> utf8_lo st))"

lemma utf8_ok_init [simp]: "utf8_ok utf8_init"
  by (simp add: utf8_ok_def utf8_init_def)

lemma utf8_lead_ok:
  assumes "utf8_lead b utf8_init = Some st"
  shows "utf8_ok st"
proof -
  consider "0xC2 \<le> b" "b \<le> 0xDF" | "0xE0 \<le> b" "b \<le> 0xEF" | "0xF0 \<le> b" "b \<le> 0xF4"
    using assms by (auto simp: utf8_lead_def split: if_splits)
  then show ?thesis
  proof cases
    case 1
    with assms mod_window [of 6 32 "unat b"] show ?thesis
      by (auto simp: utf8_lead_def utf8_init_def utf8_ok_def utf8_hi_def utf8_lo_def remaining_def
          unat_and_low_bits word_le_nat_alt)
  next
    case 2
    with assms mod_window [of 14 16 "unat b"] show ?thesis
      by (auto simp: utf8_lead_def utf8_init_def utf8_ok_def utf8_hi_def utf8_lo_def remaining_def
          unat_and_low_bits word_le_nat_alt word_eq_iff_unsigned [where ?'a = nat]
          split: if_splits)
  next
    case 3
    with assms mod_window [of 30 8 "unat b"] show ?thesis
      by (auto simp: utf8_lead_def utf8_init_def utf8_ok_def utf8_hi_def utf8_lo_def remaining_def
          unat_and_low_bits word_le_nat_alt word_eq_iff_unsigned [where ?'a = nat]
          split: if_splits)
  qed
qed

lemma utf8_continue_fields [simp]:
  "bytes_seen (utf8_continue b st) = Suc (bytes_seen st)"
  "bytes_needed (utf8_continue b st) = bytes_needed st"
  "lower_boundary (utf8_continue b st) = 0x80"
  "upper_boundary (utf8_continue b st) = 0xBF"
  by (simp_all add: utf8_continue_def)

text \<open>A continuation byte within the boundaries narrows the interval.\<close>

lemma utf8_continue_interval:
  assumes "utf8_ok st" and "bytes_needed st \<noteq> 0"
    and "lower_boundary st \<le> b" and "b \<le> upper_boundary st"
  shows "utf8_lo st \<le> code_point (utf8_continue b st) * 64 ^ (remaining st - 1)"
    and "(code_point (utf8_continue b st) + 1) * 64 ^ (remaining st - 1) \<le> utf8_hi st"
proof -
  from assms have b: "0x80 \<le> b" "b \<le> 0xBF" by (auto simp: utf8_ok_def)
  then have c: "code_point (utf8_continue b st) = code_point st * 64 + (unat b - 0x80)"
    using continuation_value [of b] by (simp add: code_point_utf8_continue unat_and_low_bits)
  from assms(3,4) have "unat (lower_boundary st) \<le> unat b" "unat b \<le> unat (upper_boundary st)"
    by (simp_all add: word_le_nat_alt)
  with b show "utf8_lo st \<le> code_point (utf8_continue b st) * 64 ^ (remaining st - 1)"
    and "(code_point (utf8_continue b st) + 1) * 64 ^ (remaining st - 1) \<le> utf8_hi st"
    unfolding utf8_lo_def utf8_hi_def c by (auto intro!: mult_le_mono1 simp: word_le_nat_alt)
qed

lemma utf8_continue_last:
  assumes "utf8_ok st" and "bytes_needed st \<noteq> 0"
    and "lower_boundary st \<le> b" and "b \<le> upper_boundary st"
    and "bytes_seen st + 1 = bytes_needed st"
  shows "scalar (code_point (utf8_continue b st))"
proof -
  from assms(5) have "remaining st - 1 = 0" by (simp add: remaining_def)
  with utf8_continue_interval [OF assms(1-4)] assms(1,2) show ?thesis
    by (auto simp: utf8_ok_def scalar_def)
qed

lemma utf8_continue_ok:
  assumes "utf8_ok st" and "bytes_needed st \<noteq> 0"
    and "lower_boundary st \<le> b" and "b \<le> upper_boundary st"
    and "bytes_seen st + 1 \<noteq> bytes_needed st"
  shows "utf8_ok (utf8_continue b st)"
proof -
  let ?st = "utf8_continue b st"
  from assms(1,2,5) have r: "remaining ?st = remaining st - 1" "remaining st - 1 = Suc (remaining ?st - 1)"
    by (auto simp: remaining_def utf8_continue_def utf8_ok_def)
  have "utf8_lo ?st = code_point ?st * 64 * 64 ^ (remaining ?st - 1)"
    and "utf8_hi ?st = (code_point ?st + 1) * 64 * 64 ^ (remaining ?st - 1)"
    by (simp_all add: utf8_lo_def utf8_hi_def)
  then have "utf8_lo ?st = code_point ?st * 64 ^ (remaining st - 1)"
    and "utf8_hi ?st = (code_point ?st + 1) * 64 ^ (remaining st - 1)"
    by (simp_all only: r(2) power_Suc mult.assoc)
  with utf8_continue_interval [OF assms(1-4)] assms(1,2,5) show ?thesis
    by (auto simp: utf8_ok_def)
qed

text \<open>One step of the handler.\<close>

lemma utf8_handler_scalar:
  assumes "utf8_ok st" and "utf8_handler st b = (out, st', again)"
  shows "utf8_ok st' \<and> list_all scalar out"
proof (cases "bytes_needed st = 0")
  case True
  with assms(1) have "st = utf8_init" by (simp add: utf8_ok_def)
  with assms(2) True show ?thesis
    by (auto simp: utf8_handler_def scalar_byte dest: utf8_lead_ok split: if_splits option.splits)
next
  case False
  with assms utf8_continue_ok [of st b] utf8_continue_last [of st b] show ?thesis
    by (auto simp: utf8_handler_def Let_def not_less split: if_splits)
qed

lemma utf8_decode_scalar: "utf8_ok st \<Longrightarrow> list_all scalar (utf8_decode st bs)"
proof (induction st bs rule: utf8_decode.induct)
  case (1 st)
  then show ?case by (simp add: utf8_end_def)
next
  case (2 st b bs)
  obtain out st' again where h: "utf8_handler st b = (out, st', again)"
    by (cases "utf8_handler st b") auto
  from utf8_handler_scalar [OF "2.prems" h] "2.IH" [OF h [symmetric] refl] h
  show ?case by simp
qed

section \<open>The UTF-16 decoders emit scalar values\<close>

definition utf16_ok :: "utf16_state \<Rightarrow> bool" where
  "utf16_ok st \<longleftrightarrow> (case leading_surrogate st of None \<Rightarrow> True | Some ls \<Rightarrow> is_lead_surrogate ls)"

lemma utf16_ok_init [simp]: "utf16_ok utf16_init"
  by (simp add: utf16_ok_def utf16_init_def)

lemma pair_point_bounds:
  assumes "is_lead_surrogate ls" and "is_trail_surrogate u"
  shows "0x10000 \<le> pair_point ls u" and "pair_point ls u < 0x110000"
proof -
  from assms have "unat (ls - 0xD800) < 0x400" "unat (u - 0xDC00) < 0x400"
    by (auto simp: is_lead_surrogate_def is_trail_surrogate_def unat_sub word_le_nat_alt)
  then show "0x10000 \<le> pair_point ls u" and "pair_point ls u < 0x110000"
    by (simp_all add: pair_point_def push_bit_eq_mult)
qed

lemma scalar_pair_point: "is_lead_surrogate ls \<Longrightarrow> is_trail_surrogate u \<Longrightarrow> scalar (pair_point ls u)"
  using pair_point_bounds [of ls u] by (simp add: scalar_def)

lemma scalar_unit:
  "\<not> is_lead_surrogate u \<Longrightarrow> \<not> is_trail_surrogate u \<Longrightarrow> scalar (unat u)"
  using unat_unit_less [of u]
  by (auto simp: scalar_def is_lead_surrogate_def is_trail_surrogate_def word_le_nat_alt)

lemma utf16_handler_scalar:
  assumes "utf16_ok st" and "utf16_handler be st b = (out, st', put)"
  shows "utf16_ok st' \<and> list_all scalar out"
  using assms
  by (auto simp: utf16_handler_def utf16_ok_def utf16_init_def Let_def scalar_pair_point scalar_unit
      split: option.splits if_splits)

lemma utf16_decode_scalar: "utf16_ok st \<Longrightarrow> list_all scalar (utf16_decode be st bs)"
proof (induction be st bs rule: utf16_decode.induct)
  case (1 be st)
  then show ?case by (simp add: utf16_end_def)
next
  case (2 be st b bs)
  obtain out st' put where h: "utf16_handler be st b = (out, st', put)"
    by (cases "utf16_handler be st b") auto
  from utf16_handler_scalar [OF "2.prems" h] "2.IH" [OF h [symmetric] refl] h
  show ?case by simp
qed

lemma run_decoder_scalar: "list_all scalar (run_decoder e bs)"
  by (cases e) (simp_all add: utf8_decode_scalar utf16_decode_scalar)

lemma decode_scalar: "list_all scalar (decode e bs)"
  by (auto simp: decode_def run_decoder_scalar simp del: run_decoder.simps
      split: option.splits encoding.splits)

section \<open>Well-formed strings\<close>

text \<open>
  A string is well formed when every surrogate in it is part of a pair, a leading one
  followed by a trailing one (\<^verbatim>\<open>String.prototype.isWellFormed\<close>). The code points
  of a string are those that its iterator yields: a pair stands for one code point, any
  other code unit for itself.
\<close>

fun well_formed :: "jsstring \<Rightarrow> bool" where
  "well_formed [] \<longleftrightarrow> True"
| "well_formed [u] \<longleftrightarrow> \<not> is_lead_surrogate u \<and> \<not> is_trail_surrogate u"
| "well_formed (u # v # us) \<longleftrightarrow>
     (if is_lead_surrogate u then is_trail_surrogate v \<and> well_formed us
      else \<not> is_trail_surrogate u \<and> well_formed (v # us))"

fun points_of :: "jsstring \<Rightarrow> code_point list" where
  "points_of [] = []"
| "points_of [u] = [unat u]"
| "points_of (u # v # us) =
     (if is_lead_surrogate u \<and> is_trail_surrogate v then pair_point u v # points_of us
      else unat u # points_of (v # us))"

lemma unat_of_nat_unit: "n < 65536 \<Longrightarrow> unat (of_nat n :: code_unit) = n"
  by (simp add: unat_of_nat)

text \<open>The code units of a scalar value: one that is no surrogate, or a pair.\<close>

lemma units_of_cases:
  assumes "scalar c"
  obtains u where "units_of c = [u]" and "\<not> is_lead_surrogate u" and "\<not> is_trail_surrogate u"
      and "unat u = c"
    | h l where "units_of c = [h, l]" and "is_lead_surrogate h" and "is_trail_surrogate l"
      and "pair_point h l = c"
proof (cases "c < 0x10000")
  case True
  with assms have "unat (of_nat c :: code_unit) = c" by (simp add: unat_of_nat_unit)
  with assms True that(1) [of "of_nat c"] show thesis
    by (auto simp: units_of_def scalar_def is_lead_surrogate_def is_trail_surrogate_def
        word_le_nat_alt)
next
  case False
  define x where "x = c - 0x10000"
  with assms False have x: "x < 0x100000" and c: "c = 0x10000 + x" by (auto simp: scalar_def)
  define h :: code_unit where "h = of_nat (0xD800 + x div 1024)"
  define l :: code_unit where "l = of_nat (0xDC00 + x mod 1024)"
  from x have uh: "unat h = 0xD800 + x div 1024" unfolding h_def
    by (intro unat_of_nat_unit) simp
  have ul: "unat l = 0xDC00 + x mod 1024" unfolding l_def
    by (intro unat_of_nat_unit) simp
  from False have "units_of c = [h, l]"
    by (simp add: units_of_def h_def l_def x_def drop_bit_eq_div and_low_bits del: of_nat_add)
  moreover from x uh have "is_lead_surrogate h"
    by (simp add: is_lead_surrogate_def word_le_nat_alt)
  moreover from ul have "is_trail_surrogate l"
    by (simp add: is_trail_surrogate_def word_le_nat_alt)
  moreover have "pair_point h l = c"
    using uh ul by (simp add: pair_point_def unat_sub word_le_nat_alt push_bit_eq_mult c)
  ultimately show thesis by (rule that(2))
qed

lemma well_formed_units_of: "scalar c \<Longrightarrow> well_formed (units_of c @ us) = well_formed us"
  by (erule units_of_cases; cases us) simp_all

lemma points_of_units_of: "scalar c \<Longrightarrow> points_of (units_of c @ us) = c # points_of us"
  by (erule units_of_cases; cases us) simp_all

lemma well_formed_string_of: "list_all scalar cs \<Longrightarrow> well_formed (string_of cs)"
  by (induction cs) (simp_all add: well_formed_units_of)

lemma points_of_string_of: "list_all scalar cs \<Longrightarrow> points_of (string_of cs) = cs"
  by (induction cs) (simp_all add: points_of_units_of)

text \<open>Conversely, the code points of a well-formed string are scalar values and give it back.\<close>

lemma units_of_pair_point:
  assumes "is_lead_surrogate h" and "is_trail_surrogate l"
  shows "units_of (pair_point h l) = [h, l]"
proof -
  from assms have h: "unat (h - 0xD800) < 0x400" "unat (h - 0xD800) = unat h - 0xD800"
    and l: "unat (l - 0xDC00) < 0x400" "unat (l - 0xDC00) = unat l - 0xDC00"
    by (auto simp: is_lead_surrogate_def is_trail_surrogate_def unat_sub word_le_nat_alt)
  define x where "x = unat (h - 0xD800) * 1024 + unat (l - 0xDC00)"
  with h(1) l(1) have x: "x div 1024 = unat (h - 0xD800)" "x mod 1024 = unat (l - 0xDC00)"
    by simp_all
  have p: "pair_point h l = 0x10000 + x" by (simp add: pair_point_def x_def push_bit_eq_mult)
  from assms h(2) l(2) have "of_nat (0xD800 + x div 1024) = h" "of_nat (0xDC00 + x mod 1024) = l"
    unfolding x by (simp_all add: is_lead_surrogate_def is_trail_surrogate_def word_le_nat_alt
        del: of_nat_add)
  then show ?thesis
    unfolding p by (simp add: units_of_def drop_bit_eq_div and_low_bits del: of_nat_add)
qed

lemma points_of_well_formed:
  "well_formed us \<Longrightarrow> list_all scalar (points_of us) \<and> string_of (points_of us) = us"
  by (induction us rule: well_formed.induct)
    (auto simp: scalar_unit scalar_pair_point units_of_pair_point split: if_splits)

section \<open>What the decoding promises\<close>

text \<open>
  C23 (type). Whatever the bytes of a file, the text that the load callback receives is
  a well-formed string: the decoders emit scalar values only, so no surrogate in the
  text is without its partner, and the code points of the text are exactly those that
  were decoded.
\<close>

theorem loaded_text_well_formed:
  "well_formed (text_of_bytes bs) \<and> list_all scalar (points_of (text_of_bytes bs)) \<and>
   points_of (text_of_bytes bs) = decode UTF8 bs"
  by (simp add: text_of_bytes_def decode_scalar well_formed_string_of points_of_string_of)

theorem loaded_text_well_formed_witness:
  "well_formed (text_of_bytes [0xED, 0xA0, 0x80]) \<and>
   text_of_bytes [0xED, 0xA0, 0x80] = [0xFFFD, 0xFFFD, 0xFFFD] \<and>
   points_of (text_of_bytes [0xED, 0xA0, 0x80]) = [REPLACEMENT, REPLACEMENT, REPLACEMENT]"
proof -
  have "text_of_bytes [0xED, 0xA0, 0x80] = [0xFFFD, 0xFFFD, 0xFFFD]" by (simp add: decode_defs)
  with loaded_text_well_formed [of "[0xED, 0xA0, 0x80]"] show ?thesis
    by (simp add: is_lead_surrogate_def is_trail_surrogate_def REPLACEMENT_def)
qed

end
