(* ===== verification/Encode.thy ===== *)
theory Encode
  imports Scalar
begin

text \<open>
  The UTF-8 encoder, after the Encoding Standard: the bytes of a code point are its
  value for an ASCII code point, and otherwise a lead byte that holds the count of
  continuation bytes and the top bits, followed by continuation bytes of six bits each.
  It is the inverse of the decoder of \<open>Decode\<close> on scalar values, which is what the
  lemmas show: a file that is well-formed UTF-8 is read as the code points that it
  encodes.
\<close>

section \<open>The encoder\<close>

definition utf8_count :: "code_point \<Rightarrow> nat" where
  "utf8_count c = (if c < 0x80 then 0 else if c < 0x800 then 1 else if c < 0x10000 then 2 else 3)"

definition utf8_offset :: "nat \<Rightarrow> nat" where
  "utf8_offset count = (if count = 1 then 0xC0 else if count = 2 then 0xE0 else 0xF0)"

text \<open>The continuation bytes for the low \<open>6 * count\<close> bits, highest first.\<close>

fun utf8_tail :: "nat \<Rightarrow> code_point \<Rightarrow> byte list" where
  "utf8_tail 0 c = []"
| "utf8_tail (Suc count) c = of_nat (0x80 OR (drop_bit (6 * count) c AND 0x3F)) # utf8_tail count c"

text \<open>The lead byte: the bits above the continuation bytes, and the offset of the count.\<close>

definition utf8_first :: "code_point \<Rightarrow> byte" where
  "utf8_first c = of_nat (drop_bit (6 * utf8_count c) c + utf8_offset (utf8_count c))"

definition utf8_bytes :: "code_point \<Rightarrow> byte list" where
  "utf8_bytes c = (if c < 0x80 then [of_nat c] else utf8_first c # utf8_tail (utf8_count c) c)"

definition utf8_encode :: "code_point list \<Rightarrow> byte list" where
  "utf8_encode cs = concat (map utf8_bytes cs)"

section \<open>The bytes as numbers\<close>

lemma unat_of_nat_byte: "n < 256 \<Longrightarrow> unat (of_nat n :: byte) = n"
  by (simp add: unat_of_nat)

lemma drop_bit_sixes: "drop_bit (6 * n) (c::nat) = c div 64 ^ n"
  by (simp add: drop_bit_eq_div power_mult)

lemma or_continuation: "x < 64 \<Longrightarrow> (0x80::nat) OR x = 0x80 + x"
  using push_bit_or_add [of x 7 1] by (simp add: or.commute)

lemma unat_tail_byte:
  "unat (of_nat (0x80 OR (drop_bit (6 * n) c AND 0x3F)) :: byte) = 0x80 + c div 64 ^ n mod 64"
  by (simp add: and_low_bits drop_bit_sixes or_continuation unat_of_nat_byte del: of_nat_add)

lemma mod_sixes: "c mod 64 ^ Suc n = (c div 64 ^ n mod 64) * 64 ^ n + c mod (64::nat) ^ n"
  using mod_mult2_eq [of c "64 ^ n" 64] by (simp add: ac_simps)

lemma continuation_mod: "(0x80 + x mod 64) mod 64 = x mod (64::nat)"
  using mod_add_left_eq [of 128 64 "x mod 64"] by simp

section \<open>Decoding the bytes of one code point\<close>

text \<open>
  One continuation byte of the encoder, met by the decoder within a sequence whose
  boundaries admit it.
\<close>

lemma utf8_handler_tail_byte:
  fixes st c n
  defines "b \<equiv> of_nat (0x80 OR (drop_bit (6 * n) c AND 0x3F)) :: byte"
  assumes "bytes_needed st \<noteq> 0"
    and "unat (lower_boundary st) \<le> 0x80 + c div 64 ^ n mod 64"
    and "0x80 + c div 64 ^ n mod 64 \<le> unat (upper_boundary st)"
  shows "utf8_handler st b =
    (if Suc (bytes_seen st) = bytes_needed st
     then ([code_point st * 64 + c div 64 ^ n mod 64], utf8_init, False)
     else ([], utf8_continue b st, False))"
    and "code_point (utf8_continue b st) = code_point st * 64 + c div 64 ^ n mod 64"
proof -
  have u: "unat b = 0x80 + c div 64 ^ n mod 64" unfolding b_def by (rule unat_tail_byte)
  then show c: "code_point (utf8_continue b st) = code_point st * 64 + c div 64 ^ n mod 64"
    by (simp add: code_point_utf8_continue continuation_mod)
  from assms(2-4) u show "utf8_handler st b =
    (if Suc (bytes_seen st) = bytes_needed st
     then ([code_point st * 64 + c div 64 ^ n mod 64], utf8_init, False)
     else ([], utf8_continue b st, False))"
    by (simp add: utf8_handler_def Let_def word_less_nat_alt c)
qed

lemma utf8_decode_tail:
  assumes "bytes_needed st = bytes_seen st + n" and "0 < n"
    and "unat (lower_boundary st) \<le> 0x80 + c div 64 ^ (n - 1) mod 64"
    and "0x80 + c div 64 ^ (n - 1) mod 64 \<le> unat (upper_boundary st)"
  shows "utf8_decode st (utf8_tail n c @ bs) =
    (code_point st * 64 ^ n + c mod 64 ^ n) # utf8_decode utf8_init bs"
  using assms
proof (induction n arbitrary: st)
  case 0
  then show ?case by simp
next
  case (Suc n)
  let ?b = "of_nat (0x80 OR (drop_bit (6 * n) c AND 0x3F)) :: byte"
  let ?st = "utf8_continue ?b st"
  from Suc.prems(1) have needed: "bytes_needed st \<noteq> 0" by simp
  from Suc.prems(3,4) have bounds: "unat (lower_boundary st) \<le> 0x80 + c div 64 ^ n mod 64"
    "0x80 + c div 64 ^ n mod 64 \<le> unat (upper_boundary st)"
    by simp_all
  note step = utf8_handler_tail_byte [OF needed bounds]
  show ?case
  proof (cases "n = 0")
    case True
    with Suc.prems(1) have "Suc (bytes_seen st) = bytes_needed st" by simp
    then have "utf8_decode st (utf8_tail (Suc n) c @ bs) =
      (code_point st * 64 + c div 64 ^ n mod 64) # utf8_decode utf8_init (utf8_tail n c @ bs)"
      by (simp add: step(1))
    with True show ?thesis by simp
  next
    case False
    with Suc.prems(1) have more: "Suc (bytes_seen st) \<noteq> bytes_needed st" by simp
    from False Suc.prems(1) have "bytes_needed ?st = bytes_seen ?st + n" "0 < n" by simp_all
    moreover have "unat (lower_boundary ?st) \<le> 0x80 + c div 64 ^ (n - 1) mod 64"
      and "0x80 + c div 64 ^ (n - 1) mod 64 \<le> unat (upper_boundary ?st)"
      by simp_all
    ultimately have "utf8_decode ?st (utf8_tail n c @ bs) =
      (code_point ?st * 64 ^ n + c mod 64 ^ n) # utf8_decode utf8_init bs"
      by (rule Suc.IH)
    moreover have "utf8_decode st (utf8_tail (Suc n) c @ bs) = utf8_decode ?st (utf8_tail n c @ bs)"
      using more by (simp add: step(1))
    moreover have "code_point ?st * 64 ^ n + c mod 64 ^ n = code_point st * 64 ^ Suc n + c mod 64 ^ Suc n"
      unfolding step(2) mod_sixes [of c n] by (simp add: algebra_simps)
    ultimately show ?thesis by (simp only:)
  qed
qed

text \<open>
  The lead byte of the encoder, met by the decoder between sequences: the state that it
  leaves expects the continuation bytes of the encoder, and its boundaries admit the
  first of them.
\<close>

lemma utf8_lead_cases:
  fixes b :: byte
  assumes "0xC2 \<le> unat b" and "unat b \<le> 0xF4"
  shows "utf8_lead b utf8_init =
    Some (if unat b \<le> 0xDF then
            \<lparr>code_point = unat b mod 32, bytes_seen = 0, bytes_needed = 1,
               lower_boundary = 0x80, upper_boundary = 0xBF\<rparr>
          else if unat b \<le> 0xEF then
            \<lparr>code_point = unat b mod 16, bytes_seen = 0, bytes_needed = 2,
               lower_boundary = (if unat b = 0xE0 then 0xA0 else 0x80),
               upper_boundary = (if unat b = 0xED then 0x9F else 0xBF)\<rparr>
          else
            \<lparr>code_point = unat b mod 8, bytes_seen = 0, bytes_needed = 3,
               lower_boundary = (if unat b = 0xF0 then 0x90 else 0x80),
               upper_boundary = (if unat b = 0xF4 then 0x8F else 0xBF)\<rparr>)"
  using assms
  by (simp add: utf8_lead_def utf8_init_def word_le_nat_alt unat_and_low_bits
      word_eq_iff_unsigned [where ?'a = nat])

lemma utf8_handler_lead:
  fixes b :: byte
  assumes "0xC2 \<le> unat b" and "unat b \<le> 0xF4"
  shows "utf8_handler utf8_init b = ([], the (utf8_lead b utf8_init), False)"
  using assms utf8_lead_cases [OF assms]
  by (simp add: utf8_handler_def word_le_nat_alt) (simp add: utf8_init_def)

lemma utf8_decode_sequence:
  fixes b :: byte
  assumes "0xC2 \<le> unat b" and "unat b \<le> 0xF4" and "utf8_lead b utf8_init = Some st"
    and "bytes_needed st = n" and "bytes_seen st = 0" and "0 < n"
    and "code_point st = c div 64 ^ n"
    and "unat (lower_boundary st) \<le> 0x80 + c div 64 ^ (n - 1) mod 64"
    and "0x80 + c div 64 ^ (n - 1) mod 64 \<le> unat (upper_boundary st)"
  shows "utf8_decode utf8_init (b # utf8_tail n c @ bs) = c # utf8_decode utf8_init bs"
proof -
  have "utf8_decode utf8_init (b # utf8_tail n c @ bs) = utf8_decode st (utf8_tail n c @ bs)"
    using utf8_handler_lead [OF assms(1,2)] assms(3) by simp
  also have "\<dots> = (code_point st * 64 ^ n + c mod 64 ^ n) # utf8_decode utf8_init bs"
    using assms(4-6,8,9) by (intro utf8_decode_tail) simp_all
  also have "code_point st * 64 ^ n + c mod 64 ^ n = c"
    unfolding assms(7) by (rule div_mult_mod_eq)
  finally show ?thesis .
qed

lemma unat_utf8_first:
  assumes "0x80 \<le> c" and "c < 0x110000"
  shows "unat (utf8_first c) = c div 64 ^ utf8_count c + utf8_offset (utf8_count c)"
  unfolding utf8_first_def drop_bit_sixes
  using assms by (intro unat_of_nat_byte) (auto simp: utf8_count_def utf8_offset_def)

text \<open>The three kinds of sequences.\<close>

lemma utf8_decode_two:
  assumes "0x80 \<le> c" and "c < 0x800"
  shows "utf8_decode utf8_init (utf8_bytes c @ bs) = c # utf8_decode utf8_init bs"
proof -
  from assms have n: "utf8_count c = 1" by (simp add: utf8_count_def)
  define b where "b = utf8_first c"
  from assms have b: "utf8_bytes c = b # utf8_tail 1 c" "unat b = c div 64 + 0xC0"
    using unat_utf8_first [of c] by (simp_all add: b_def utf8_bytes_def n utf8_offset_def)
  from assms b(2) have lead: "0xC2 \<le> unat b" "unat b \<le> 0xF4" "unat b \<le> 0xDF" by simp_all
  from b(2) assms have "unat b mod 32 = c div 64" using mod_window [of 6 32 "unat b"] by simp
  with lead(3) show ?thesis
    unfolding b(1) append_Cons
    by (intro utf8_decode_sequence [OF lead(1,2) utf8_lead_cases [OF lead(1,2)]]) simp_all
qed

lemma utf8_decode_three:
  assumes "0x800 \<le> c" and "c < 0x10000" and "scalar c"
  shows "utf8_decode utf8_init (utf8_bytes c @ bs) = c # utf8_decode utf8_init bs"
proof -
  define y where "y = c div 64"
  from assms have n: "utf8_count c = 2" by (simp add: utf8_count_def)
  have k: "c div 4096 = y div 64" by (simp add: y_def div_mult2_eq)
  from assms have y: "32 \<le> y" "y < 1024" "y < 864 \<or> 896 \<le> y"
    by (auto simp: y_def scalar_def)
  define b where "b = utf8_first c"
  from assms have b: "utf8_bytes c = b # utf8_tail 2 c" "unat b = y div 64 + 0xE0"
    using unat_utf8_first [of c] by (simp_all add: b_def utf8_bytes_def n utf8_offset_def k)
  from y b(2) have lead: "0xC2 \<le> unat b" "unat b \<le> 0xF4" "\<not> unat b \<le> 0xDF" "unat b \<le> 0xEF"
    by simp_all
  from b(2) y have "unat b mod 16 = y div 64" using mod_window [of 14 16 "unat b"] by simp
  moreover from y have "unat b = 0xE0 \<Longrightarrow> 32 \<le> y mod 64" "unat b = 0xED \<Longrightarrow> y mod 64 < 32"
    unfolding b(2) using div_window [of 64 y] mod_window [of "y div 64" 64 y] by auto
  ultimately show ?thesis
    unfolding b(1) append_Cons using lead(3,4)
    by (intro utf8_decode_sequence [OF lead(1,2) utf8_lead_cases [OF lead(1,2)]])
      (auto simp: k y_def [symmetric])
qed

lemma utf8_decode_four:
  assumes "0x10000 \<le> c" and "c < 0x110000"
  shows "utf8_decode utf8_init (utf8_bytes c @ bs) = c # utf8_decode utf8_init bs"
proof -
  define z where "z = c div 4096"
  from assms have n: "utf8_count c = 3" by (simp add: utf8_count_def)
  have k: "c div 262144 = z div 64" by (simp add: z_def div_mult2_eq)
  from assms have z: "16 \<le> z" "z < 272" by (auto simp: z_def)
  define b where "b = utf8_first c"
  from assms have b: "utf8_bytes c = b # utf8_tail 3 c" "unat b = z div 64 + 0xF0"
    using unat_utf8_first [of c] by (simp_all add: b_def utf8_bytes_def n utf8_offset_def k)
  from z b(2) have lead: "0xC2 \<le> unat b" "unat b \<le> 0xF4" "\<not> unat b \<le> 0xDF" "\<not> unat b \<le> 0xEF"
    by simp_all
  from b(2) z have "unat b mod 8 = z div 64" using mod_window [of 30 8 "unat b"] by simp
  moreover from z have "unat b = 0xF0 \<Longrightarrow> 16 \<le> z mod 64" "unat b = 0xF4 \<Longrightarrow> z mod 64 < 16"
    unfolding b(2) using div_window [of 64 z] mod_window [of "z div 64" 64 z] by auto
  ultimately show ?thesis
    unfolding b(1) append_Cons using lead(3,4)
    by (intro utf8_decode_sequence [OF lead(1,2) utf8_lead_cases [OF lead(1,2)]])
      (auto simp: k z_def [symmetric])
qed

text \<open>The bytes of a scalar value in front of any bytes are decoded to that value.\<close>

lemma utf8_decode_bytes:
  assumes "scalar c"
  shows "utf8_decode utf8_init (utf8_bytes c @ bs) = c # utf8_decode utf8_init bs"
proof -
  consider "c < 0x80" | "0x80 \<le> c" "c < 0x800" | "0x800 \<le> c" "c < 0x10000"
    | "0x10000 \<le> c" "c < 0x110000"
    using assms unfolding scalar_def by linarith
  then show ?thesis
  proof cases
    case 1
    then have "unat (of_nat c :: byte) = c" by (simp add: unat_of_nat_byte)
    with 1 show ?thesis
      by (simp add: utf8_bytes_def utf8_handler_def utf8_init_def word_le_nat_alt)
  qed (simp_all add: utf8_decode_two utf8_decode_three utf8_decode_four assms)
qed

lemma utf8_encode_simps [simp]:
  "utf8_encode [] = []"
  "utf8_encode (c # cs) = utf8_bytes c @ utf8_encode cs"
  by (simp_all add: utf8_encode_def)

lemma utf8_encode_append [simp]: "utf8_encode (cs @ ds) = utf8_encode cs @ utf8_encode ds"
  by (simp add: utf8_encode_def)

lemma utf8_decode_encode:
  "list_all scalar cs \<Longrightarrow> utf8_decode utf8_init (utf8_encode cs @ bs) = cs @ utf8_decode utf8_init bs"
  by (induction cs) (simp_all add: utf8_decode_bytes)

section \<open>The byte order mark\<close>

text \<open>
  The encoder never emits a byte above 0xF4, so its output never starts with a UTF-16
  byte order mark; it starts with the UTF-8 one exactly if the first code point is
  U+FEFF.
\<close>

definition BOM :: code_point where
  "BOM = 0xFEFF"

definition strip_bom :: "code_point list \<Rightarrow> code_point list" where
  "strip_bom cs = (case cs of [] \<Rightarrow> [] | c # cs' \<Rightarrow> if c = BOM then cs' else cs)"

lemma utf8_tail_two:
  "utf8_tail 2 c = [of_nat (0x80 OR (drop_bit 6 c AND 0x3F)), of_nat (0x80 OR (c AND 0x3F))]"
  by (simp add: numeral_2_eq_2)

lemma utf8_bytes_BOM: "utf8_bytes BOM = [0xEF, 0xBB, 0xBF]"
  by (simp add: utf8_bytes_def utf8_first_def utf8_count_def utf8_offset_def BOM_def utf8_tail_two
      drop_bit_eq_div and_low_bits or_continuation)

lemma scalar_BOM [simp]: "scalar BOM"
  by (simp add: scalar_def BOM_def)

lemma utf8_bytes_first:
  assumes "scalar c"
  obtains b bs where "utf8_bytes c = b # bs" and "unat b \<le> 0xF4"
proof (cases "c < 0x80")
  case True
  then have "unat (of_nat c :: byte) = c" by (simp add: unat_of_nat_byte)
  with True that [of "of_nat c" "[]"] show thesis by (simp add: utf8_bytes_def)
next
  case False
  with assms have c: "0x80 \<le> c" "c < 0x110000" by (auto simp: scalar_def)
  then have "unat (utf8_first c) \<le> 0xF4"
    unfolding unat_utf8_first [OF c] by (auto simp: utf8_count_def utf8_offset_def)
  with False that [of "utf8_first c"] show thesis by (simp add: utf8_bytes_def)
qed

lemma take_three_BOM:
  assumes "scalar c" and "take 3 (utf8_bytes c @ bs) = [0xEF, 0xBB, 0xBF]"
  shows "c = BOM"
proof -
  let ?xs = "utf8_bytes c @ bs"
  from assms(2) have "?xs = utf8_bytes BOM @ drop 3 ?xs"
    unfolding utf8_bytes_BOM by (metis append_take_drop_id)
  then have "utf8_decode utf8_init ?xs = BOM # utf8_decode utf8_init (drop 3 ?xs)"
    by (metis utf8_decode_bytes scalar_BOM)
  with assms(1) show ?thesis by (simp add: utf8_decode_bytes)
qed

lemma bom_sniff_utf8_encode:
  assumes "list_all scalar cs"
  shows "bom_sniff (utf8_encode cs) = (if cs \<noteq> [] \<and> hd cs = BOM then Some UTF8 else None)"
proof (cases cs)
  case Nil
  then show ?thesis by (simp add: bom_sniff_def)
next
  case (Cons c cs')
  with assms have c: "scalar c" by simp
  then obtain b bs where b: "utf8_bytes c = b # bs" "unat b \<le> 0xF4" by (rule utf8_bytes_first)
  then have "b \<noteq> 0xFE" "b \<noteq> 0xFF" by auto
  with b(1) have "take 2 (utf8_encode cs) \<noteq> [0xFE, 0xFF]" "take 2 (utf8_encode cs) \<noteq> [0xFF, 0xFE]"
    by (simp_all add: Cons)
  moreover have "take 3 (utf8_encode cs) = [0xEF, 0xBB, 0xBF] \<longleftrightarrow> c = BOM"
    using take_three_BOM [OF c, of "utf8_encode cs'"] by (auto simp: Cons utf8_bytes_BOM)
  ultimately show ?thesis by (simp add: bom_sniff_def Cons)
qed

lemma utf8_decode_encode_all: "list_all scalar cs \<Longrightarrow> utf8_decode utf8_init (utf8_encode cs) = cs"
  using utf8_decode_encode [of cs "[]"] by (simp add: utf8_end_def utf8_init_def)

lemma decode_utf8_encode:
  assumes "list_all scalar cs"
  shows "decode UTF8 (utf8_encode cs) = strip_bom cs"
proof (cases "cs \<noteq> [] \<and> hd cs = BOM")
  case True
  then obtain cs' where cs: "cs = BOM # cs'" by (cases cs) auto
  with assms have "utf8_decode utf8_init (utf8_encode cs') = cs'"
    by (simp add: utf8_decode_encode_all)
  then show ?thesis
    by (simp add: decode_def bom_sniff_def strip_bom_def cs utf8_bytes_BOM)
next
  case False
  with assms have "bom_sniff (utf8_encode cs) = None" by (simp add: bom_sniff_utf8_encode)
  moreover from False have "strip_bom cs = cs" by (cases cs) (simp_all add: strip_bom_def)
  ultimately show ?thesis using assms by (simp add: decode_def utf8_decode_encode_all)
qed

section \<open>Examples\<close>

lemma utf8_tail_three:
  "utf8_tail 3 c =
     [of_nat (0x80 OR (drop_bit 12 c AND 0x3F)), of_nat (0x80 OR (drop_bit 6 c AND 0x3F)),
      of_nat (0x80 OR (c AND 0x3F))]"
  by (simp add: numeral_3_eq_3)

lemmas encode_defs = utf8_bytes_def utf8_first_def utf8_count_def utf8_offset_def utf8_tail_two
  utf8_tail_three drop_bit_eq_div and_low_bits or_continuation

lemma utf8_encode_hello: "utf8_encode [0x68, 0x65, 0x6C, 0x6C, 0x6F] = hello_bytes"
  by (simp add: encode_defs hello_bytes_def)

lemma utf8_encode_hangul: "utf8_encode [0xD55C] = hangul_bytes"
  by (simp add: encode_defs hangul_bytes_def)

lemma utf8_encode_astral: "utf8_encode [0x1F600] = [0xF0, 0x9F, 0x98, 0x80]"
  by (simp add: encode_defs)

section \<open>What the encoder promises\<close>

text \<open>
  C22 (roundtrip). A file that is well-formed UTF-8, that is the encoding of scalar
  values, is read as exactly these values: the decoder gives them back, and the text of
  the load is their string, without a byte order mark at the start.
\<close>

theorem utf8_round_trip:
  assumes "list_all scalar cs"
  shows "utf8_decode utf8_init (utf8_encode cs) = cs \<and>
    text_of_bytes (utf8_encode cs) = string_of (strip_bom cs)"
  using assms by (simp add: utf8_decode_encode_all text_of_bytes_def decode_utf8_encode)

theorem utf8_round_trip_witness:
  "list_all scalar [0xD55C, 0x1F600] \<and>
   utf8_encode [0xD55C, 0x1F600] = [0xED, 0x95, 0x9C, 0xF0, 0x9F, 0x98, 0x80] \<and>
   utf8_decode utf8_init [0xED, 0x95, 0x9C, 0xF0, 0x9F, 0x98, 0x80] = [0xD55C, 0x1F600] \<and>
   text_of_bytes [0xED, 0x95, 0x9C, 0xF0, 0x9F, 0x98, 0x80] = [0xD55C, 0xD83D, 0xDE00]"
proof -
  have s: "list_all scalar [0xD55C, 0x1F600]" by (simp add: scalar_def)
  have t: "utf8_tail 2 c = utf8_tail (Suc (Suc 0)) c" "utf8_tail 3 c = utf8_tail (Suc (Suc (Suc 0))) c"
    for c by (simp_all only: numeral_2_eq_2 numeral_3_eq_3)
  have e: "utf8_encode [0xD55C, 0x1F600] = [0xED, 0x95, 0x9C, 0xF0, 0x9F, 0x98, 0x80]"
    by (simp add: utf8_bytes_def utf8_first_def utf8_count_def utf8_offset_def drop_bit_eq_div
        and_low_bits or_continuation t)
  from utf8_round_trip [OF s] s e show ?thesis
    by (simp add: strip_bom_def BOM_def units_of_def drop_bit_eq_div and_low_bits)
qed

end
