(* ===== verification/Cwrap.thy ===== *)
theory Cwrap
  imports Files Encode
begin

text \<open>
  The wrapper of line 27, \<^verbatim>\<open>Module.cwrap("process_text", "string", ["string"])\<close>.
  The two type names make the wrapper convert: the text is written to the memory of
  the module as UTF-8 bytes with a zero byte after them (\<^verbatim>\<open>stringToUTF8\<close>), the
  compiled function receives a pointer to them, and the bytes at the pointer that it
  returns are read up to the first zero byte and decoded (\<^verbatim>\<open>UTF8ToString\<close>); a
  null pointer is read as the empty string. This is the calling contract of section 6 of the specification: the engine accepts a
  UTF-8 string and returns one. The compiled function is a parameter, as the engine is
  in \<open>Engine\<close>; \<open>wrapped\<close> makes an engine of it. The lemmas relate what the
  compiled function receives to the bytes of the file.
\<close>

section \<open>C strings and the conversions\<close>

text \<open>
  A compiled function maps the bytes of its argument, and those of its earlier
  arguments, to a pointer, or throws. The pointer is null (\<open>None\<close>) or has bytes
  at it.
\<close>

type_synonym c_engine = "byte list list \<Rightarrow> byte list \<Rightarrow> byte list option completion"

text \<open>What C reads of bytes that are followed by a zero byte: those before the first zero.\<close>

definition c_string :: "byte list \<Rightarrow> byte list" where
  "c_string bs = takeWhile (\<lambda>b. b \<noteq> 0) bs"

text \<open>
  The bytes that the wrapper writes for a text, and the text that it makes of a
  pointer. A surrogate without a partner is written like any code point of three bytes;
  by \<open>loaded_text_well_formed\<close> the text of a load has none.
\<close>

definition stringToUTF8 :: "jsstring \<Rightarrow> byte list" where
  "stringToUTF8 t = utf8_encode (points_of t)"

definition UTF8ToString :: "byte list option \<Rightarrow> jsstring" where
  "UTF8ToString p =
     (case p of None \<Rightarrow> [] | Some bs \<Rightarrow> string_of (utf8_decode utf8_init (c_string bs)))"

text \<open>The argument that the compiled function reads when the wrapper is called with a text.\<close>

definition argument :: "jsstring \<Rightarrow> byte list" where
  "argument t = c_string (stringToUTF8 t)"

definition wrapped :: "c_engine \<Rightarrow> engine" where
  "wrapped f hist t =
     (case f (map argument hist) (argument t) of
        Throws \<Rightarrow> Throws
      | Returns r \<Rightarrow> Returns (UTF8ToString r))"

text \<open>The arguments that the compiled function has received, oldest first.\<close>

definition c_calls :: "page \<Rightarrow> byte list list" where
  "c_calls s = map argument (calls s)"

section \<open>Files that are well-formed UTF-8\<close>

text \<open>
  A file is well-formed UTF-8 when decoding loses nothing: encoding the decoded code
  points gives the bytes back. The file without its byte order mark is what the
  decoder runs on.
\<close>

definition valid_utf8 :: "byte list \<Rightarrow> bool" where
  "valid_utf8 bs \<longleftrightarrow> utf8_encode (utf8_decode utf8_init bs) = bs"

definition drop_bom :: "byte list \<Rightarrow> byte list" where
  "drop_bom bs = (if take 3 bs = [0xEF, 0xBB, 0xBF] then drop 3 bs else bs)"

lemma valid_utf8_encode: "list_all scalar cs \<Longrightarrow> valid_utf8 (utf8_encode cs)"
  by (simp add: valid_utf8_def utf8_decode_encode_all)

lemma valid_utf8_cases:
  assumes "valid_utf8 bs"
  obtains cs where "list_all scalar cs" and "bs = utf8_encode cs"
  using assms utf8_decode_scalar [of utf8_init bs] by (auto simp: valid_utf8_def)

lemma drop_bom_utf8_encode:
  assumes "list_all scalar cs"
  shows "drop_bom (utf8_encode cs) = utf8_encode (strip_bom cs)"
proof (cases "cs \<noteq> [] \<and> hd cs = BOM")
  case True
  then obtain cs' where "cs = BOM # cs'" by (cases cs) auto
  then show ?thesis by (simp add: drop_bom_def strip_bom_def utf8_bytes_BOM)
next
  case False
  with assms have "bom_sniff (utf8_encode cs) = None" by (simp add: bom_sniff_utf8_encode)
  then have "take 3 (utf8_encode cs) \<noteq> [0xEF, 0xBB, 0xBF]"
    by (auto simp: bom_sniff_def split: if_splits)
  moreover from False have "strip_bom cs = cs" by (cases cs) (simp_all add: strip_bom_def)
  ultimately show ?thesis by (simp add: drop_bom_def)
qed

lemma list_all_strip_bom: "list_all scalar cs \<Longrightarrow> list_all scalar (strip_bom cs)"
  by (cases cs) (simp_all add: strip_bom_def)

text \<open>The text of a well-formed file, written back as bytes, is the file without its mark.\<close>

lemma stringToUTF8_text_of_bytes:
  assumes "valid_utf8 bs"
  shows "stringToUTF8 (text_of_bytes bs) = drop_bom bs"
proof -
  from assms obtain cs where cs: "list_all scalar cs" "bs = utf8_encode cs"
    by (rule valid_utf8_cases)
  then have "stringToUTF8 (text_of_bytes bs) = utf8_encode (strip_bom cs)"
    by (simp add: stringToUTF8_def text_of_bytes_def decode_utf8_encode points_of_string_of
        list_all_strip_bom)
  with cs show ?thesis by (simp add: drop_bom_utf8_encode)
qed

section \<open>The zero byte\<close>

text \<open>
  The only code point whose bytes contain a zero is U+0000, so the compiled function
  reads the bytes of the code points before the first U+0000 of the text.
\<close>

lemma utf8_tail_nonzero: "0 \<notin> set (utf8_tail n c)"
proof (induction n)
  case 0
  then show ?case by simp
next
  case (Suc n)
  have "unat (of_nat (0x80 OR (drop_bit (6 * n) c AND 0x3F)) :: byte) \<noteq> 0"
    unfolding unat_tail_byte by simp
  with Suc show ?case by (auto simp del: of_nat_add)
qed

lemma utf8_bytes_nonzero:
  assumes "scalar c" and "c \<noteq> 0"
  shows "0 \<notin> set (utf8_bytes c)"
proof (cases "c < 0x80")
  case True
  then have "unat (of_nat c :: byte) = c" by (simp add: unat_of_nat_byte)
  with assms(2) True show ?thesis by (auto simp: utf8_bytes_def)
next
  case False
  with assms have c: "0x80 \<le> c" "c < 0x110000" by (auto simp: scalar_def)
  then have "unat (utf8_first c) \<noteq> 0"
    unfolding unat_utf8_first [OF c] by (simp add: utf8_count_def utf8_offset_def)
  with False show ?thesis by (auto simp: utf8_bytes_def utf8_tail_nonzero)
qed

lemma utf8_bytes_zero: "utf8_bytes 0 = [0]"
  by (simp add: utf8_bytes_def)

lemma utf8_encode_nonzero:
  "list_all scalar cs \<Longrightarrow> 0 \<notin> set cs \<Longrightarrow> 0 \<notin> set (utf8_encode cs)"
  by (induction cs) (auto dest: utf8_bytes_nonzero)

lemma c_string_nonzero:
  "0 \<notin> set bs \<Longrightarrow> c_string (bs @ 0 # bs') = bs"
  "0 \<notin> set bs \<Longrightarrow> c_string bs = bs"
  by (induction bs) (auto simp: c_string_def)

lemma argument_string_of: "list_all scalar cs \<Longrightarrow> argument (string_of cs) = c_string (utf8_encode cs)"
  by (simp add: argument_def stringToUTF8_def points_of_string_of)

lemma argument_cut:
  assumes "list_all scalar cs" and "list_all scalar ds" and "0 \<notin> set cs"
  shows "argument (string_of (cs @ 0 # ds)) = utf8_encode cs"
proof -
  from assms(1,2) have "list_all scalar (cs @ 0 # ds)" by (simp add: scalar_def)
  then have "argument (string_of (cs @ 0 # ds)) = c_string (utf8_encode cs @ 0 # utf8_encode ds)"
    using argument_string_of [of "cs @ 0 # ds"] by (simp add: utf8_bytes_zero)
  with assms(1,3) show ?thesis by (simp add: c_string_nonzero utf8_encode_nonzero)
qed

text \<open>The answer of the compiled function, when it is well-formed UTF-8 without a zero.\<close>

lemma UTF8ToString_encode:
  "list_all scalar rs \<Longrightarrow> 0 \<notin> set rs \<Longrightarrow> UTF8ToString (Some (utf8_encode rs)) = string_of rs"
  by (simp add: UTF8ToString_def c_string_nonzero utf8_encode_nonzero utf8_decode_encode_all)

section \<open>The size of the argument\<close>

text \<open>
  The wrapper writes at least one byte and at most three for each code unit of the
  text: the number that line 58 reports as bytes is a lower bound of the bytes written,
  and a buffer of three bytes for each code unit and one for the zero is enough.
\<close>

lemma length_utf8_tail [simp]: "length (utf8_tail n c) = n"
  by (induction n) simp_all

lemma length_utf8_bytes: "length (utf8_bytes c) = Suc (utf8_count c)"
  by (simp add: utf8_bytes_def utf8_count_def)

lemma utf8_count_unit: "utf8_count (unat (u :: code_unit)) \<le> 2"
  using unat_unit_less [of u] by (simp add: utf8_count_def)

lemma utf8_count_pair_point:
  "is_lead_surrogate h \<Longrightarrow> is_trail_surrogate l \<Longrightarrow> utf8_count (pair_point h l) = 3"
  using pair_point_bounds [of h l] by (simp add: utf8_count_def)

lemma length_stringToUTF8:
  "length t \<le> length (stringToUTF8 t) \<and> length (stringToUTF8 t) \<le> 3 * length t"
proof (induction t rule: points_of.induct)
  case 1
  then show ?case by (simp add: stringToUTF8_def)
next
  case (2 u)
  then show ?case using utf8_count_unit [of u] by (simp add: stringToUTF8_def length_utf8_bytes)
next
  case (3 u v us)
  then show ?case using utf8_count_unit [of u]
    by (auto simp: stringToUTF8_def length_utf8_bytes utf8_count_pair_point)
qed

section \<open>The wrapper on the page\<close>

text \<open>
  Every file that a reader was started on is well-formed UTF-8, or cannot be read.
\<close>

definition utf8_files :: "disk \<Rightarrow> page \<Rightarrow> bool" where
  "utf8_files d s \<longleftrightarrow>
     list_all (\<lambda>f. case f of
                 None \<Rightarrow> True
               | Some f \<Rightarrow> (case d (file_blob f) of None \<Rightarrow> True | Some bs \<Rightarrow> valid_utf8 bs))
       (read_files s)"

lemma utf8_filesD:
  "utf8_files d s \<Longrightarrow> Some f \<in> set (read_files s) \<Longrightarrow> d (file_blob f) = Some bs \<Longrightarrow> valid_utf8 bs"
  by (auto simp: utf8_files_def list_all_iff split: option.splits)

lemma argument_text_of_bytes: "valid_utf8 bs \<Longrightarrow> argument (text_of_bytes bs) = c_string (drop_bom bs)"
  by (simp add: argument_def stringToUTF8_text_of_bytes)

lemma wrapped_returns:
  "f (map argument hist) (argument t) = Returns r \<Longrightarrow> wrapped f hist t = Returns (UTF8ToString r)"
  by (simp add: wrapped_def)

lemma wrapped_throws: "f (map argument hist) (argument t) = Throws \<Longrightarrow> wrapped f hist t = Throws"
  by (simp add: wrapped_def)

section \<open>Fixtures\<close>

text \<open>
  A compiled function that maps the letters a to z to capitals, byte by byte, and a file
  that holds \<^verbatim>\<open>hi\<close>, a zero byte and \<^verbatim>\<open>yo\<close>.
\<close>

definition c_upper :: c_engine where
  "c_upper = (\<lambda>_ bs. Returns (Some (map (\<lambda>b. if 0x61 \<le> b \<and> b \<le> 0x7A then b - 0x20 else b) bs)))"

definition zero_bytes :: "byte list" where
  "zero_bytes = [0x68, 0x69, 0x00, 0x79, 0x6F]"

lemmas c_defs = argument_def stringToUTF8_def UTF8ToString_def c_string_def wrapped_def c_upper_def
  is_lead_surrogate_def is_trail_surrogate_def encode_defs units_of_def

lemma argument_hello: "argument (ascii ''hello'') = hello_bytes"
  by (simp add: c_defs ascii_def hello_bytes_def)

lemma wrapped_c_upper_hello: "wrapped c_upper [] (ascii ''hello'') = Returns (ascii ''HELLO'')"
  by (simp add: c_defs ascii_def decode_defs utf8_end_def utf8_init_def)

lemma valid_utf8_hello: "valid_utf8 hello_bytes"
  using valid_utf8_encode [of "[0x68, 0x65, 0x6C, 0x6C, 0x6F]"]
  unfolding utf8_encode_hello by (simp add: scalar_def)

lemma utf8_files_hello_page: "utf8_files hello_disk hello_page"
  by (simp add: utf8_files_def read_files_def hello_page_def hello_disk_def hello_txt_def
      valid_utf8_hello)

lemma c_calls_hello_page: "c_calls hello_page = [hello_bytes]"
  by (simp add: c_calls_def hello_page_def argument_hello)

section \<open>What the wrapper promises\<close>

text \<open>
  C20 (refinement). When every read ends the way the disk says and the files are
  well-formed UTF-8, the compiled function receives the bytes of a file that a click
  started a reader on, without the byte order mark and up to the first zero byte: the
  decoding of the browser and the encoding of the wrapper cancel.
\<close>

theorem engine_receives_file_bytes:
  assumes "initial s0" and "honest_run d s0 es" and "run s0 es = Some s" and "utf8_files d s"
  shows "\<forall>a \<in> set (c_calls s). \<exists>f bs. Some f \<in> set (read_files s) \<and>
    d (file_blob f) = Some bs \<and> a = c_string (drop_bom bs)"
proof
  fix a
  assume "a \<in> set (c_calls s)"
  then obtain t where t: "t \<in> set (calls s)" "a = argument t" by (auto simp: c_calls_def)
  from honest_calls_from_disk [OF assms(1-3)] t(1)
  obtain f bs where f: "Some f \<in> set (read_files s)" "d (file_blob f) = Some bs"
    "t = text_of_bytes bs"
    by (auto simp: calls_from_disk_def from_disk_iff list_all_iff)
  from assms(4) f(1,2) have "valid_utf8 bs" by (rule utf8_filesD)
  with t(2) f show "\<exists>f bs. Some f \<in> set (read_files s) \<and> d (file_blob f) = Some bs \<and>
    a = c_string (drop_bom bs)"
    by (auto simp: argument_text_of_bytes)
qed

theorem engine_receives_file_bytes_witness:
  "initial (page_load upper_engine) \<and> honest_run hello_disk (page_load upper_engine) hello_run \<and>
   run (page_load upper_engine) hello_run = Some hello_page \<and> utf8_files hello_disk hello_page \<and>
   c_calls hello_page = [hello_bytes] \<and>
   (\<exists>f bs. Some f \<in> set (read_files hello_page) \<and> hello_disk (file_blob f) = Some bs \<and>
      hello_bytes = c_string (drop_bom bs))"
proof -
  have "hello_bytes \<in> set (c_calls hello_page)" by (simp add: c_calls_hello_page)
  with engine_receives_file_bytes [OF initial_page_load honest_hello_run run_hello_run
      utf8_files_hello_page]
  have "\<exists>f bs. Some f \<in> set (read_files hello_page) \<and> hello_disk (file_blob f) = Some bs \<and>
      hello_bytes = c_string (drop_bom bs)"
    by blast
  with honest_hello_run run_hello_run utf8_files_hello_page c_calls_hello_page show ?thesis
    by simp
qed

text \<open>
  C39 (bounds). The number that line 58 reports as bytes is the number of code units of
  the text. It is at most the size of the file and at most the number of bytes that
  the wrapper writes for the text, which is at most three times as large; the compiled
  function reads no more than the wrapper wrote.
\<close>

theorem wrapper_writes_bounded:
  "length (text_of_bytes bs) \<le> length bs \<and>
   length (text_of_bytes bs) \<le> length (stringToUTF8 (text_of_bytes bs)) \<and>
   length (stringToUTF8 (text_of_bytes bs)) \<le> 3 * length (text_of_bytes bs) \<and>
   length (argument (text_of_bytes bs)) \<le> length (stringToUTF8 (text_of_bytes bs))"
  using length_stringToUTF8 [of "text_of_bytes bs"] length_decode [of UTF8 bs]
  by (simp add: text_of_bytes_def argument_def c_string_def length_takeWhile_le)

theorem wrapper_writes_bounded_witness:
  "length (text_of_bytes hangul_bytes) = 1 \<and> length hangul_bytes = 3 \<and>
   length (stringToUTF8 (text_of_bytes hangul_bytes)) = 3 \<and>
   length (argument (text_of_bytes hangul_bytes)) = 3"
  using wrapper_writes_bounded [of hangul_bytes]
  by (simp add: text_of_hangul c_defs)

text \<open>
  C24 (error). A text with the code point U+0000 in it reaches the compiled function
  only up to that code point: the log reports the length of the whole text, the result
  area shows the answer for the part before the zero, and nothing tells the user.
\<close>

theorem zero_cuts_the_argument:
  assumes "list_all scalar cs" and "list_all scalar ds" and "0 \<notin> set cs"
    and "processText s = Some (wrapped f)" and "f (c_calls s) (utf8_encode cs) = Returns r"
  shows "reader_onload (string_of (cs @ 0 # ds)) s =
    s\<lparr>logArea := file_read_line (length (string_of cs) + 1 + length (string_of ds)) @ analysis_done,
      resultDiv := UTF8ToString r, calls := calls s @ [string_of (cs @ 0 # ds)]\<rparr>"
proof -
  let ?t = "string_of (cs @ 0 # ds)"
  from assms(1-3) have "argument ?t = utf8_encode cs" by (rule argument_cut)
  with assms(5) have "wrapped f (calls s) ?t = Returns (UTF8ToString r)"
    by (simp add: wrapped_returns c_calls_def)
  with assms(4) have "reader_onload ?t s =
    s\<lparr>logArea := file_read_line (length ?t) @ analysis_done, resultDiv := UTF8ToString r,
      calls := calls s @ [?t]\<rparr>"
    by (rule reader_onload_returns)
  moreover have "length ?t = length (string_of cs) + 1 + length (string_of ds)"
    by (simp add: units_of_def)
  ultimately show ?thesis by (simp only:)
qed

theorem zero_cuts_the_argument_witness:
  "text_of_bytes zero_bytes = string_of ([0x68, 0x69] @ 0 # [0x79, 0x6F]) \<and>
   argument (text_of_bytes zero_bytes) = [0x68, 0x69] \<and>
   reader_onload (text_of_bytes zero_bytes) (ready_page (wrapped c_upper)) =
     (ready_page (wrapped c_upper))\<lparr>logArea := file_read_line 5 @ analysis_done,
        resultDiv := ascii ''HI'', calls := [text_of_bytes zero_bytes]\<rparr>"
proof -
  have t: "text_of_bytes zero_bytes = string_of ([0x68, 0x69] @ 0 # [0x79, 0x6F])"
    by (simp add: zero_bytes_def decode_defs units_of_def utf8_end_def utf8_init_def)
  have "list_all scalar [0x68, 0x69]" "list_all scalar [0x79, 0x6F]" "0 \<notin> set [0x68, 0x69 :: nat]"
    by (simp_all add: scalar_def)
  moreover have "processText (ready_page (wrapped c_upper)) = Some (wrapped c_upper)"
    by (simp add: ready_page_def cwrap_def page_load_def)
  moreover have "c_upper (c_calls (ready_page (wrapped c_upper))) (utf8_encode [0x68, 0x69]) =
      Returns (Some [0x48, 0x49])"
    by (simp add: c_upper_def encode_defs)
  ultimately have "reader_onload (string_of ([0x68, 0x69] @ 0 # [0x79, 0x6F])) (ready_page (wrapped c_upper)) =
    (ready_page (wrapped c_upper))\<lparr>logArea :=
        file_read_line (length (string_of [0x68, 0x69]) + 1 + length (string_of [0x79, 0x6F])) @ analysis_done,
      resultDiv := UTF8ToString (Some [0x48, 0x49]),
      calls := calls (ready_page (wrapped c_upper)) @ [string_of ([0x68, 0x69] @ 0 # [0x79, 0x6F])]\<rparr>"
    by (rule zero_cuts_the_argument)
  moreover have "UTF8ToString (Some [0x48, 0x49]) = ascii ''HI''"
    by (simp add: c_defs decode_defs ascii_def utf8_end_def utf8_init_def)
  moreover have "calls (ready_page (wrapped c_upper)) = []"
    by (simp add: ready_page_def page_load_def)
  moreover have "argument (string_of ([0x68, 0x69] @ 0 # [0x79, 0x6F])) = [0x68, 0x69]"
    by (simp add: c_defs)
  ultimately show ?thesis unfolding t by (simp add: units_of_def)
qed

end
