(* ===== verification/Script.thy ===== *)
theory Script
  imports EventLoop
begin

text \<open>
  The run of the script itself, without the assumption that the document has the five
  elements and the module that the script looks up. Lines 6-12 find the elements;
  \<^verbatim>\<open>getElementById\<close> yields \<^verbatim>\<open>null\<close> for a missing one and never throws.
  Lines 15, 26 and 37 install the three handlers; each of them reads a property of what
  was looked up, and an exception there ends the script, so that the handlers after it
  are never installed. A handler that is installed throws when it writes to a surface
  that is missing. The theory gives the script and the handlers on an arbitrary
  document, shows that on a complete document they are the handlers of \<open>Handlers\<close>
  and the events of \<open>EventLoop\<close>, and what an incomplete document leads to.
\<close>

section \<open>Documents\<close>

text \<open>
  What the script needs of the document: the elements with the ids \<^verbatim>\<open>fileInput\<close>,
  \<^verbatim>\<open>analyzeBtn\<close>, \<^verbatim>\<open>log\<close>, \<^verbatim>\<open>result\<close> and \<^verbatim>\<open>fileName\<close> (lines 6-12),
  and the global \<^verbatim>\<open>Module\<close> (line 26).
\<close>

record document =
  has_fileInput :: bool
  has_analyzeBtn :: bool
  has_log :: bool
  has_result :: bool
  has_fileName :: bool
  has_Module :: bool

definition complete :: "document \<Rightarrow> bool" where
  "complete doc \<longleftrightarrow>
     has_fileInput doc \<and> has_analyzeBtn doc \<and> has_log doc \<and> has_result doc \<and>
     has_fileName doc \<and> has_Module doc"

section \<open>The script\<close>

datatype handler = ChangeHandler | RuntimeHandler | ClickHandler

text \<open>
  Lines 1-74 at the top level: the handlers that the script installs, in order, and the
  exception that ends it, if any. Line 15 calls \<^verbatim>\<open>fileInput.addEventListener\<close>,
  line 26 assigns to a property of \<^verbatim>\<open>Module\<close>, line 37 calls
  \<^verbatim>\<open>analyzeBtn.addEventListener\<close>.
\<close>

definition script :: "document \<Rightarrow> handler list \<times> js_error option" where
  "script doc =
     (if \<not> has_fileInput doc then ([], Some TypeError)
      else if \<not> has_Module doc then ([ChangeHandler], Some ReferenceError)
      else if \<not> has_analyzeBtn doc then ([ChangeHandler, RuntimeHandler], Some TypeError)
      else ([ChangeHandler, RuntimeHandler, ClickHandler], None))"

definition installed :: "document \<Rightarrow> handler \<Rightarrow> bool" where
  "installed doc h \<longleftrightarrow> h \<in> set (fst (script doc))"

section \<open>The handlers on a document\<close>

text \<open>Lines 15-21: both branches write to the file-name span.\<close>

definition on_change_in :: "document \<Rightarrow> 'a dom_scheme \<Rightarrow> 'a dom_scheme" where
  "on_change_in doc s = (if \<not> has_fileName doc then throw TypeError s else on_change s)"

text \<open>Lines 26-32: the global is assigned before the log is written.\<close>

definition on_runtime_initialized_in :: "document \<Rightarrow> 'a wasm_scheme \<Rightarrow> 'a wasm_scheme" where
  "on_runtime_initialized_in doc s =
     (let s1 = set_processText (cwrap s) s
      in if \<not> has_log doc then throw TypeError s1 else log_write wasm_loaded s1)"

text \<open>
  Lines 52-67: the first statement that touches the document is the reset of the log
  (line 56); the result area is written after the engine has been called (line 64).
\<close>

definition reader_onload_in :: "document \<Rightarrow> jsstring \<Rightarrow> 'a wasm_scheme \<Rightarrow> 'a wasm_scheme" where
  "reader_onload_in doc t s =
     (if \<not> has_log doc then throw TypeError s
      else
        (let s1 = log_write [] s;
             s2 = log_append (file_read_line (length t)) s1
         in case processText s2 of
              None \<Rightarrow> throw TypeError s2
            | Some f \<Rightarrow>
                (case invoke f t s2 of
                   (Throws, s3) \<Rightarrow> throw EngineException s3
                 | (Returns result, s3) \<Rightarrow>
                     if \<not> has_result doc then throw TypeError s3
                     else log_append analysis_done (show_result result s3))))"

text \<open>Lines 69-71.\<close>

definition reader_onerror_in :: "document \<Rightarrow> 'a dom_scheme \<Rightarrow> 'a dom_scheme" where
  "reader_onerror_in doc s = (if \<not> has_log doc then throw TypeError s else log_write read_failed s)"

text \<open>
  Lines 37-74: the two guards write to the log; the start of the read touches no
  element.
\<close>

definition on_click_in :: "document \<Rightarrow> page \<Rightarrow> page" where
  "on_click_in doc s =
     (if \<not> has_fileInput doc then throw TypeError s
      else case fileInput_files s of
          None \<Rightarrow> throw TypeError s
        | Some fs \<Rightarrow>
            (case item fs 0 of
               None \<Rightarrow> if \<not> has_log doc then throw TypeError s else log_write select_file_first s
             | Some f \<Rightarrow>
                 if \<not> engine_ready s then
                   if \<not> has_log doc then throw TypeError s else log_write wasm_not_ready s
                 else let (r, s1) = new_FileReader s in readAsText r f s1))"

lemmas callback_defs = on_change_in_def on_runtime_initialized_in_def reader_onload_in_def
  reader_onerror_in_def

lemmas script_defs = callback_defs on_click_in_def

section \<open>The events on a document\<close>

text \<open>
  An event runs its handler if the script has installed it; otherwise only the browser's
  part happens. The user can only use a control that exists, and the engine only starts
  if the module exists.
\<close>

fun dispatch_in :: "document \<Rightarrow> event \<Rightarrow> page \<Rightarrow> page" where
  "dispatch_in doc RuntimeInitialized s =
     (if installed doc RuntimeHandler then on_runtime_initialized_in doc s else s)"
| "dispatch_in doc (Change fs) s =
     (if installed doc ChangeHandler then on_change_in doc (pick_files fs s) else pick_files fs s)"
| "dispatch_in doc Click s = (if installed doc ClickHandler then on_click_in doc s else s)"
| "dispatch_in doc (Load i t) s = reader_onload_in doc t (finish_read i s)"
| "dispatch_in doc (Error i) s = reader_onerror_in doc (finish_read i s)"

fun enabled_in :: "document \<Rightarrow> page \<Rightarrow> event \<Rightarrow> bool" where
  "enabled_in doc s RuntimeInitialized = has_Module doc"
| "enabled_in doc s (Change fs) = has_fileInput doc"
| "enabled_in doc s Click = has_analyzeBtn doc"
| "enabled_in doc s (Load i t) = loading s i"
| "enabled_in doc s (Error i) = loading s i"

definition fire_in :: "document \<Rightarrow> page \<Rightarrow> event \<Rightarrow> page option" where
  "fire_in doc s e = (if enabled_in doc s e then Some (dispatch_in doc e s) else None)"

fun run_in :: "document \<Rightarrow> page \<Rightarrow> event list \<Rightarrow> page option" where
  "run_in doc s [] = Some s"
| "run_in doc s (e # es) = (case fire_in doc s e of None \<Rightarrow> None | Some s' \<Rightarrow> run_in doc s' es)"

text \<open>The page after the script has run on a document: what it threw is left uncaught.\<close>

definition loaded :: "document \<Rightarrow> page \<Rightarrow> bool" where
  "loaded doc s \<longleftrightarrow>
     fileInput_files s \<noteq> None \<and> processText s = None \<and> calls s = [] \<and> readers s = [] \<and>
     uncaught s = (case snd (script doc) of None \<Rightarrow> [] | Some e \<Rightarrow> [e])"

section \<open>A complete document\<close>

lemma script_complete:
  "complete doc \<Longrightarrow> script doc = ([ChangeHandler, RuntimeHandler, ClickHandler], None)"
  by (simp add: script_def complete_def)

lemma installed_complete [simp]: "complete doc \<Longrightarrow> installed doc h"
  by (cases h) (simp_all add: installed_def script_complete)

lemma handlers_complete:
  assumes "complete doc"
  shows "on_change_in doc = on_change" and "on_runtime_initialized_in doc = on_runtime_initialized"
    and "reader_onload_in doc t = reader_onload t" and "reader_onerror_in doc = reader_onerror"
    and "on_click_in doc = on_click"
  using assms
  by (simp_all add: fun_eq_iff complete_def script_defs handler_defs Let_def
      split: option.splits prod.splits completion.splits)

lemma dispatch_complete: "complete doc \<Longrightarrow> dispatch_in doc e s = dispatch e s"
  by (cases e) (simp_all add: handlers_complete)

lemma enabled_complete: "complete doc \<Longrightarrow> enabled_in doc s e = enabled s e"
  by (cases e) (simp_all add: complete_def)

lemma run_complete: "complete doc \<Longrightarrow> run_in doc s es = run s es"
  by (induction es arbitrary: s) (simp_all add: fire_in_def fire_def dispatch_complete enabled_complete)

lemma loaded_complete: "complete doc \<Longrightarrow> loaded doc s = initial s"
  by (auto simp: loaded_def initial_def script_complete)

section \<open>A document without a log\<close>

text \<open>
  Every write to the log throws, and the load callback writes to the log before it calls
  the engine.
\<close>

lemma on_click_in_no_log:
  assumes "\<not> has_log doc"
  shows "calls (on_click_in doc s) = calls s" and "logArea (on_click_in doc s) = logArea s"
    and "resultDiv (on_click_in doc s) = resultDiv s"
  using assms
  by (simp_all add: on_click_in_def split_def readAsText_new_FileReader split: option.splits)

lemma fire_in_no_log:
  assumes "\<not> has_log doc" and "fire_in doc s e = Some s'"
  shows "calls s' = calls s \<and> logArea s' = logArea s \<and> resultDiv s' = resultDiv s"
  using assms
  by (cases e)
    (auto simp: fire_in_def callback_defs on_click_in_no_log Let_def set_processText_def
      split: if_splits)

section \<open>A script that was ended by an exception\<close>

text \<open>
  The click handler is installed last, so it is missing whenever the script threw: then
  no reader is ever created, and no read ever ends.
\<close>

lemma aborted_no_click: "snd (script doc) \<noteq> None \<Longrightarrow> \<not> installed doc ClickHandler"
  by (simp add: installed_def script_def split: if_splits)

lemma fire_in_aborted:
  assumes "snd (script doc) \<noteq> None" and "readers s = []" and "fire_in doc s e = Some s'"
  shows "readers s' = [] \<and> calls s' = calls s \<and> resultDiv s' = resultDiv s"
  using assms aborted_no_click [OF assms(1)]
  by (cases e)
    (auto simp: fire_in_def script_defs Let_def set_processText_def loading_iff split: if_splits)

lemma run_in_aborted:
  "snd (script doc) \<noteq> None \<Longrightarrow> readers s = [] \<Longrightarrow> run_in doc s es = Some s' \<Longrightarrow>
   readers s' = [] \<and> calls s' = calls s \<and> resultDiv s' = resultDiv s"
proof (induction es arbitrary: s)
  case Nil
  then show ?case by simp
next
  case (Cons e es)
  from Cons.prems(3) obtain u where u: "fire_in doc s e = Some u" and rest: "run_in doc u es = Some s'"
    by (auto split: option.splits)
  from fire_in_aborted [OF Cons.prems(1,2) u] have "readers u = []" and "calls u = calls s"
    and "resultDiv u = resultDiv s"
    by simp_all
  with Cons.IH [OF Cons.prems(1) _ rest] show ?case by simp
qed

section \<open>Documents for the examples\<close>

definition full_document :: document where
  "full_document = \<lparr>has_fileInput = True, has_analyzeBtn = True, has_log = True,
     has_result = True, has_fileName = True, has_Module = True\<rparr>"

definition no_log_document :: document where
  "no_log_document = full_document\<lparr>has_log := False\<rparr>"

definition no_module_document :: document where
  "no_module_document = full_document\<lparr>has_Module := False\<rparr>"

lemmas document_defs = full_document_def no_log_document_def no_module_document_def

lemma complete_full_document [simp]: "complete full_document"
  by (simp add: complete_def full_document_def)

lemmas run_in_defs = fire_in_def installed_def script_def script_defs document_defs eval_defs

section \<open>What the script promises\<close>

text \<open>
  C35 (error path). On a document without the log element the engine is never called and
  nothing is ever shown: every write to the log throws, and the load callback resets the
  log (line 56) before it calls the engine (line 61), so a read that ends well ends in
  an uncaught exception instead of an analysis.
\<close>

theorem missing_log_never_analyses:
  "\<not> has_log doc \<Longrightarrow> run_in doc s es = Some s' \<Longrightarrow>
   calls s' = calls s \<and> logArea s' = logArea s \<and> resultDiv s' = resultDiv s"
proof (induction es arbitrary: s)
  case Nil
  then show ?case by simp
next
  case (Cons e es)
  from Cons.prems(2) obtain u where u: "fire_in doc s e = Some u" and rest: "run_in doc u es = Some s'"
    by (auto split: option.splits)
  from fire_in_no_log [OF Cons.prems(1) u] Cons.IH [OF Cons.prems(1) rest] show ?case by simp
qed

theorem missing_log_never_analyses_witness:
  "\<not> has_log no_log_document \<and>
   (\<exists>s'. run_in no_log_document (page_load upper_engine) retry_run = Some s' \<and>
      calls s' = [] \<and> resultDiv s' = [] \<and> logArea s' = [] \<and>
      uncaught s' = [TypeError, TypeError, TypeError] \<and> engine_ready s')"
proof -
  have n: "\<not> has_log no_log_document" by (simp add: document_defs)
  have "\<exists>s'. run_in no_log_document (page_load upper_engine) retry_run = Some s' \<and>
      uncaught s' = [TypeError, TypeError, TypeError] \<and> engine_ready s'"
    by (simp add: retry_run_def run_in_defs)
  then obtain s' where r: "run_in no_log_document (page_load upper_engine) retry_run = Some s'"
    and u: "uncaught s' = [TypeError, TypeError, TypeError]" "engine_ready s'"
    by blast
  from missing_log_never_analyses [OF n r] n r u show ?thesis
    by (simp add: page_load_def)
qed

text \<open>
  C14 (error path). When the script is ended by an exception (the picker, the module or
  the button is missing), the click handler is not installed: no reader is ever
  created, the engine is never called and the result area never changes, whatever the
  user does.
\<close>

theorem aborted_script_never_analyses:
  assumes "snd (script doc) \<noteq> None" and "loaded doc s" and "run_in doc s es = Some s'"
  shows "readers s' = [] \<and> calls s' = [] \<and> resultDiv s' = resultDiv s \<and>
    \<not> installed doc ClickHandler"
proof -
  from assms(2) have "readers s = []" and "calls s = []" by (simp_all add: loaded_def)
  with run_in_aborted [OF assms(1) _ assms(3)] aborted_no_click [OF assms(1)]
  show ?thesis by simp
qed

theorem aborted_script_never_analyses_witness:
  "script no_module_document = ([ChangeHandler], Some ReferenceError) \<and>
   loaded no_module_document ((page_load upper_engine)\<lparr>uncaught := [ReferenceError]\<rparr>) \<and>
   (\<exists>s'. run_in no_module_document ((page_load upper_engine)\<lparr>uncaught := [ReferenceError]\<rparr>)
        [Change [hello_txt], Click] = Some s' \<and>
      readers s' = [] \<and> calls s' = [] \<and> fileNameSpan s' = ascii ''hello.txt'' \<and> logArea s' = [])"
proof -
  let ?s = "(page_load upper_engine)\<lparr>uncaught := [ReferenceError]\<rparr>"
  have a: "script no_module_document = ([ChangeHandler], Some ReferenceError)"
    by (simp add: script_def document_defs)
  then have b: "snd (script no_module_document) \<noteq> None" by simp
  have l: "loaded no_module_document ?s" by (simp add: loaded_def a page_load_def)
  have "\<exists>s'. run_in no_module_document ?s [Change [hello_txt], Click] = Some s' \<and>
      fileNameSpan s' = ascii ''hello.txt'' \<and> logArea s' = []"
    by (simp add: run_in_defs)
  then obtain s' where r: "run_in no_module_document ?s [Change [hello_txt], Click] = Some s'"
    and f: "fileNameSpan s' = ascii ''hello.txt''" "logArea s' = []"
    by blast
  from aborted_script_never_analyses [OF b l r] a l r f show ?thesis by simp
qed

end
