(* ===== verification/Statements.thy ===== *)
theory Statements
  imports Script
begin

text \<open>
  The handlers of \<^verbatim>\<open>src/script.js\<close> once more, statement by statement. A statement
  runs in a state and ends in one of three ways, as in the language: it completes with
  a value, it returns from the function that it is in (\<^verbatim>\<open>return;\<close> in lines 42 and
  47), or it throws. The state that it leaves is kept in all three cases, so the writes
  that precede an exception stay on the page. Statements are composed in the order of
  the source; each definition below is one statement or one condition of the script,
  on a document in which an element may be missing. The lemmas show that the browser's
  call of a body is the handler of the theories \<open>Handlers\<close> and \<open>Script\<close>, and
  when a body throws.
\<close>

section \<open>Completions and their composition\<close>

datatype 'a flow = Value 'a | Returned | Raised js_error

type_synonym ('s, 'a) stmt = "'s \<Rightarrow> 'a flow \<times> 's"

named_theorems stmt_defs \<open>definitions of the combinators on statements\<close>
named_theorems body_defs \<open>definitions of the statements of the script\<close>

text \<open>An expression without an effect, and an expression that reads the state.\<close>

definition yield :: "'a \<Rightarrow> ('s, 'a) stmt" where [stmt_defs]:
  "yield x s = (Value x, s)"

definition get :: "('s \<Rightarrow> 'a) \<Rightarrow> ('s, 'a) stmt" where [stmt_defs]:
  "get f s = (Value (f s), s)"

text \<open>A statement that only changes the state.\<close>

definition modify :: "('s \<Rightarrow> 's) \<Rightarrow> ('s, unit) stmt" where [stmt_defs]:
  "modify f s = (Value (), f s)"

text \<open>\<^verbatim>\<open>return;\<close> and an exception.\<close>

definition return_stmt :: "('s, 'a) stmt" where [stmt_defs]:
  "return_stmt s = (Returned, s)"

definition throw_stmt :: "js_error \<Rightarrow> ('s, 'a) stmt" where [stmt_defs]:
  "throw_stmt e s = (Raised e, s)"

text \<open>
  Sequencing: the second statement runs only if the first one completes, in the state
  that the first one left.
\<close>

definition andthen :: "('s, 'a) stmt \<Rightarrow> ('a \<Rightarrow> ('s, 'b) stmt) \<Rightarrow> ('s, 'b) stmt" where [stmt_defs]:
  "andthen m k s =
     (case m s of
        (Value x, s') \<Rightarrow> k x s'
      | (Returned, s') \<Rightarrow> (Returned, s')
      | (Raised e, s') \<Rightarrow> (Raised e, s'))"

text \<open>\<^verbatim>\<open>if (c) { ... }\<close> without an else branch.\<close>

definition if_then :: "bool \<Rightarrow> ('s, unit) stmt \<Rightarrow> ('s, unit) stmt" where [stmt_defs]:
  "if_then c m = (if c then m else yield ())"

text \<open>
  A property read on a value that may be \<^verbatim>\<open>null\<close> or \<^verbatim>\<open>undefined\<close>: a
  \<^verbatim>\<open>TypeError\<close> then.
\<close>

definition member :: "'a option \<Rightarrow> ('a \<Rightarrow> 'b) \<Rightarrow> ('s, 'b) stmt" where [stmt_defs]:
  "member v f = (case v of None \<Rightarrow> throw_stmt TypeError | Some x \<Rightarrow> yield (f x))"

text \<open>
  The browser's call of an event handler: whatever way the body ends, the handler has
  ended; an exception is reported and otherwise dropped.
\<close>

definition run_handler :: "('a dom_scheme, unit) stmt \<Rightarrow> 'a dom_scheme \<Rightarrow> 'a dom_scheme" where
  "run_handler m s =
     (case m s of
        (Value _, s') \<Rightarrow> s'
      | (Returned, s') \<Rightarrow> s'
      | (Raised e, s') \<Rightarrow> throw e s')"

section \<open>The statements of the script\<close>

text \<open>
  An assignment to \<^verbatim>\<open>textContent\<close> of an element that lines 6-12 looked up: a
  \<^verbatim>\<open>TypeError\<close> when the lookup gave \<^verbatim>\<open>null\<close>.
\<close>

definition write_text :: "bool \<Rightarrow> ('s \<Rightarrow> 's) \<Rightarrow> ('s, unit) stmt" where [stmt_defs]:
  "write_text present w = (if present then modify w else throw_stmt TypeError)"

text \<open>
  Lines 17 and 38: \<^verbatim>\<open>fileInput.files[i]\<close>. It throws when the picker is missing or
  its list is \<^verbatim>\<open>null\<close>; out of range it is \<^verbatim>\<open>undefined\<close>.
\<close>

definition files_item :: "document \<Rightarrow> nat \<Rightarrow> ('a dom_scheme, jsfile option) stmt" where [body_defs]:
  "files_item doc i s =
     (if \<not> has_fileInput doc then (Raised TypeError, s)
      else case fileInput_files s of
          None \<Rightarrow> (Raised TypeError, s)
        | Some fs \<Rightarrow> (Value (item fs i), s))"

text \<open>
  Line 16: \<^verbatim>\<open>fileInput.files && fileInput.files[0]\<close>. The conjunction stops at a
  list that is \<^verbatim>\<open>null\<close>, so only a missing picker makes it throw.
\<close>

definition has_first_file :: "document \<Rightarrow> ('a dom_scheme, bool) stmt" where [body_defs]:
  "has_first_file doc s =
     (if \<not> has_fileInput doc then (Raised TypeError, s)
      else case fileInput_files s of
          None \<Rightarrow> (Value False, s)
        | Some fs \<Rightarrow> (Value (item fs 0 \<noteq> None), s))"

text \<open>Line 17 and line 19.\<close>

definition show_selected_name :: "document \<Rightarrow> ('a dom_scheme, unit) stmt" where [body_defs]:
  "show_selected_name doc =
     andthen (files_item doc 0) (\<lambda>f.
     andthen (member f file_name) (\<lambda>n.
     write_text (has_fileName doc) (show_file_name n)))"

definition show_placeholder :: "document \<Rightarrow> ('a dom_scheme, unit) stmt" where [body_defs]:
  "show_placeholder doc = write_text (has_fileName doc) (show_file_name no_file_selected)"

text \<open>Lines 15-21: the body of the change handler.\<close>

definition change_body :: "document \<Rightarrow> ('a dom_scheme, unit) stmt" where [body_defs]:
  "change_body doc =
     andthen (has_first_file doc) (\<lambda>c.
     if c then show_selected_name doc else show_placeholder doc)"

text \<open>Line 27 and lines 30-31.\<close>

definition assign_processText :: "('a wasm_scheme, unit) stmt" where [body_defs]:
  "assign_processText = modify (\<lambda>s. set_processText (cwrap s) s)"

definition announce_ready :: "document \<Rightarrow> ('a dom_scheme, unit) stmt" where [body_defs]:
  "announce_ready doc = write_text (has_log doc) (log_write wasm_loaded)"

text \<open>Lines 26-32: the body of \<^verbatim>\<open>Module.onRuntimeInitialized\<close>.\<close>

definition runtime_body :: "document \<Rightarrow> ('a wasm_scheme, unit) stmt" where [body_defs]:
  "runtime_body doc = andthen assign_processText (\<lambda>_. announce_ready doc)"

text \<open>Line 56, line 58 for a text, line 64 and line 66.\<close>

definition clear_log :: "document \<Rightarrow> ('a dom_scheme, unit) stmt" where [body_defs]:
  "clear_log doc = write_text (has_log doc) (log_write [])"

definition report_length :: "document \<Rightarrow> jsstring \<Rightarrow> ('a dom_scheme, unit) stmt" where [body_defs]:
  "report_length doc t = write_text (has_log doc) (log_append (file_read_line (length t)))"

definition display_result :: "document \<Rightarrow> jsstring \<Rightarrow> ('a dom_scheme, unit) stmt" where [body_defs]:
  "display_result doc r = write_text (has_result doc) (show_result r)"

definition report_done :: "document \<Rightarrow> ('a dom_scheme, unit) stmt" where [body_defs]:
  "report_done doc = write_text (has_log doc) (log_append analysis_done)"

text \<open>
  Line 61: \<^verbatim>\<open>processText(text)\<close>. Calling \<^verbatim>\<open>null\<close> is a \<^verbatim>\<open>TypeError\<close>; what
  the engine throws leaves the call as an exception.
\<close>

definition call_processText :: "jsstring \<Rightarrow> ('a wasm_scheme, jsstring) stmt" where [body_defs]:
  "call_processText t s =
     (case processText s of
        None \<Rightarrow> (Raised TypeError, s)
      | Some f \<Rightarrow>
          (case invoke f t s of
             (Throws, s') \<Rightarrow> (Raised EngineException, s')
           | (Returns r, s') \<Rightarrow> (Value r, s')))"

text \<open>
  Lines 52-67: the body of the load callback, for the value \<open>v\<close> that line 53 reads
  from \<^verbatim>\<open>e.target.result\<close>. If that value is \<^verbatim>\<open>null\<close>, the log has been cleared
  when \<^verbatim>\<open>text.length\<close> throws in line 58.
\<close>

definition onload_body :: "document \<Rightarrow> jsstring option \<Rightarrow> ('a wasm_scheme, unit) stmt" where [body_defs]:
  "onload_body doc v =
     andthen (clear_log doc) (\<lambda>_.
     case v of
       None \<Rightarrow> throw_stmt TypeError
     | Some t \<Rightarrow>
         andthen (report_length doc t) (\<lambda>_.
         andthen (call_processText t) (\<lambda>r.
         andthen (display_result doc r) (\<lambda>_.
         report_done doc))))"

text \<open>Lines 69-71: the body of the error callback.\<close>

definition onerror_body :: "document \<Rightarrow> ('a dom_scheme, unit) stmt" where [body_defs]:
  "onerror_body doc = write_text (has_log doc) (log_write read_failed)"

text \<open>
  Lines 40-43 and lines 45-48: the two guards of the click handler, for the value
  \<open>f\<close> of \<^verbatim>\<open>file\<close>. Each writes its notice and returns from the handler.
\<close>

definition guard_file :: "document \<Rightarrow> jsfile option \<Rightarrow> ('a dom_scheme, unit) stmt" where [body_defs]:
  "guard_file doc f =
     if_then (f = None)
       (andthen (write_text (has_log doc) (log_write select_file_first)) (\<lambda>_. return_stmt))"

definition guard_engine :: "document \<Rightarrow> ('a wasm_scheme, unit) stmt" where [body_defs]:
  "guard_engine doc =
     andthen (get processText) (\<lambda>p.
     if_then (p = None)
       (andthen (write_text (has_log doc) (log_write wasm_not_ready)) (\<lambda>_. return_stmt)))"

section \<open>Laws of the composition\<close>

lemma andthen_yield [simp]: "andthen (yield x) k = k x"
  by (simp add: fun_eq_iff stmt_defs)

lemma andthen_yield_right [simp]: "andthen m yield = m"
  by (auto simp: fun_eq_iff stmt_defs split: prod.splits flow.splits)

lemma andthen_assoc: "andthen (andthen m k) h = andthen m (\<lambda>x. andthen (k x) h)"
  by (auto simp: fun_eq_iff stmt_defs split: prod.splits flow.splits)

lemma andthen_return_stmt [simp]: "andthen return_stmt k = return_stmt"
  by (simp add: fun_eq_iff stmt_defs)

lemma andthen_throw_stmt [simp]: "andthen (throw_stmt e) k = throw_stmt e"
  by (simp add: fun_eq_iff stmt_defs)

lemma if_then_simps [simp]: "if_then True m = m" "if_then False m = yield ()"
  by (simp_all add: if_then_def)

lemma member_simps [simp]: "member None f = throw_stmt TypeError" "member (Some x) f = yield (f x)"
  by (simp_all add: member_def)

lemma write_text_simps [simp]:
  "write_text True w = modify w" "write_text False w = throw_stmt TypeError"
  by (simp_all add: write_text_def)

lemma run_handler_simps [simp]:
  "m s = (Value x, s') \<Longrightarrow> run_handler m s = s'"
  "m s = (Returned, s') \<Longrightarrow> run_handler m s = s'"
  "m s = (Raised e, s') \<Longrightarrow> run_handler m s = throw e s'"
  by (simp_all add: run_handler_def)

section \<open>The bodies are the handlers\<close>

lemmas flow_splits = prod.splits flow.splits option.splits completion.splits

lemma run_change_body:
  "has_fileInput doc \<Longrightarrow> run_handler (change_body doc) s = on_change_in doc s"
  by (auto simp: run_handler_def body_defs stmt_defs on_change_in_def on_change_def surface_defs
      split: flow_splits)

lemma run_runtime_body: "run_handler (runtime_body doc) s = on_runtime_initialized_in doc s"
  by (simp add: run_handler_def body_defs stmt_defs on_runtime_initialized_in_def surface_defs)

lemma run_onload_body: "run_handler (onload_body doc (Some t)) s = reader_onload_in doc t s"
  by (auto simp: run_handler_def body_defs stmt_defs reader_onload_in_def invoke_def surface_defs
      split: flow_splits)

lemma run_onerror_body: "run_handler (onerror_body doc) s = reader_onerror_in doc s"
  by (simp add: run_handler_def body_defs stmt_defs reader_onerror_in_def surface_defs)

end
