(* ===== verification/FileApi.thy ===== *)
theory FileApi
  imports Statements
begin

text \<open>
  The \<^verbatim>\<open>FileReader\<close> objects with the attributes that the File API gives them and
  that the script touches: the two callbacks that lines 52 and 69 assign, and the
  \<^verbatim>\<open>result\<close> that line 53 reads. The theory \<open>FileReader\<close> keeps of a reader only
  its file and its state; here a reader is the whole object, the state of the browser
  holds these objects, and the click handler is given statement by statement on that
  state (lines 37-74). The function \<open>page_of\<close> forgets the attributes. The lemmas
  show that every handler of the script commutes with it: on the page that is left,
  the statements do what the handlers of \<open>Handlers\<close> and \<open>Script\<close> do.
\<close>

section \<open>Reader objects and the state of the browser\<close>

text \<open>
  \<open>fr_result\<close> is the attribute \<^verbatim>\<open>result\<close>, \<open>None\<close> for \<^verbatim>\<open>null\<close>;
  \<open>fr_error\<close> says whether the attribute \<^verbatim>\<open>error\<close> holds an exception;
  \<open>fr_onload\<close> and \<open>fr_onerror\<close> say whether the functions of lines 52-67 and 69-71
  have been assigned to \<^verbatim>\<open>onload\<close> and \<^verbatim>\<open>onerror\<close> (no other value is ever
  assigned); \<open>fr_started\<close> says whether the event \<^verbatim>\<open>loadstart\<close> of the current read
  has been fired.
\<close>

record reader_object = reader +
  fr_result :: "jsstring option"
  fr_error :: bool
  fr_onload :: bool
  fr_onerror :: bool
  fr_started :: bool

record browser = wasm +
  objects :: "reader_object list"

definition reader_of :: "reader_object \<Rightarrow> reader" where
  "reader_of r = \<lparr>reading = reading r, ready_state = ready_state r\<rparr>"

definition page_of :: "browser \<Rightarrow> page" where
  "page_of b = \<lparr>fileInput_files = fileInput_files b, fileNameSpan = fileNameSpan b,
     logArea = logArea b, resultDiv = resultDiv b, uncaught = uncaught b,
     wasm_module = wasm_module b, processText = processText b, calls = calls b,
     readers = map reader_of (objects b)\<rparr>"

section \<open>The statements on readers\<close>

text \<open>Line 50: \<^verbatim>\<open>new FileReader()\<close>, an object in its initial state.\<close>

definition fresh_reader :: reader_object where
  "fresh_reader = \<lparr>reading = None, ready_state = EMPTY, fr_result = None, fr_error = False,
     fr_onload = False, fr_onerror = False, fr_started = False\<rparr>"

definition new_reader :: "(browser, nat) stmt" where [body_defs]:
  "new_reader b = (Value (length (objects b)), b\<lparr>objects := objects b @ [fresh_reader]\<rparr>)"

text \<open>A write to an attribute of reader \<open>i\<close>.\<close>

definition update_object :: "nat \<Rightarrow> (reader_object \<Rightarrow> reader_object) \<Rightarrow> browser \<Rightarrow> browser" where
  "update_object i f b =
     (case item (objects b) i of None \<Rightarrow> b | Some r \<Rightarrow> b\<lparr>objects := (objects b)[i := f r]\<rparr>)"

text \<open>Line 52 and line 69: the assignments of the two callbacks.\<close>

definition assign_onload :: "nat \<Rightarrow> (browser, unit) stmt" where [body_defs]:
  "assign_onload i = modify (update_object i (\<lambda>r. r\<lparr>fr_onload := True\<rparr>))"

definition assign_onerror :: "nat \<Rightarrow> (browser, unit) stmt" where [body_defs]:
  "assign_onerror i = modify (update_object i (\<lambda>r. r\<lparr>fr_onerror := True\<rparr>))"

text \<open>
  Line 73: \<^verbatim>\<open>reader.readAsText(file, "utf-8")\<close> for the value \<open>f\<close> of \<^verbatim>\<open>file\<close>.
  An argument that is not a file is refused with a \<^verbatim>\<open>TypeError\<close> before the
  method runs. The method refuses a reader that is loading; otherwise the reader
  starts to load, and its result and its error are \<^verbatim>\<open>null\<close>.
\<close>

definition start_read :: "nat \<Rightarrow> jsfile option \<Rightarrow> (browser, unit) stmt" where [body_defs]:
  "start_read i f b =
     (case item (objects b) i of
        None \<Rightarrow> (Raised TypeError, b)
      | Some r \<Rightarrow>
          (case f of
             None \<Rightarrow> (Raised TypeError, b)
           | Some a \<Rightarrow>
               if ready_state r = LOADING then (Raised InvalidStateError, b)
               else (Value (), b\<lparr>objects := (objects b)[i := r\<lparr>reading := Some a,
                 ready_state := LOADING, fr_result := None, fr_error := False,
                 fr_started := False\<rparr>]\<rparr>)))"

text \<open>Lines 37-74: the body of the click handler.\<close>

definition click_body :: "document \<Rightarrow> (browser, unit) stmt" where [body_defs]:
  "click_body doc =
     andthen (files_item doc 0) (\<lambda>f.
     andthen (guard_file doc f) (\<lambda>_.
     andthen (guard_engine doc) (\<lambda>_.
     andthen new_reader (\<lambda>r.
     andthen (assign_onload r) (\<lambda>_.
     andthen (assign_onerror r) (\<lambda>_.
     start_read r f))))))"

text \<open>The browser right after the script has run: no reader exists.\<close>

definition browser_load :: "engine \<Rightarrow> browser" where
  "browser_load g = \<lparr>fileInput_files = Some [], fileNameSpan = [], logArea = [], resultDiv = [],
     uncaught = [], wasm_module = g, processText = None, calls = [], objects = []\<rparr>"

section \<open>What the page keeps of the browser\<close>

lemma page_of_fields [simp]:
  "fileInput_files (page_of b) = fileInput_files b"
  "fileNameSpan (page_of b) = fileNameSpan b"
  "logArea (page_of b) = logArea b"
  "resultDiv (page_of b) = resultDiv b"
  "uncaught (page_of b) = uncaught b"
  "wasm_module (page_of b) = wasm_module b"
  "processText (page_of b) = processText b"
  "calls (page_of b) = calls b"
  "readers (page_of b) = map reader_of (objects b)"
  by (simp_all add: page_of_def)

lemma reader_of_fields [simp]:
  "reading (reader_of r) = reading r" "ready_state (reader_of r) = ready_state r"
  by (simp_all add: reader_of_def)

lemma reader_of_update [simp]:
  "reader_of (r\<lparr>fr_onload := x\<rparr>) = reader_of r"
  "reader_of (r\<lparr>fr_onerror := x\<rparr>) = reader_of r"
  "reader_of (r\<lparr>fr_started := x\<rparr>) = reader_of r"
  "reader_of (r\<lparr>fr_result := v\<rparr>) = reader_of r"
  "reader_of (r\<lparr>fr_error := x\<rparr>) = reader_of r"
  by (simp_all add: reader_of_def)

lemma engine_ready_page_of [simp]: "engine_ready (page_of b) = engine_ready b"
  by (simp add: engine_ready_def)

text \<open>The writes to the surfaces and to the engine commute with \<open>page_of\<close>.\<close>

lemma page_of_writes [simp]:
  "page_of (show_file_name t b) = show_file_name t (page_of b)"
  "page_of (log_write t b) = log_write t (page_of b)"
  "page_of (log_append t b) = log_append t (page_of b)"
  "page_of (show_result t b) = show_result t (page_of b)"
  "page_of (throw e b) = throw e (page_of b)"
  "page_of (pick_files fs b) = pick_files fs (page_of b)"
  "page_of (set_processText g b) = set_processText g (page_of b)"
  by (simp_all add: page_of_def surface_defs set_processText_def)

lemma page_of_invoke [simp]:
  "fst (invoke g t b) = fst (invoke g t (page_of b))"
  "page_of (snd (invoke g t b)) = snd (invoke g t (page_of b))"
  by (simp_all add: page_of_def invoke_def)

lemma objects_writes [simp]:
  "objects (show_file_name t b) = objects b"
  "objects (log_write t b) = objects b"
  "objects (log_append t b) = objects b"
  "objects (show_result t b) = objects b"
  "objects (throw e b) = objects b"
  "objects (pick_files fs b) = objects b"
  "objects (set_processText g b) = objects b"
  "objects (snd (invoke g t b)) = objects b"
  by (simp_all add: surface_defs set_processText_def invoke_def)

section \<open>The handlers commute with the abstraction\<close>

text \<open>
  The four handlers that touch no reader are the same functions on the browser and on
  the page.
\<close>

lemma page_of_on_change_in: "page_of (on_change_in doc b) = on_change_in doc (page_of b)"
  by (simp add: on_change_in_def on_change_def split: option.splits)

lemma page_of_on_runtime_initialized_in:
  "page_of (on_runtime_initialized_in doc b) = on_runtime_initialized_in doc (page_of b)"
  by (simp add: on_runtime_initialized_in_def Let_def cwrap_def)

lemma page_of_reader_onerror_in:
  "page_of (reader_onerror_in doc b) = reader_onerror_in doc (page_of b)"
  by (simp add: reader_onerror_in_def)

lemma page_of_reader_onload_in:
  "page_of (reader_onload_in doc t b) = reader_onload_in doc t (page_of b)"
  by (auto simp: reader_onload_in_def Let_def invoke_def page_of_def surface_defs
      split: option.splits completion.splits)

section \<open>The click handler\<close>

text \<open>The reader that a click leaves: started on the file, with both callbacks.\<close>

definition started_reader :: "jsfile \<Rightarrow> reader_object" where
  "started_reader f = \<lparr>reading = Some f, ready_state = LOADING, fr_result = None,
     fr_error = False, fr_onload = True, fr_onerror = True, fr_started = False\<rparr>"

lemma reader_of_started_reader [simp]:
  "reader_of (started_reader f) = \<lparr>reading = Some f, ready_state = LOADING\<rparr>"
  by (simp add: reader_of_def started_reader_def)

text \<open>Lines 50-73 in one step: no statement of them can throw on a new reader.\<close>

lemma create_and_start:
  "andthen new_reader (\<lambda>r. andthen (assign_onload r) (\<lambda>_. andthen (assign_onerror r) (\<lambda>_.
     start_read r (Some f)))) b =
   (Value (), b\<lparr>objects := objects b @ [started_reader f]\<rparr>)"
  by (simp add: body_defs stmt_defs update_object_def fresh_reader_def started_reader_def)

lemma click_body_no_picker:
  "\<not> has_fileInput doc \<or> fileInput_files b = None \<Longrightarrow> click_body doc b = (Raised TypeError, b)"
  by (auto simp: click_body_def files_item_def andthen_def)

lemma click_body_no_file:
  assumes "has_fileInput doc" and "fileInput_files b = Some []"
  shows "click_body doc b =
    (if has_log doc then (Returned, log_write select_file_first b) else (Raised TypeError, b))"
  using assms by (simp add: click_body_def files_item_def guard_file_def stmt_defs)

lemma click_body_not_ready:
  assumes "has_fileInput doc" and "fileInput_files b = Some (f # fs)" and "processText b = None"
  shows "click_body doc b =
    (if has_log doc then (Returned, log_write wasm_not_ready b) else (Raised TypeError, b))"
  using assms
  by (simp add: click_body_def files_item_def guard_file_def guard_engine_def stmt_defs)

lemma click_body_starts_read:
  assumes "has_fileInput doc" and "fileInput_files b = Some (f # fs)" and "processText b = Some g"
  shows "click_body doc b = (Value (), b\<lparr>objects := objects b @ [started_reader f]\<rparr>)"
proof -
  have "click_body doc b =
    andthen new_reader (\<lambda>r. andthen (assign_onload r) (\<lambda>_. andthen (assign_onerror r) (\<lambda>_.
      start_read r (Some f)))) b"
    using assms
    by (simp add: click_body_def files_item_def guard_file_def guard_engine_def andthen_def
        get_def if_then_def yield_def)
  then show ?thesis by (simp add: create_and_start)
qed

lemma click_body_cases [consumes 0, case_names no_picker no_file not_ready starts_read]:
  assumes "\<not> has_fileInput doc \<or> fileInput_files b = None \<Longrightarrow> P"
    and "has_fileInput doc \<Longrightarrow> fileInput_files b = Some [] \<Longrightarrow> P"
    and "\<And>f fs. has_fileInput doc \<Longrightarrow> fileInput_files b = Some (f # fs) \<Longrightarrow> processText b = None \<Longrightarrow> P"
    and "\<And>f fs g. has_fileInput doc \<Longrightarrow> fileInput_files b = Some (f # fs) \<Longrightarrow>
      processText b = Some g \<Longrightarrow> P"
  shows P
proof (cases "has_fileInput doc")
  case False
  then show ?thesis by (simp add: assms(1))
next
  case True
  show ?thesis
  proof (cases "fileInput_files b")
    case None
    then show ?thesis by (simp add: assms(1))
  next
    case (Some fs)
    show ?thesis
    proof (cases fs)
      case Nil
      with True Some show ?thesis by (simp add: assms(2))
    next
      case (Cons f fs')
      with True Some show ?thesis by (cases "processText b") (auto intro: assms(3,4))
    qed
  qed
qed

text \<open>The statements on the browser are the handler on the page.\<close>

lemma page_of_append_reader:
  "page_of (b\<lparr>objects := objects b @ [r]\<rparr>) = (page_of b)\<lparr>readers := readers (page_of b) @ [reader_of r]\<rparr>"
  by (simp add: page_of_def)

lemma page_of_click_body:
  "page_of (run_handler (click_body doc) b) = on_click_in doc (page_of b)"
proof (cases rule: click_body_cases [where doc = doc and b = b])
  case no_picker
  then show ?thesis by (auto simp: click_body_no_picker on_click_in_def)
next
  case no_file
  then show ?thesis by (simp add: click_body_no_file on_click_in_def)
next
  case (not_ready f fs)
  then show ?thesis by (simp add: click_body_not_ready on_click_in_def engine_ready_def)
next
  case (starts_read f fs g)
  with readAsText_new_FileReader [of "page_of b" f] show ?thesis
    by (simp add: click_body_starts_read on_click_in_def engine_ready_def split_def
        page_of_append_reader)
qed

lemma page_of_browser_load [simp]: "page_of (browser_load g) = page_load g"
  by (simp add: page_of_def browser_load_def page_load_def)

section \<open>How the bodies end\<close>

lemma fst_click_body:
  "fst (click_body doc b) =
     (if \<not> has_fileInput doc \<or> fileInput_files b = None then Raised TypeError
      else if fileInput_files b = Some [] \<or> processText b = None then
        if has_log doc then Returned else Raised TypeError
      else Value ())"
  by (cases rule: click_body_cases [where doc = doc and b = b])
    (auto simp: click_body_no_picker click_body_no_file click_body_not_ready
      click_body_starts_read)

lemma fst_onload_body:
  "fst (onload_body doc v s) =
     (if \<not> has_log doc then Raised TypeError
      else case v of
          None \<Rightarrow> Raised TypeError
        | Some t \<Rightarrow>
            (case processText s of
               None \<Rightarrow> Raised TypeError
             | Some g \<Rightarrow>
                 (case g (calls s) t of
                    Throws \<Rightarrow> Raised EngineException
                  | Returns r \<Rightarrow> if has_result doc then Value () else Raised TypeError)))"
  by (auto simp: body_defs stmt_defs invoke_def surface_defs split: flow_splits)

section \<open>What the statements promise\<close>

text \<open>
  C30 (error path). How the two long handlers end, on any document and in any state.
  The click handler throws exactly if the picker is missing or has no list, or if a
  guard has to write to a log that is missing; it returns early exactly at its two
  guards, the missing file first; otherwise it completes. The load callback throws a
  \<^verbatim>\<open>TypeError\<close> if the log, the text, the engine or the result area is missing, the
  engine's exception if the engine throws, and completes otherwise; it never returns
  early.
\<close>

theorem completions_of_the_bodies:
  "fst (click_body doc b) =
     (if \<not> has_fileInput doc \<or> fileInput_files b = None then Raised TypeError
      else if fileInput_files b = Some [] \<or> processText b = None then
        if has_log doc then Returned else Raised TypeError
      else Value ()) \<and>
   fst (onload_body doc v b) =
     (if \<not> has_log doc then Raised TypeError
      else case v of
          None \<Rightarrow> Raised TypeError
        | Some t \<Rightarrow>
            (case processText b of
               None \<Rightarrow> Raised TypeError
             | Some g \<Rightarrow>
                 (case g (calls b) t of
                    Throws \<Rightarrow> Raised EngineException
                  | Returns r \<Rightarrow> if has_result doc then Value () else Raised TypeError)))"
  by (simp only: fst_click_body fst_onload_body simp_thms)

theorem completions_of_the_bodies_witness:
  "fst (click_body full_document (browser_load upper_engine)) = Returned \<and>
   fst (click_body no_log_document (browser_load upper_engine)) = Raised TypeError \<and>
   fst (onload_body full_document (Some (ascii ''hello''))
     (on_runtime_initialized (browser_load failing_engine))) = Raised EngineException \<and>
   fst (onload_body full_document (Some (ascii ''hello''))
     (on_runtime_initialized (browser_load upper_engine))) = Value () \<and>
   fst (onload_body full_document None (browser_load failing_engine)) = Raised TypeError"
  using completions_of_the_bodies [of full_document "browser_load upper_engine"]
    completions_of_the_bodies [of no_log_document "browser_load upper_engine"]
    completions_of_the_bodies [of full_document "on_runtime_initialized (browser_load failing_engine)"
      "Some (ascii ''hello'')"]
    completions_of_the_bodies [of full_document "on_runtime_initialized (browser_load upper_engine)"
      "Some (ascii ''hello'')"]
    completions_of_the_bodies [of full_document "browser_load failing_engine" None]
  by (simp add: browser_load_def document_defs on_runtime_initialized_def cwrap_def
      set_processText_def log_write_def failing_engine_def upper_engine_def)

end
