(* ===== verification/Tasks.thy ===== *)
theory Tasks
  imports FileApi
begin

text \<open>
  The tasks that the browser runs on the state of \<open>FileApi\<close>: the three events of the
  user and of the module, and for every read the tasks of the File API, which fires
  \<^verbatim>\<open>loadstart\<close> when the first chunk has arrived, \<^verbatim>\<open>progress\<close> while chunks
  arrive, and at the end \<^verbatim>\<open>load\<close> or \<^verbatim>\<open>error\<close>, each followed by
  \<^verbatim>\<open>loadend\<close>. The script has callbacks for \<^verbatim>\<open>load\<close> and \<^verbatim>\<open>error\<close> only, and
  a task runs the callback that the reader holds at that moment, with the reader as the
  target of the event. The lemmas show that every reader of a run holds both callbacks
  from its start on, that the load callback finds the text in \<^verbatim>\<open>e.target.result\<close>,
  and that the pages of \<open>EventLoop\<close> and \<open>Script\<close> are exactly what the runs of
  tasks leave when the attributes of the readers are forgotten.
\<close>

section \<open>Tasks\<close>

datatype task =
  Initialized | Changed "jsfile list" | Clicked
  | LoadStart nat | Progress nat | Loaded nat jsstring | Failed nat

text \<open>The event of \<open>EventLoop\<close> that a task is; the script sees nothing of the others.\<close>

fun event_of :: "task \<Rightarrow> event option" where
  "event_of Initialized = Some RuntimeInitialized"
| "event_of (Changed fs) = Some (Change fs)"
| "event_of Clicked = Some Click"
| "event_of (LoadStart i) = None"
| "event_of (Progress i) = None"
| "event_of (Loaded i t) = Some (Load i t)"
| "event_of (Failed i) = Some (Error i)"

definition events_of :: "task list \<Rightarrow> event list" where
  "events_of ks = List.map_filter event_of ks"

section \<open>The browser's side of a read\<close>

definition object_loading :: "browser \<Rightarrow> nat \<Rightarrow> bool" where
  "object_loading b i \<longleftrightarrow>
     (case item (objects b) i of None \<Rightarrow> False | Some r \<Rightarrow> ready_state r = LOADING)"

definition object_started :: "browser \<Rightarrow> nat \<Rightarrow> bool" where
  "object_started b i \<longleftrightarrow>
     (case item (objects b) i of None \<Rightarrow> False | Some r \<Rightarrow> fr_started r)"

text \<open>The first chunk has arrived: \<^verbatim>\<open>loadstart\<close> is fired.\<close>

definition announce :: "nat \<Rightarrow> browser \<Rightarrow> browser" where
  "announce i = update_object i (\<lambda>r. r\<lparr>fr_started := True\<rparr>)"

text \<open>
  The end of a read, before an event is fired: the state becomes \<^verbatim>\<open>DONE\<close>, and
  either the result is the decoded text or the error is set.
\<close>

definition complete_read :: "nat \<Rightarrow> jsstring \<Rightarrow> browser \<Rightarrow> browser" where
  "complete_read i t = update_object i (\<lambda>r. r\<lparr>ready_state := DONE, fr_result := Some t\<rparr>)"

definition fail_read :: "nat \<Rightarrow> browser \<Rightarrow> browser" where
  "fail_read i = update_object i (\<lambda>r. r\<lparr>ready_state := DONE, fr_error := True\<rparr>)"

text \<open>
  The events \<^verbatim>\<open>load\<close> and \<^verbatim>\<open>error\<close> at reader \<open>i\<close>: the callback that the reader
  holds runs, and line 53 reads the result of the target.
\<close>

definition fire_load :: "document \<Rightarrow> nat \<Rightarrow> browser \<Rightarrow> browser" where
  "fire_load doc i b =
     (case item (objects b) i of
        None \<Rightarrow> b
      | Some r \<Rightarrow> if fr_onload r then run_handler (onload_body doc (fr_result r)) b else b)"

definition fire_error :: "document \<Rightarrow> nat \<Rightarrow> browser \<Rightarrow> browser" where
  "fire_error doc i b =
     (case item (objects b) i of
        None \<Rightarrow> b
      | Some r \<Rightarrow> if fr_onerror r then run_handler (onerror_body doc) b else b)"

section \<open>Running tasks\<close>

fun perform :: "document \<Rightarrow> task \<Rightarrow> browser \<Rightarrow> browser" where
  "perform doc Initialized b =
     (if installed doc RuntimeHandler then run_handler (runtime_body doc) b else b)"
| "perform doc (Changed fs) b =
     (if installed doc ChangeHandler then run_handler (change_body doc) (pick_files fs b)
      else pick_files fs b)"
| "perform doc Clicked b =
     (if installed doc ClickHandler then run_handler (click_body doc) b else b)"
| "perform doc (LoadStart i) b = announce i b"
| "perform doc (Progress i) b = b"
| "perform doc (Loaded i t) b = fire_load doc i (complete_read i t b)"
| "perform doc (Failed i) b = fire_error doc i (fail_read i b)"

text \<open>
  The tasks of a read are queued in their order: \<^verbatim>\<open>loadstart\<close> once, then
  \<^verbatim>\<open>progress\<close>, then the end. A read can fail before its first chunk.
\<close>

fun possible :: "document \<Rightarrow> browser \<Rightarrow> task \<Rightarrow> bool" where
  "possible doc b Initialized = has_Module doc"
| "possible doc b (Changed fs) = has_fileInput doc"
| "possible doc b Clicked = has_analyzeBtn doc"
| "possible doc b (LoadStart i) = (object_loading b i \<and> \<not> object_started b i)"
| "possible doc b (Progress i) = (object_loading b i \<and> object_started b i)"
| "possible doc b (Loaded i t) = (object_loading b i \<and> object_started b i)"
| "possible doc b (Failed i) = object_loading b i"

definition attempt :: "document \<Rightarrow> browser \<Rightarrow> task \<Rightarrow> browser option" where
  "attempt doc b k = (if possible doc b k then Some (perform doc k b) else None)"

fun perform_all :: "document \<Rightarrow> browser \<Rightarrow> task list \<Rightarrow> browser option" where
  "perform_all doc b [] = Some b"
| "perform_all doc b (k # ks) =
     (case attempt doc b k of None \<Rightarrow> None | Some b' \<Rightarrow> perform_all doc b' ks)"

text \<open>
  What holds of every reader of a run: it was started on a file and holds both
  callbacks; while it loads, its result and its error are \<^verbatim>\<open>null\<close>; when it is done,
  exactly one of the two is set, and a result was preceded by \<^verbatim>\<open>loadstart\<close>.
\<close>

definition object_ok :: "reader_object \<Rightarrow> bool" where
  "object_ok r \<longleftrightarrow>
     reading r \<noteq> None \<and> fr_onload r \<and> fr_onerror r \<and>
     (case ready_state r of
        EMPTY \<Rightarrow> False
      | LOADING \<Rightarrow> fr_result r = None \<and> \<not> fr_error r
      | DONE \<Rightarrow> (fr_result r = None) = fr_error r \<and> (fr_error r \<or> fr_started r))"

definition browser_ok :: "browser \<Rightarrow> bool" where
  "browser_ok b \<longleftrightarrow> list_all object_ok (objects b)"

text \<open>
  The tasks by which the browser delivers an event of \<open>EventLoop\<close>: a read that ends
  well has fired \<^verbatim>\<open>loadstart\<close> before. The tasks for a sequence of events follow
  the state of the browser.
\<close>

fun tasks_for :: "browser \<Rightarrow> event \<Rightarrow> task list" where
  "tasks_for b RuntimeInitialized = [Initialized]"
| "tasks_for b (Change fs) = [Changed fs]"
| "tasks_for b Click = [Clicked]"
| "tasks_for b (Load i t) =
     (if object_started b i then [Loaded i t] else [LoadStart i, Loaded i t])"
| "tasks_for b (Error i) = [Failed i]"

fun schedule :: "document \<Rightarrow> browser \<Rightarrow> event list \<Rightarrow> task list" where
  "schedule doc b [] = []"
| "schedule doc b (e # es) =
     tasks_for b e @ schedule doc (fold (perform doc) (tasks_for b e) b) es"

section \<open>Updates of a reader\<close>

lemma objects_update_object:
  "objects (update_object i f b) = (if i < length (objects b) then (objects b)[i := f (objects b ! i)] else objects b)"
  by (simp add: update_object_def item_def)

lemma update_object_frame [simp]:
  "fileInput_files (update_object i f b) = fileInput_files b"
  "fileNameSpan (update_object i f b) = fileNameSpan b"
  "logArea (update_object i f b) = logArea b"
  "resultDiv (update_object i f b) = resultDiv b"
  "uncaught (update_object i f b) = uncaught b"
  "wasm_module (update_object i f b) = wasm_module b"
  "processText (update_object i f b) = processText b"
  "calls (update_object i f b) = calls b"
  by (simp_all add: update_object_def split: option.splits)

lemma object_loading_iff:
  "object_loading b i \<longleftrightarrow> i < length (objects b) \<and> ready_state (objects b ! i) = LOADING"
  by (auto simp: object_loading_def item_def)

lemma loading_page_of [simp]: "loading (page_of b) i = object_loading b i"
  by (auto simp: loading_iff object_loading_iff)

text \<open>An update that keeps the file and the state of the reader is invisible on the page.\<close>

lemma page_of_update_object_same:
  assumes "\<And>r. reader_of (f r) = reader_of r"
  shows "page_of (update_object i f b) = page_of b"
  by (simp add: page_of_def objects_update_object map_update assms list_update_same_conv)

lemma page_of_update_object_done:
  assumes "\<And>r. reader_of (f r) = (reader_of r)\<lparr>ready_state := DONE\<rparr>"
  shows "page_of (update_object i f b) = finish_read i (page_of b)"
  by (simp add: page_of_def objects_update_object finish_read_def item_def map_update assms)

lemma page_of_announce [simp]: "page_of (announce i b) = page_of b"
  unfolding announce_def by (rule page_of_update_object_same) simp

lemma page_of_complete_read [simp]: "page_of (complete_read i t b) = finish_read i (page_of b)"
  unfolding complete_read_def by (rule page_of_update_object_done) (simp add: reader_of_def)

lemma page_of_fail_read [simp]: "page_of (fail_read i b) = finish_read i (page_of b)"
  unfolding fail_read_def by (rule page_of_update_object_done) (simp add: reader_of_def)

section \<open>The callbacks of a reader\<close>

text \<open>The four handlers that touch no reader leave the objects as they are.\<close>

lemma objects_handlers [simp]:
  "objects (on_change_in doc b) = objects b"
  "objects (on_runtime_initialized_in doc b) = objects b"
  "objects (reader_onerror_in doc b) = objects b"
  by (simp_all add: on_change_in_def on_runtime_initialized_in_def reader_onerror_in_def
      on_change_def Let_def split: option.splits)

lemma objects_reader_onload_in [simp]: "objects (reader_onload_in doc t b) = objects b"
  by (auto simp: reader_onload_in_def Let_def invoke_def surface_defs
      split: option.splits completion.splits)

lemma object_ok_loading:
  assumes "browser_ok b" and "object_loading b i"
  shows "fr_onload (objects b ! i)" and "fr_onerror (objects b ! i)"
    and "fr_result (objects b ! i) = None" and "\<not> fr_error (objects b ! i)"
    and "reading (objects b ! i) \<noteq> None"
proof -
  from assms(2) have i: "i < length (objects b)" and l: "ready_state (objects b ! i) = LOADING"
    by (simp_all add: object_loading_iff)
  from assms(1) i have "object_ok (objects b ! i)" by (simp add: browser_ok_def list_all_length)
  with l show "fr_onload (objects b ! i)" and "fr_onerror (objects b ! i)"
    and "fr_result (objects b ! i) = None" and "\<not> fr_error (objects b ! i)"
    and "reading (objects b ! i) \<noteq> None"
    by (simp_all add: object_ok_def)
qed

text \<open>
  At the end of a read the reader holds its callback, and the load callback reads the
  text that the browser has just stored: the tasks run the handlers of \<open>Script\<close>.
\<close>

lemma fire_load_complete_read:
  assumes "browser_ok b" and "object_loading b i"
  shows "fire_load doc i (complete_read i t b) = reader_onload_in doc t (complete_read i t b)"
proof -
  from assms(2) have i: "i < length (objects b)" by (simp add: object_loading_iff)
  then have "item (objects (complete_read i t b)) i =
    Some ((objects b ! i)\<lparr>ready_state := DONE, fr_result := Some t\<rparr>)"
    by (simp add: complete_read_def objects_update_object item_def)
  with object_ok_loading(1) [OF assms] show ?thesis
    by (simp add: fire_load_def run_onload_body)
qed

lemma fire_error_fail_read:
  assumes "browser_ok b" and "object_loading b i"
  shows "fire_error doc i (fail_read i b) = reader_onerror_in doc (fail_read i b)"
proof -
  from assms(2) have i: "i < length (objects b)" by (simp add: object_loading_iff)
  then have "item (objects (fail_read i b)) i =
    Some ((objects b ! i)\<lparr>ready_state := DONE, fr_error := True\<rparr>)"
    by (simp add: fail_read_def objects_update_object item_def)
  with object_ok_loading(2) [OF assms] show ?thesis
    by (simp add: fire_error_def run_onerror_body)
qed

section \<open>Every task keeps the readers well formed\<close>

lemma browser_ok_update_object:
  assumes "browser_ok b" and "i < length (objects b) \<Longrightarrow> object_ok (f (objects b ! i))"
  shows "browser_ok (update_object i f b)"
  using assms
  by (auto simp: browser_ok_def objects_update_object list_all_length nth_list_update)

lemma object_ok_started_reader [simp]: "object_ok (started_reader f)"
  by (simp add: object_ok_def started_reader_def)

lemma objects_click_body:
  "objects (run_handler (click_body doc) b) = objects b \<or>
   (\<exists>f. objects (run_handler (click_body doc) b) = objects b @ [started_reader f])"
  by (cases rule: click_body_cases [where doc = doc and b = b])
    (auto simp: click_body_no_picker click_body_no_file click_body_not_ready
      click_body_starts_read run_handler_def)

lemma installed_ChangeHandler: "installed doc ChangeHandler \<Longrightarrow> has_fileInput doc"
  by (simp add: installed_def script_def split: if_splits)

lemma browser_ok_perform:
  assumes "browser_ok b" and "possible doc b k"
  shows "browser_ok (perform doc k b)"
proof (cases k)
  case Initialized
  with assms(1) show ?thesis by (simp add: run_runtime_body browser_ok_def)
next
  case (Changed fs)
  with assms(1) show ?thesis
    by (simp add: run_change_body installed_ChangeHandler browser_ok_def)
next
  case Clicked
  with assms(1) objects_click_body [of doc b] show ?thesis by (auto simp: browser_ok_def)
next
  case (LoadStart i)
  with assms have l: "object_loading b i" by simp
  have "browser_ok (announce i b)"
    unfolding announce_def using assms(1)
  proof (rule browser_ok_update_object)
    assume "i < length (objects b)"
    with assms(1) have "object_ok (objects b ! i)" by (simp add: browser_ok_def list_all_length)
    with l show "object_ok ((objects b ! i)\<lparr>fr_started := True\<rparr>)"
      by (simp add: object_ok_def object_loading_iff)
  qed
  with LoadStart show ?thesis by simp
next
  case (Progress i)
  with assms(1) show ?thesis by simp
next
  case (Loaded i t)
  with assms have l: "object_loading b i" and s: "object_started b i" by simp_all
  have "browser_ok (complete_read i t b)"
    unfolding complete_read_def using assms(1)
  proof (rule browser_ok_update_object)
    assume "i < length (objects b)"
    with s have "fr_started (objects b ! i)" by (simp add: object_started_def item_def)
    with object_ok_loading [OF assms(1) l]
    show "object_ok ((objects b ! i)\<lparr>ready_state := DONE, fr_result := Some t\<rparr>)"
      by (simp add: object_ok_def)
  qed
  with Loaded show ?thesis
    by (simp add: fire_load_complete_read [OF assms(1) l] browser_ok_def)
next
  case (Failed i)
  with assms have l: "object_loading b i" by simp
  have "browser_ok (fail_read i b)"
    unfolding fail_read_def using assms(1)
  proof (rule browser_ok_update_object)
    from object_ok_loading [OF assms(1) l]
    show "object_ok ((objects b ! i)\<lparr>ready_state := DONE, fr_error := True\<rparr>)"
      by (simp add: object_ok_def)
  qed
  with Failed show ?thesis
    by (simp add: fire_error_fail_read [OF assms(1) l] browser_ok_def)
qed

section \<open>Every task is a step of the page, or invisible\<close>

lemma page_of_perform:
  assumes "browser_ok b" and "possible doc b k"
  shows "page_of (perform doc k b) =
    (case event_of k of None \<Rightarrow> page_of b | Some e \<Rightarrow> dispatch_in doc e (page_of b))"
proof (cases k)
  case Initialized
  then show ?thesis by (simp add: run_runtime_body page_of_on_runtime_initialized_in)
next
  case (Changed fs)
  then show ?thesis
    by (simp add: run_change_body installed_ChangeHandler page_of_on_change_in)
next
  case Clicked
  then show ?thesis by (simp add: page_of_click_body)
next
  case (Loaded i t)
  with assms have "object_loading b i" by simp
  with Loaded assms(1) show ?thesis
    by (simp add: fire_load_complete_read page_of_reader_onload_in)
next
  case (Failed i)
  with assms have "object_loading b i" by simp
  with Failed assms(1) show ?thesis
    by (simp add: fire_error_fail_read page_of_reader_onerror_in)
qed simp_all

lemma enabled_in_event_of:
  "possible doc b k \<Longrightarrow> event_of k = Some e \<Longrightarrow> enabled_in doc (page_of b) e"
  by (cases k) auto

lemma events_of_simps [simp]:
  "events_of [] = []"
  "events_of (k # ks) = (case event_of k of None \<Rightarrow> events_of ks | Some e \<Rightarrow> e # events_of ks)"
  by (simp_all add: events_of_def List.map_filter_simps split: option.splits)

lemma events_of_append [simp]: "events_of (ks @ ks') = events_of ks @ events_of ks'"
  by (induction ks) (simp_all split: option.splits)

text \<open>A run of tasks is a run of the page.\<close>

lemma run_in_events_of:
  "browser_ok b \<Longrightarrow> perform_all doc b ks = Some b' \<Longrightarrow>
   run_in doc (page_of b) (events_of ks) = Some (page_of b') \<and> browser_ok b'"
proof (induction ks arbitrary: b)
  case Nil
  then show ?case by simp
next
  case (Cons k ks)
  from Cons.prems(2) have p: "possible doc b k" and rest: "perform_all doc (perform doc k b) ks = Some b'"
    by (auto simp: attempt_def split: if_splits)
  from Cons.prems(1) p have ok: "browser_ok (perform doc k b)" by (rule browser_ok_perform)
  note IH = Cons.IH [OF ok rest]
  show ?case
  proof (cases "event_of k")
    case None
    with page_of_perform [OF Cons.prems(1) p] IH show ?thesis by simp
  next
    case (Some e)
    with page_of_perform [OF Cons.prems(1) p] enabled_in_event_of [OF p Some] IH show ?thesis
      by (simp add: fire_in_def)
  qed
qed

section \<open>Every run of the page is a run of tasks\<close>

lemma perform_all_append:
  "perform_all doc b (ks @ ks') = Option.bind (perform_all doc b ks) (\<lambda>b'. perform_all doc b' ks')"
  by (induction ks arbitrary: b) (auto split: option.splits)

lemma object_announce:
  "object_loading (announce i b) j = object_loading b j"
  "object_loading b i \<Longrightarrow> object_started (announce i b) i"
  by (auto simp: object_loading_def object_started_def announce_def objects_update_object
      item_def nth_list_update split: if_splits)

lemma perform_all_tasks_for:
  assumes "enabled_in doc (page_of b) e"
  shows "perform_all doc b (tasks_for b e) = Some (fold (perform doc) (tasks_for b e) b)"
    and "events_of (tasks_for b e) = [e]"
  using assms by (cases e; simp add: attempt_def object_announce)+

text \<open>
  The tasks of \<open>schedule\<close> can be performed, they are the given events, and they
  leave the page that the events lead to.
\<close>

lemma perform_all_schedule:
  "browser_ok b \<Longrightarrow> run_in doc (page_of b) es = Some s' \<Longrightarrow>
   events_of (schedule doc b es) = es \<and>
   (\<exists>b'. perform_all doc b (schedule doc b es) = Some b' \<and> page_of b' = s' \<and> browser_ok b')"
proof (induction es arbitrary: b)
  case Nil
  then show ?case by simp
next
  case (Cons e es)
  let ?b = "fold (perform doc) (tasks_for b e) b"
  from Cons.prems(2) have en: "enabled_in doc (page_of b) e"
    and rest: "run_in doc (dispatch_in doc e (page_of b)) es = Some s'"
    by (auto simp: fire_in_def split: if_splits)
  note first = perform_all_tasks_for [OF en]
  from run_in_events_of [OF Cons.prems(1) first(1)] en
  have page: "page_of ?b = dispatch_in doc e (page_of b)" and ok: "browser_ok ?b"
    by (simp_all add: first(2) fire_in_def)
  from Cons.IH [OF ok] rest page obtain b' where "events_of (schedule doc ?b es) = es"
    and "perform_all doc ?b (schedule doc ?b es) = Some b'" and "page_of b' = s'"
    and "browser_ok b'"
    by auto
  with first show ?case by (simp add: perform_all_append)
qed

section \<open>Fixtures\<close>

text \<open>
  The run of \<open>retry_run\<close> with the tasks of its two reads: the first read fails
  before its first chunk, the second one ends well.
\<close>

definition retry_tasks :: "task list" where
  "retry_tasks = [Initialized, Changed [hello_txt], Clicked, Clicked, Failed 0, LoadStart 1,
     Progress 1, Loaded 1 (ascii ''hello'')]"

definition retried_browser :: browser where
  "retried_browser = \<lparr>fileInput_files = Some [hello_txt], fileNameSpan = ascii ''hello.txt'',
     logArea = file_read_line 5 @ analysis_done, resultDiv = ascii ''HELLO'', uncaught = [],
     wasm_module = upper_engine, processText = Some upper_engine,
     calls = [ascii ''hello''],
     objects = [\<lparr>reading = Some hello_txt, ready_state = DONE, fr_result = None,
                  fr_error = True, fr_onload = True, fr_onerror = True, fr_started = False\<rparr>,
                \<lparr>reading = Some hello_txt, ready_state = DONE,
                  fr_result = Some (ascii ''hello''), fr_error = False, fr_onload = True,
                  fr_onerror = True, fr_started = True\<rparr>]\<rparr>"

lemma browser_ok_browser_load [simp]: "browser_ok (browser_load g)"
  by (simp add: browser_ok_def browser_load_def)

lemma page_of_retried_browser [simp]: "page_of retried_browser = retried_page"
  by (simp add: page_of_def retried_browser_def retried_page_def reader_of_def)

lemma events_of_retry_tasks [simp]: "events_of retry_tasks = retry_run"
  by (simp add: retry_tasks_def retry_run_def)

lemmas task_defs = attempt_def object_loading_def object_started_def announce_def
  complete_read_def fail_read_def fire_load_def fire_error_def update_object_def
  run_handler_def body_defs stmt_defs fresh_reader_def browser_load_def installed_def
  script_def document_defs item_def surface_defs set_processText_def cwrap_def invoke_def
  hello_txt_def

lemma perform_retry_tasks:
  "perform_all full_document (browser_load upper_engine) retry_tasks = Some retried_browser"
  by (simp add: retry_tasks_def retried_browser_def task_defs upper_engine_def upper_unit_def
      ascii_def)

lemma schedule_retry_run:
  "schedule full_document (browser_load upper_engine) retry_run =
     [Initialized, Changed [hello_txt], Clicked, Clicked, Failed 0, LoadStart 1,
      Loaded 1 (ascii ''hello'')]"
  by (simp add: retry_run_def task_defs)

section \<open>What the tasks promise\<close>

text \<open>
  C16 (refinement). The page is what the browser shows of its state: every run of
  tasks, with the events that the script has no callback for, with the callbacks taken
  from the readers and the text taken from the result of the event's target, is a run
  of the page on the events that the tasks deliver, and it ends in the same page.
\<close>

theorem tasks_refine_events:
  assumes "browser_ok b" and "perform_all doc b ks = Some b'"
  shows "run_in doc (page_of b) (events_of ks) = Some (page_of b')"
  using run_in_events_of [OF assms] by simp

theorem tasks_refine_events_witness:
  "browser_ok (browser_load upper_engine) \<and>
   perform_all full_document (browser_load upper_engine) retry_tasks = Some retried_browser \<and>
   events_of retry_tasks = retry_run \<and>
   run_in full_document (page_load upper_engine) retry_run = Some retried_page"
  using tasks_refine_events [OF browser_ok_browser_load perform_retry_tasks] perform_retry_tasks
  by simp

text \<open>
  C28 (refinement). Nothing is lost in the page: every run of the page is delivered by a
  run of tasks, in which each read that ends well has fired its \<^verbatim>\<open>loadstart\<close>
  before, and that run of tasks ends in a state of the browser that shows the page of
  the run.
\<close>

theorem events_are_tasks:
  assumes "browser_ok b" and "run_in doc (page_of b) es = Some s'"
  shows "\<exists>b'. perform_all doc b (schedule doc b es) = Some b' \<and> page_of b' = s' \<and>
    events_of (schedule doc b es) = es"
  using perform_all_schedule [OF assms] by blast

theorem events_are_tasks_witness:
  "browser_ok (browser_load upper_engine) \<and>
   run_in full_document (page_load upper_engine) retry_run = Some retried_page \<and>
   schedule full_document (browser_load upper_engine) retry_run =
     [Initialized, Changed [hello_txt], Clicked, Clicked, Failed 0, LoadStart 1,
      Loaded 1 (ascii ''hello'')] \<and>
   (\<exists>b'. perform_all full_document (browser_load upper_engine)
       [Initialized, Changed [hello_txt], Clicked, Clicked, Failed 0, LoadStart 1,
        Loaded 1 (ascii ''hello'')] = Some b' \<and> page_of b' = retried_page)"
proof -
  have r: "run_in full_document (page_of (browser_load upper_engine)) retry_run = Some retried_page"
    by (simp add: run_complete run_retry_run)
  then have r': "run_in full_document (page_load upper_engine) retry_run = Some retried_page"
    by simp
  from events_are_tasks [OF browser_ok_browser_load r]
  have "\<exists>b'. perform_all full_document (browser_load upper_engine)
       [Initialized, Changed [hello_txt], Clicked, Clicked, Failed 0, LoadStart 1,
        Loaded 1 (ascii ''hello'')] = Some b' \<and> page_of b' = retried_page"
    unfolding schedule_retry_run by blast
  with r' schedule_retry_run browser_ok_browser_load show ?thesis by blast
qed

text \<open>
  C29 (invariant). From the load of the page on, every reader holds both callbacks of
  the script, was started on a file, and has a result exactly if its read has ended
  without an error: lines 52 and 69 run before line 73 for every reader, so no end of
  a read goes unnoticed, and line 53 never reads \<^verbatim>\<open>null\<close> in a load callback.
\<close>

theorem readers_hold_callbacks:
  assumes "objects b = []" and "perform_all doc b ks = Some b'"
  shows "list_all (\<lambda>r. fr_onload r \<and> fr_onerror r \<and> reading r \<noteq> None \<and> ready_state r \<noteq> EMPTY \<and>
    (fr_result r \<noteq> None) = (ready_state r = DONE \<and> \<not> fr_error r)) (objects b')"
proof -
  from assms(1) have "browser_ok b" by (simp add: browser_ok_def)
  with assms(2) have "browser_ok b'" by (auto dest: run_in_events_of)
  moreover have "fr_onload r \<and> fr_onerror r \<and> reading r \<noteq> None \<and> ready_state r \<noteq> EMPTY \<and>
    (fr_result r \<noteq> None) = (ready_state r = DONE \<and> \<not> fr_error r)" if "object_ok r" for r
    using that by (cases "ready_state r") (auto simp: object_ok_def)
  ultimately show ?thesis by (simp add: browser_ok_def list_all_iff)
qed

theorem readers_hold_callbacks_witness:
  "objects (browser_load upper_engine) = [] \<and>
   perform_all full_document (browser_load upper_engine) retry_tasks = Some retried_browser \<and>
   map fr_onload (objects retried_browser) = [True, True] \<and>
   map fr_onerror (objects retried_browser) = [True, True] \<and>
   map fr_result (objects retried_browser) = [None, Some (ascii ''hello'')] \<and>
   map fr_error (objects retried_browser) = [True, False]"
proof -
  have e: "objects (browser_load upper_engine) = []" by (simp add: browser_load_def)
  from readers_hold_callbacks [OF e perform_retry_tasks] e perform_retry_tasks show ?thesis
    by (simp add: retried_browser_def)
qed

text \<open>
  C17 (safety). On a complete document the safety of the page is the safety of the
  browser: after any tasks from the load, the page that the browser shows is a
  reachable page, the engine has been called with exactly the texts that the reads
  delivered, in their order, and no callback has read or called \<^verbatim>\<open>null\<close> or started
  a busy reader.
\<close>

theorem tasks_are_safe:
  assumes "complete doc" and "initial (page_of b)" and "perform_all doc b ks = Some b'"
  shows "reachable (page_of b') \<and> calls b' = loads (events_of ks) \<and>
    TypeError \<notin> set (uncaught b') \<and> InvalidStateError \<notin> set (uncaught b')"
proof -
  from assms(2) have "objects b = []" by (simp add: initial_def)
  then have "browser_ok b" by (simp add: browser_ok_def)
  with assms(3) have "run_in doc (page_of b) (events_of ks) = Some (page_of b')"
    by (auto dest: run_in_events_of)
  with assms(1) have r: "run (page_of b) (events_of ks) = Some (page_of b')"
    by (simp add: run_complete)
  from assms(2) have i: "reachable (page_of b)" by (rule reachable.init)
  then have reach: "reachable (page_of b')" using r by (rule run_reachable)
  from calls_run [OF i r] assms(2) have "calls b' = loads (events_of ks)"
    by (simp add: initial_def)
  moreover from reach have "only_engine_failures (page_of b')"
    by (auto dest: reachable_page_inv simp: page_inv_def)
  ultimately show ?thesis using reach by (auto simp: only_engine_failures_def list_all_iff)
qed

theorem tasks_are_safe_witness:
  "complete full_document \<and> initial (page_of (browser_load upper_engine)) \<and>
   perform_all full_document (browser_load upper_engine) retry_tasks = Some retried_browser \<and>
   reachable retried_page \<and> calls retried_browser = [ascii ''hello''] \<and>
   loads retry_run = [ascii ''hello''] \<and> uncaught retried_browser = []"
proof -
  have i: "initial (page_of (browser_load upper_engine))" by simp
  note safe = tasks_are_safe [OF complete_full_document i perform_retry_tasks]
  then have "reachable retried_page" by simp
  moreover from safe have "loads retry_run = [ascii ''hello'']"
    by (simp add: retried_browser_def)
  ultimately show ?thesis using i perform_retry_tasks by (simp add: retried_browser_def)
qed

end
