(* ===== verification/Snapshots.thy ===== *)
theory Snapshots
  imports Files
begin

text \<open>
  Files that change while the page is open. A \<^verbatim>\<open>File\<close> object stands for the content
  that the file had when it was selected; the File API lets a read of it end well only
  with that content, and makes the read fail when the file has been modified or removed
  since. So the disk of \<open>Files\<close> changes in one way only: files are lost to the page.
  The theory gives the runs in which files are lost between the events, and shows that
  the engine still only sees what the selected files held when they were selected, and
  that a file lost during its read ends the attempt with the failure notice.
\<close>

section \<open>Disks that lose files\<close>

text \<open>The disk after the files with the handles \<open>gone\<close> have been modified or removed.\<close>

definition forget :: "nat list \<Rightarrow> disk \<Rightarrow> disk" where
  "forget gone d = (\<lambda>b. if b \<in> set gone then None else d b)"

text \<open>
  A run in which the files \<open>gone\<close> are lost before the event that they are paired
  with, and every read ends as the disk of that moment says.
\<close>

fun honest_while :: "disk \<Rightarrow> page \<Rightarrow> (nat list \<times> event) list \<Rightarrow> bool" where
  "honest_while d s [] \<longleftrightarrow> True"
| "honest_while d s ((gone, e) # ges) \<longleftrightarrow>
     honest (forget gone d) s e \<and>
     (case fire s e of None \<Rightarrow> False | Some s' \<Rightarrow> honest_while (forget gone d) s' ges)"

section \<open>What a lost file changes\<close>

lemma forget_Nil [simp]: "forget [] d = d"
  by (simp add: forget_def)

lemma forget_forget: "forget gone' (forget gone d) = forget (gone @ gone') d"
  by (auto simp: forget_def fun_eq_iff)

lemma forget_eq_Some: "forget gone d b = Some bs \<longleftrightarrow> b \<notin> set gone \<and> d b = Some bs"
  by (simp add: forget_def)

lemma forget_gone [simp]: "b \<in> set gone \<Longrightarrow> forget gone d b = None"
  by (simp add: forget_def)

text \<open>What can still be read is what the disk held before.\<close>

lemma from_disk_forget: "from_disk (forget gone d) fs t \<Longrightarrow> from_disk d fs t"
  by (auto simp: from_disk_iff forget_eq_Some)

text \<open>A run on a disk that loses nothing is an honest run of \<open>Files\<close>.\<close>

lemma honest_while_constant: "honest_while d s (map (Pair []) es) = honest_run d s es"
  by (induction es arbitrary: s) (auto split: option.splits)

section \<open>The calls of the engine\<close>

text \<open>
  The invariant is kept relative to the disk at the load of the page, while the run goes
  on over the disks that are left of it.
\<close>

lemma calls_from_disk_while:
  "reachable s \<Longrightarrow> calls_from_disk d s \<Longrightarrow> honest_while (forget lost d) s ges \<Longrightarrow>
   run s (map snd ges) = Some s' \<Longrightarrow> calls_from_disk d s'"
proof (induction ges arbitrary: s lost)
  case Nil
  then show ?case by simp
next
  case (Cons ge ges)
  obtain gone e where ge: "ge = (gone, e)" by (cases ge)
  let ?d = "forget (lost @ gone) d"
  from Cons.prems(4) ge obtain u where u: "page_step s e u"
    and rest: "run u (map snd ges) = Some s'"
    by (auto simp: page_step_iff_fire split: option.splits)
  from u Cons.prems(3) ge have h: "honest ?d s e" "honest_while ?d u ges"
    by (simp_all add: page_step_iff_fire forget_forget)
  from Cons.prems(1) have "ready_before_read s"
    by (auto dest: reachable_page_inv simp: page_inv_def)
  with u have c: "calls u = calls s @ loads [e]" by (rule calls_step)
  from u obtain fs where f: "read_files u = read_files s @ fs"
    by (auto dest: read_files_step)
  have "from_disk d (read_files s) t" if "t \<in> set (loads [e])" for t
    using that h(1) by (cases e) (auto dest: read_outcome_Load from_disk_forget)
  with Cons.prems(2) have "calls_from_disk d u"
    by (auto simp: calls_from_disk_def c f list_all_iff intro: from_disk_append)
  with Cons.prems(1) u have "reachable u" and "calls_from_disk d u"
    by (auto intro: reachable.step)
  then show ?case using h(2) rest by (rule Cons.IH)
qed

lemma calls_from_snapshots:
  assumes "initial s0" and "honest_while d s0 ges" and "run s0 (map snd ges) = Some s"
  shows "calls_from_disk d s"
proof -
  from assms(1) have "reachable s0" by (rule reachable.init)
  moreover from assms(1) have "calls_from_disk d s0"
    by (simp add: calls_from_disk_def initial_def)
  moreover from assms(2) have "honest_while (forget [] d) s0 ges" by simp
  ultimately show ?thesis using assms(3) by (rule calls_from_disk_while)
qed

section \<open>A file that is lost during its read\<close>

lemma honest_while_click_lost:
  assumes "fileInput_files s = Some (f # fs)" and "processText s = Some g"
    and "forget gone d (file_blob f) = None"
  shows "honest_while d s [([], Click), (gone, Error (length (readers s)))]"
    and "\<not> honest_while d s [([], Click), (gone, Load (length (readers s)) t)]"
  using assms loading_after_click [OF assms(1,2)]
  by (simp_all add: read_outcome_after_click fire_def)

section \<open>Fixtures\<close>

text \<open>
  The file \<open>hello_txt\<close> is read once while it is as it was selected, then it is
  modified, and a second read of it fails.
\<close>

definition lost_run :: "(nat list \<times> event) list" where
  "lost_run = [([], RuntimeInitialized), ([], Change [hello_txt]), ([], Click), ([], Click),
     ([], Load 0 (ascii ''hello'')), ([0], Error 1)]"

definition lost_page :: page where
  "lost_page = \<lparr>fileInput_files = Some [hello_txt], fileNameSpan = ascii ''hello.txt'',
     logArea = read_failed, resultDiv = ascii ''HELLO'', uncaught = [],
     wasm_module = upper_engine, processText = Some upper_engine,
     calls = [ascii ''hello''],
     readers = [\<lparr>reading = Some hello_txt, ready_state = DONE\<rparr>,
                \<lparr>reading = Some hello_txt, ready_state = DONE\<rparr>]\<rparr>"

lemma run_lost_run: "run (page_load upper_engine) (map snd lost_run) = Some lost_page"
  by (simp add: lost_run_def lost_page_def run_defs upper_engine_def upper_unit_def ascii_def)

lemma honest_lost_run: "honest_while hello_disk (page_load upper_engine) lost_run"
  by (simp add: lost_run_def hello_disk_def forget_def read_outcome_def text_of_hello run_defs
      upper_engine_def upper_unit_def ascii_def)

section \<open>What the snapshots promise\<close>

text \<open>
  C13 (safety). Files may be modified or removed at any moment of a run. When every
  read ends as the disk of its moment says, every text that the engine is called with
  is the decoded content that a file had at the load of the page, and a click started
  a reader on that file: a modified file never reaches the engine, neither with its
  new content nor with a mixture.
\<close>

theorem engine_sees_snapshots:
  assumes "initial s0" and "honest_while d s0 ges" and "run s0 (map snd ges) = Some s"
  shows "\<forall>t \<in> set (calls s). \<exists>f bs. Some f \<in> set (read_files s) \<and>
    d (file_blob f) = Some bs \<and> t = text_of_bytes bs"
  using calls_from_snapshots [OF assms]
  by (simp add: calls_from_disk_def from_disk_iff list_all_iff)

theorem engine_sees_snapshots_witness:
  "initial (page_load upper_engine) \<and> honest_while hello_disk (page_load upper_engine) lost_run \<and>
   run (page_load upper_engine) (map snd lost_run) = Some lost_page \<and>
   calls lost_page = [ascii ''hello''] \<and> logArea lost_page = read_failed \<and>
   (\<exists>f bs. Some f \<in> set (read_files lost_page) \<and> hello_disk (file_blob f) = Some bs \<and>
      ascii ''hello'' = text_of_bytes bs)"
proof -
  have c: "calls lost_page = [ascii ''hello'']" "logArea lost_page = read_failed"
    by (simp_all add: lost_page_def)
  then have "ascii ''hello'' \<in> set (calls lost_page)" by simp
  with engine_sees_snapshots [OF initial_page_load honest_lost_run run_lost_run]
  have "\<exists>f bs. Some f \<in> set (read_files lost_page) \<and> hello_disk (file_blob f) = Some bs \<and>
      ascii ''hello'' = text_of_bytes bs"
    by blast
  with c honest_lost_run run_lost_run show ?thesis by simp
qed

text \<open>
  C31 (error path). A file that cannot be read when its read ends, because it never
  could or because it was modified or removed while the read was in flight, ends the
  attempt with the failure notice: the read cannot end well, its error callback
  replaces the log, the engine is not called, and the selection and the result stay as
  they were.
\<close>

theorem lost_file_reports_error:
  assumes "fileInput_files s = Some (f # fs)" and "processText s = Some g"
    and "forget gone d (file_blob f) = None"
  shows "honest_while d s [([], Click), (gone, Error (length (readers s)))] \<and>
    \<not> honest_while d s [([], Click), (gone, Load (length (readers s)) t)] \<and>
    run s [Click, Error (length (readers s))] =
      Some (s\<lparr>logArea := read_failed,
        readers := readers s @ [\<lparr>reading = Some f, ready_state = DONE\<rparr>]\<rparr>)"
  using honest_while_click_lost [OF assms] assms(1,2)
  by (simp add: fire_def eval_defs)

theorem lost_file_reports_error_witness:
  "honest_while hello_disk (picked_page upper_engine) [([], Click), ([0], Error 0)] \<and>
   \<not> honest_while hello_disk (picked_page upper_engine) [([], Click), ([0], Load 0 (ascii ''hello''))] \<and>
   honest_while hello_disk (picked_page upper_engine) [([], Click), ([], Load 0 (ascii ''hello''))] \<and>
   (\<exists>s'. run (picked_page upper_engine) [Click, Error 0] = Some s' \<and> logArea s' = read_failed \<and>
      calls s' = [] \<and> fileInput_files s' = Some [hello_txt])"
proof -
  have p: "fileInput_files (picked_page upper_engine) = Some (hello_txt # [])"
    "processText (picked_page upper_engine) = Some upper_engine"
    "readers (picked_page upper_engine) = []" "calls (picked_page upper_engine) = []"
    by (simp_all add: eval_defs)
  have g: "forget [0] hello_disk (file_blob hello_txt) = None" by (simp add: hello_txt_def)
  have "honest_while hello_disk (picked_page upper_engine) [([], Click), ([], Load 0 (ascii ''hello''))]"
    by (simp add: hello_disk_def read_outcome_def text_of_hello fire_def eval_defs)
  with lost_file_reports_error [OF p(1,2) g, of "ascii ''hello''"] show ?thesis
    by (simp add: p)
qed

end
