(* ===== verification/Spec2Isabelle.thy ===== *)
theory Spec2Isabelle
  imports Session Orders Cwrap Tasks Snapshots
begin

text \<open>
  \<^bold>\<open>A verification development for the text-analyzer front end\<close>
  (\<^verbatim>\<open>src/script.js\<close>, 73 lines, the whole repository).

  \<^bold>\<open>The program.\<close> A page script that lets the user pick a local file, reads it as
  text with a \<^verbatim>\<open>FileReader\<close>, hands the text to a compiled engine
  (\<^verbatim>\<open>process_text\<close>, wrapped by \<^verbatim>\<open>Module.cwrap\<close>) and shows the engine's
  answer. Its state is one global (\<^verbatim>\<open>processText\<close>, \<^verbatim>\<open>null\<close> until the
  engine has started) and the text of three elements of the page. Its code is five
  event handlers; everything else happens in the browser, between the handlers. The
  components of the specification are aspects of these handlers, and the theories
  follow them.

  \<^bold>\<open>Theories, in import order, and what each models.\<close>
  \<^item> \<open>Prelude\<close>: the theorem collections (\<open>surface_defs\<close>, \<open>handler_defs\<close>,
    \<open>msg_defs\<close>, \<open>frame\<close>), JavaScript errors (\<open>js_error\<close>) and completions of a
    call that may throw (\<open>completion\<close>), indexing that yields \<^verbatim>\<open>undefined\<close> out of
    range (\<open>item\<close>), counting lemmas on lists, the arithmetic of masks and shifts.
  \<^item> \<open>JsString\<close>: strings as lists of UTF-16 code units (\<open>16 word\<close>), so that
    \<^verbatim>\<open>text.length\<close> is \<open>length\<close>; the decimal rendering of the template literal
    of line 58 (\<open>js_of_nat\<close>) with a reference parser (\<open>nat_of_js\<close>). Lemmas:
    digits only, round trip, injectivity, number of digits.
  \<^item> \<open>Messages\<close>: the eight string literals of the script, code unit by code unit
    (lines 19, 30-31, 41, 46, 58, 66, 70), and the reading of a length back from the
    log line (\<open>reported_length\<close>). Lemmas: the messages are pairwise different and
    end their line.
  \<^item> \<open>Dom\<close> (FeedbackPresenter, and the data of FileSelectionTracker): the record
    \<open>dom\<close> of the surfaces found in lines 6-12 and the writes to them
    (\<open>log_write\<close>, \<open>log_append\<close>, \<open>show_result\<close>, \<open>show_file_name\<close>), the
    list of uncaught exceptions (\<open>throw\<close>). Lemmas: what each write changes, what it
    leaves alone, how writes to the log compose.
  \<^item> \<open>Engine\<close> (EngineReadinessTracker and AnalysisInvoker): the record \<open>wasm\<close>
    extends \<open>dom\<close> by the global \<open>processText\<close> of line 2, the module's engine
    and the list of calls made; \<open>cwrap\<close> (line 27), \<open>engine_ready\<close> (line 45),
    \<open>invoke\<close> (line 61).
  \<^item> \<open>FileReader\<close> (FileIngestor): the record \<open>page\<close> extends \<open>wasm\<close> by the
    readers; \<open>new_FileReader\<close> (line 50), \<open>readAsText\<close> (line 73), and the
    browser's \<open>finish_read\<close>; the states of a reader with their order
    (\<open>ready_state\<close>, \<open>state_value\<close>). Lemmas: a new reader starts without an
    exception, a read that has ended is not loading, counts of reads in flight and
    ended.
  \<^item> \<open>Handlers\<close> (PipelineController): \<open>on_change\<close> (lines 15-21),
    \<open>on_runtime_initialized\<close> (26-32), \<open>on_click\<close> (37-74), \<open>reader_onload\<close>
    (52-67), \<open>reader_onerror\<close> (69-71). Lemmas: the result of each handler on each
    branch as one record update, case rules for the branches, the fields left alone;
    then the promises of the handlers as theorems with witnesses.
  \<^item> \<open>EventLoop\<close>: the events that the browser delivers (\<open>event\<close>), the handler
    of each (\<open>dispatch\<close>), which events can occur (\<open>enabled\<close>), one step
    (\<open>fire\<close>, and the relation \<open>page_step\<close>), runs (\<open>run\<close>), the page after
    the script has run (\<open>initial\<close>) and the reachable pages (\<open>reachable\<close>).
    Lemmas: the relation and the function agree; the invariant \<open>page_inv\<close> and its
    five parts, each kept by every step; the calls of the engine along a run; the life
    of a reader; counts of reads and calls.
  \<^item> \<open>Session_Spec\<close>: the state machine of section 4.6 of the specification,
    modelled from its words (\<open>phase\<close>, \<open>trigger\<close>, \<open>spec_step\<close>, \<open>spec_next\<close>,
    \<open>spec_run\<close>), the phase of a page (\<open>phase_of\<close>), the triggers of an event
    (\<open>triggers\<close>) and the situations that the specification covers (\<open>specified\<close>,
    \<open>disciplined\<close>). Lemmas: every specified step of the page is a run of the machine
    (\<open>step_simulation\<close>); theorems: the same for runs, and the three situations in
    which the page does something that the machine has no transition for.
  \<^item> \<open>Display\<close>: what the three surfaces show in a reachable page. The six texts
    that the handlers write to the log (\<open>report\<close>, \<open>report_text\<close>), a reference
    reading of a log (\<open>read_report\<close>) and what each report says of the page
    (\<open>report_holds\<close>); the answers of the calls made so far (\<open>answers\<close>) and the
    latest of them (\<open>last_answer\<close>); the name that lines
    16-20 show (\<open>shown_name\<close>). Lemmas: each of the three properties is kept by
    every step.
  \<^item> \<open>Session\<close>: the session of section 3 of the specification as a record
    (\<open>session\<close>), the operations of sections 4.1 to 4.5 (\<open>markReady\<close>,
    \<open>onFilePicked\<close>, \<open>append_line\<close>, \<open>reset\<close>, \<open>showResult\<close>), what the
    pipeline does on a request and at the end of a read (\<open>analyzeRequested\<close>,
    \<open>readCompleted\<close>), the session after an event and along a run
    (\<open>session_step\<close>, \<open>session_run\<close>), and the relation between a page and a
    session (\<open>implements\<close>, \<open>shows_log\<close>). Lemmas: every step of the page in
    which the engine starts for the first time or answers without throwing keeps the
    relation; the log of the session only grows between attempts; an engine failure
    breaks the relation.
  \<^item> \<open>Decode\<close>: the text that the browser makes of the bytes of a file for the
    label \<^verbatim>\<open>utf-8\<close> of line 73 (\<open>text_of_bytes\<close>), after the Encoding
    Standard: the byte
    order mark (\<open>bom_sniff\<close>, \<open>decode\<close>), the UTF-8 decoder as a handler for one
    byte and its run over the bytes (\<open>utf8_handler\<close>, \<open>utf8_decode\<close>), the same
    for UTF-16 (\<open>utf16_handler\<close>, \<open>utf16_decode\<close>), and the code units of a code
    point (\<open>units_of\<close>). Lemmas: both decoders terminate; the text has at most as many
    code units as the file has bytes, and exactly as many for ASCII; examples.
  \<^item> \<open>Scalar\<close>: the scalar values (\<open>scalar\<close>), well-formed strings
    (\<open>well_formed\<close>) and the code points of a string (\<open>points_of\<close>).
    Lemmas: an invariant of each decoder under which it emits scalar values only; the code points
    of the string of scalar values are these values.
  \<^item> \<open>Encode\<close>: the UTF-8 encoder of the Encoding Standard (\<open>utf8_count\<close>,
    \<open>utf8_offset\<close>, \<open>utf8_first\<close>, \<open>utf8_tail\<close>, \<open>utf8_bytes\<close>,
    \<open>utf8_encode\<close>). Lemmas: the decoder run on the bytes of a scalar value, in
    front of any bytes, emits that value; the byte order mark at the start of encoded
    bytes.
  \<^item> \<open>Files\<close>: a disk behind the picker (\<open>disk\<close>), the event that ends a read on
    it (\<open>read_outcome\<close>) and the runs in which every read ends that way
    (\<open>honest\<close>, \<open>honest_run\<close>). Lemmas: in such runs the engine is only called
    with decoded contents of files that readers were started on.
  \<^item> \<open>Snapshots\<close>: disks that lose files while the page is open (\<open>forget\<close>) and
    the runs in which every read ends as the disk of its moment says
    (\<open>honest_while\<close>). Lemmas: what can still be read is what the disk held at the
    load; a file that is gone when its read ends gives the error callback.
  \<^item> \<open>Settle\<close>: the reads in flight running to their end, as a loop over the page
    (\<open>next_loading\<close>, \<open>next_end\<close>, \<open>settle_step\<close>, \<open>settle\<close>, written
    with \<open>while_option\<close>). Lemmas: one turn of the loop is an honest step of the
    page that ends one read; the loop stops; any run of read endings is as long as the
    number of reads that it ends.
  \<^item> \<open>Orders\<close>: the texts that the reads in flight will yield
    (\<open>pending_text\<close>, \<open>pending_texts\<close>), as multisets. Lemmas: a read that ends
    moves its text from the texts to come to the calls made, so their union is the
    same after any run of read endings.
  \<^item> \<open>Cwrap\<close>: the wrapper that \<^verbatim>\<open>Module.cwrap\<close> returns for the type names
    of line 27 (\<open>wrapped\<close>), over a compiled function that maps bytes to a
    pointer, null or with bytes at it (\<open>c_engine\<close>), after the glue code, which
    is not under \<^verbatim>\<open>src/\<close>: the text written as UTF-8 (\<open>stringToUTF8\<close>), read as a C string
    (\<open>c_string\<close>, \<open>argument\<close>), and the answer decoded (\<open>UTF8ToString\<close>);
    files that are well-formed UTF-8 (\<open>valid_utf8\<close>, \<open>utf8_files\<close>). Lemmas:
    the bytes written for the text of such a file are the file without its mark; only
    U+0000 gives a zero byte; one to three bytes are written for a code unit.
  \<^item> \<open>Script\<close>: the top-level statements of the script on a document that may lack
    an element or the module (\<open>document\<close>, \<open>script\<close>, \<open>installed\<close>), the five
    handlers with the exception of a write to a missing surface (\<open>on_change_in\<close>,
    \<open>on_runtime_initialized_in\<close>, \<open>on_click_in\<close>, \<open>reader_onload_in\<close>,
    \<open>reader_onerror_in\<close>) and the events on such a document (\<open>dispatch_in\<close>,
    \<open>enabled_in\<close>, \<open>run_in\<close>, \<open>loaded\<close>). Lemmas: on a complete document they
    are the handlers and events of the theories above; what a missing log and a script
    that threw lead to.
  \<^item> \<open>Statements\<close>: the handlers statement by statement. A statement ends with a
    value, with \<^verbatim>\<open>return\<close> or with an exception (\<open>flow\<close>), and keeps the state
    in all three cases; statements are composed in the order of the source
    (\<open>andthen\<close>, \<open>if_then\<close>, \<open>return_stmt\<close>, \<open>throw_stmt\<close>,
    \<open>member\<close>, \<open>write_text\<close>), and the browser calls a body
    (\<open>run_handler\<close>). One definition for each statement of lines 15-71
    (\<open>has_first_file\<close>, \<open>show_selected_name\<close>, \<open>assign_processText\<close>,
    \<open>clear_log\<close>, \<open>report_length\<close>, \<open>call_processText\<close>,
    \<open>display_result\<close>, \<open>guard_file\<close>, \<open>guard_engine\<close>, ...) and one for
    each body (\<open>change_body\<close>, \<open>runtime_body\<close>, \<open>onload_body\<close>,
    \<open>onerror_body\<close>). Lemmas: the laws of the composition; the call of each body is
    the handler of \<open>Script\<close>.
  \<^item> \<open>FileApi\<close>: the \<^verbatim>\<open>FileReader\<close> objects with the attributes that the
    script uses (\<open>reader_object\<close>: the callbacks of lines 52 and 69, the result
    that line 53 reads), the state of the browser that holds them (\<open>browser\<close>), the
    statements of lines 50-73 on it (\<open>new_reader\<close>, \<open>assign_onload\<close>,
    \<open>assign_onerror\<close>, \<open>start_read\<close>), the body of the click handler
    (\<open>click_body\<close>) and the page that a state of the browser shows
    (\<open>page_of\<close>). Lemmas: every handler commutes with \<open>page_of\<close>; how the
    click body and the load body end.
  \<^item> \<open>Tasks\<close>: the tasks that the browser runs (\<open>task\<close>): the events of the
    user and of the module, and for each read \<^verbatim>\<open>loadstart\<close>, \<^verbatim>\<open>progress\<close>
    and the end with \<^verbatim>\<open>load\<close> or \<^verbatim>\<open>error\<close> (\<open>announce\<close>,
    \<open>complete_read\<close>, \<open>fail_read\<close>, \<open>fire_load\<close>, \<open>fire_error\<close>), their
    order (\<open>possible\<close>), runs (\<open>perform\<close>, \<open>perform_all\<close>), the event of
    \<open>EventLoop\<close> that a task delivers (\<open>event_of\<close>) and the tasks that deliver
    given events (\<open>tasks_for\<close>, \<open>schedule\<close>). Lemmas: the invariant
    \<open>browser_ok\<close> of the readers; every task is a step of the page or invisible on
    it; every run of the page is delivered by a run of tasks.
  \<^item> \<open>Spec2Isabelle\<close> (this theory): whole attempts as one update
    (\<open>run_click_load\<close>, \<open>run_click_error\<close>), the scenarios of section 8 of the
    specification, stated for every reachable page, attempts on the files of a disk,
    an attempt through the wrapper, and the composition of the three levels of the
    model with the session of the specification.

  \<^bold>\<open>How the model corresponds to the code.\<close> A handler is a total function from the
  page before the event to the page after it. Assignments to \<^verbatim>\<open>textContent\<close> are
  record updates; \<^verbatim>\<open>+=\<close> appends. \<^verbatim>\<open>null\<close> is \<open>None\<close>, \<^verbatim>\<open>undefined\<close>
  from indexing is \<open>None\<close> of \<open>item\<close>. An exception that nothing catches ends the
  handler where it is raised and is appended to the field \<open>uncaught\<close>; the writes
  made before it stay. Two fields are not variables of the script but records of what
  it did: \<open>uncaught\<close>, and \<open>calls\<close>, the texts passed to the engine, oldest first.
  The engine is a parameter: a function from the earlier calls and the text to a
  returned string or an exception, so that an engine with internal state is covered.
  The browser's part is the choice of the next event; a read ends with \<open>Load\<close> or
  \<open>Error\<close> only for a reader that is loading. In \<open>EventLoop\<close> the text that a
  \<open>Load\<close> carries is the browser's choice, so the theorems there hold for every
  text; in \<open>Files\<close> it is the decoded content of the reader's file.

  The development has the script at three levels, each proved to be the next one seen
  from further away. \<open>Tasks\<close>, \<open>FileApi\<close> and \<open>Statements\<close> follow the source
  line by line: the state holds the reader objects with their callbacks and results,
  a handler is the composition of its statements, and the browser runs the tasks of
  the File API. \<open>Script\<close> has each handler as one function on a document that may
  lack elements. \<open>Handlers\<close> and \<open>EventLoop\<close> have them on a complete document,
  with the five events that reach the script. The properties are proved at the level
  where they are simplest and hold one level down by the refinement theorems.

  \<^bold>\<open>What the theorems show.\<close>
  \<^item> The handlers: the click on each guard, the missing file first and the engine
    second (\<open>click_without_file\<close>, \<open>click_before_ready\<close>,
    \<open>click_starts_one_read\<close>); the end of a read (\<open>load_displays_result\<close>,
    \<open>load_engine_throws\<close>, \<open>read_error_reported\<close>); the selection
    (\<open>change_shows_name\<close>) and the start of the engine
    (\<open>runtime_initialized_idempotent\<close>).
  \<^item> Safety of the whole page: no handler ever reads or calls \<^verbatim>\<open>null\<close>
    (\<open>no_null_failure\<close>), although line 61 calls \<^verbatim>\<open>processText\<close> without a
    test; the engine is called with exactly the texts of the reads that ended well
    (\<open>engine_calls_are_loads\<close>); a read ends once (\<open>reader_ends_once\<close>) and a
    reader keeps its file (\<open>reader_keeps_file\<close>); reads and calls add up
    (\<open>reads_accounting\<close>); an engine that never throws leaves nothing uncaught
    (\<open>quiet_engine_no_uncaught\<close>).
  \<^item> What the user sees: the log is always one of six reports, and the report is true
    of the page (\<open>log_is_truthful\<close>, \<open>report_read_back\<close>); the result area
    shows the engine's answer to the latest call that returned
    (\<open>result_is_last_answer\<close>); the file-name span names the selection
    (\<open>name_follows_selection\<close>).
  \<^item> Attempts: from every reachable page an attempt ends with the answer on display
    (\<open>displayed_after_click_and_load\<close>), also after a failed read
    (\<open>read_failure_then_retry\<close>); the file of an attempt is the one selected at the
    click (\<open>second_pick_wins\<close>, \<open>selection_captured_at_click\<close>); the round
    trip of the specification for every file of plain ASCII, where the number in the
    log is the size of the file (\<open>ascii_file_round_trip\<close>).
  \<^item> Files: the engine is only called with the decoded content of files that were
    selected at a click (\<open>engine_sees_file_contents\<close>); an attempt on a readable
    file shows the answer for its content and reports the length of the decoded text,
    which is at most the size of the file (\<open>file_attempt_displays\<close>) and is not the
    size in general (\<open>length_label_counts_code_units\<close>); an attempt on an unreadable
    file ends with the failure notice (\<open>unreadable_file_reports_error\<close>).
  \<^item> The wrapper: the text of a load is always a well-formed string
    (\<open>loaded_text_well_formed\<close>), and a file that is well-formed UTF-8 is read as
    the code points that it encodes (\<open>utf8_round_trip\<close>); so the compiled function
    receives the bytes of the file, without the mark and up to the first zero byte
    (\<open>engine_receives_file_bytes\<close>, \<open>file_through_the_wrapper\<close>). A text with
    U+0000 is cut there without notice (\<open>zero_cuts_the_argument\<close>). The number that
    the log labels bytes bounds the size of the file and of the argument from below
    (\<open>wrapper_writes_bounded\<close>).
  \<^item> Termination: the script has no loop, and the only thing that it waits for is
    the end of a read. From every reachable page the reads in flight end after as many
    callbacks as there are reads (\<open>settle_halts\<close>).
  \<^item> The document: without the log element, or when the script is ended by an
    exception, nothing is ever analysed (\<open>missing_log_never_analyses\<close>,
    \<open>aborted_script_never_analyses\<close>). That the script installs its three
    handlers on a complete document, and that its page is then the page of the event
    loop, are lemmas (\<open>script_complete\<close>, \<open>loaded_complete\<close>,
    \<open>run_complete\<close>): they connect the theories and state nothing of the page.
  \<^item> The levels of the model: the click handler and the load callback end with an
    exception or an early return in exactly the listed cases
    (\<open>completions_of_the_bodies\<close>); that the call of each body leaves what the
    handler of \<open>Script\<close> leaves are lemmas (\<open>run_change_body\<close>,
    \<open>run_runtime_body\<close>, \<open>run_onload_body\<close>, \<open>run_onerror_body\<close>,
    \<open>page_of_click_body\<close>), used by the theorems on tasks; every run of tasks is
    a run of the page (\<open>tasks_refine_events\<close>) and every run of the page is
    delivered by a run of tasks (\<open>events_are_tasks\<close>); every reader holds both
    callbacks from its start on and has a result exactly after a good end
    (\<open>readers_hold_callbacks\<close>); the safety of the page is the safety of the
    browser (\<open>tasks_are_safe\<close>), and the session of the specification is
    implemented by the browser as it is by the page (\<open>browser_implements_session\<close>).
  \<^item> Files that change: the engine only sees what a selected file held when the page
    loaded it, whatever is modified or removed during the run
    (\<open>engine_sees_snapshots\<close>); a file that cannot be read at the end of its read
    ends the attempt with the failure notice (\<open>lost_file_reports_error\<close>).
  \<^item> Refinement: the page implements the session of the specification, up to the
    lines of the log that a message of the page has replaced
    (\<open>page_implements_session\<close>); along a run in which every event occurs in a
    situation that the state machine of the specification covers, the phase of the
    page follows the machine (\<open>disciplined_run_follows_spec\<close>); the three situations that it does not
    cover are reachable (\<open>pick_before_ready_leaves_spec\<close>,
    \<open>click_while_reading_leaves_spec\<close>, \<open>deselect_leaves_spec\<close>).
  \<^item> Two behaviours that the specification leaves open or states otherwise: reads
    overlap and the last read to end wins (\<open>stale_result_race\<close>), although the
    engine is called with the same texts in every order
    (\<open>calls_independent_of_order\<close>); and an engine failure adds no line to the log
    (\<open>load_engine_throws\<close>).
  \<^item> The texts: the decimal rendering of the length and its reading
    (\<open>js_of_nat_roundtrip\<close>, \<open>js_of_nat_digit_count\<close>,
    \<open>reported_length_roundtrip\<close>), the messages (\<open>messages_distinct\<close>).

  \<^bold>\<open>Bounds and assumptions.\<close> Nothing is bounded by fuel: every definition is a
  total function or an inductive relation, and no loop occurs in the script. The one
  loop of the model, \<open>settle\<close>, is the browser's; it returns an option, and
  \<open>settle_halts\<close> shows that the option is never \<open>None\<close> on a reachable page,
  with the number of reads in flight as the measure. The two
  decoders are recursive functions that can put bytes back; their termination is proved
  with measures that count the bytes left and the bytes held in the state. In
  \<open>Files\<close> the disk does not change during a run; in \<open>Snapshots\<close> it changes in
  the one way that the File API lets the page observe: a file that was modified or
  removed can no longer be read. A string length is below \<open>2 ^ 53\<close>, where the
  decimal rendering of a number is its plain digits. The engine is assumed to return or
  throw (a call that never returns is not modelled). That the picker has a list of
  files at the load (\<open>fileInput_files\<close> is not \<open>None\<close> in \<open>initial\<close>) is
  an assumption on the markup, which is not under \<^verbatim>\<open>src/\<close>: the element with
  the id \<^verbatim>\<open>fileInput\<close> is the file-picker input of section 6 of the
  specification. That the list stays one is the invariant \<open>picker_ok\<close>; without
  the assumption line 38 throws, as \<open>on_click\<close> and \<open>click_body\<close> have it,
  and \<open>no_null_failure\<close> rests on it. The five elements that lines 6-12 look up and the module exist, as the
  specification assumes, in every theory but \<open>Script\<close>, \<open>Statements\<close>,
  \<open>FileApi\<close> and \<open>Tasks\<close>, which show that this is the only assumption on the
  document and what happens without it. The tasks of a read follow the File API: one
  \<^verbatim>\<open>loadstart\<close> when the first chunk has arrived, \<^verbatim>\<open>progress\<close> after it, and
  one end; \<^verbatim>\<open>loadend\<close> follows the end in the same task and has no callback.
  \<^verbatim>\<open>abort\<close> is fired by the method of that name only, which the script never
  calls, so no task for it exists.

  Line 27 is modelled twice. In \<open>Engine\<close> the call of \<^verbatim>\<open>Module.cwrap\<close>
  returns the engine of the module, a function on strings about which nothing is
  assumed; this is what the source says. In \<open>Cwrap\<close> that function is taken
  apart (\<open>wrapped\<close>): the glue code that does the conversions is not under
  \<^verbatim>\<open>src/\<close>, and it is modelled from the contract of section 6 of the
  specification, a UTF-8 string in each direction, with a null pointer read as the
  empty string. The same holds of \<open>text_of_bytes\<close>: of line 73 it has the label
  \<^verbatim>\<open>utf-8\<close>, the decoder is the browser's, after the Encoding Standard. How the
  glue code writes a surrogate without a partner, and what it makes of an answer that
  is not well-formed UTF-8 or starts with a byte order mark, depends on its version.
  The first cannot occur for the text of a load (\<open>loaded_text_well_formed\<close>). For
  the second the model decodes with replacement and keeps the mark:
  \<open>file_through_the_wrapper\<close> and \<open>zero_cuts_the_argument\<close> state the result
  area as \<open>UTF8ToString r\<close> for every answer \<open>r\<close>, which is the text that the
  answer encodes when \<open>r\<close> is well-formed UTF-8 without a mark
  (\<open>UTF8ToString_encode\<close>) and is what this model of the glue code says
  otherwise.

  \<^bold>\<open>Not modelled.\<close> The engine itself (compiled code outside \<^verbatim>\<open>src/\<close>): it
  is a parameter, a function on strings in \<open>Engine\<close> and on bytes in \<open>Cwrap\<close>.
  The memory of the module, where the wrapper puts the bytes (the stack pointer is
  restored after the call, which the script cannot observe). The markup and styling of
  the page. Time: the model has the order of the tasks and not their moments, which no
  statement of the script reads. Which of the possible tasks the browser runs next is
  not fixed (\<open>settle\<close> ends the oldest read first; the theorems of \<open>EventLoop\<close>
  and \<open>Tasks\<close> hold for every order).

  \<^bold>\<open>Plan for the next steps.\<close> (1) The attempts of a run as a unit: each click
  with the read that it starts, its file, its report and its answer. (2) The wrapper on
  an answer that is not well-formed UTF-8, for the versions of the glue code.
\<close>

section \<open>Whole attempts\<close>

text \<open>
  An attempt is a click and the end of the read that the click started. The two lemmas
  give the page after an attempt as one update of the page before it.
\<close>

lemma run_click_load:
  assumes "fileInput_files s = Some (f # fs)" and "processText s = Some g"
    and "g (calls s) t = Returns r"
  shows "run s [Click, Load (length (readers s)) t] =
    Some (s\<lparr>logArea := file_read_line (length t) @ analysis_done, resultDiv := r,
      calls := calls s @ [t],
      readers := readers s @ [\<lparr>reading = Some f, ready_state = DONE\<rparr>]\<rparr>)"
  using assms by (simp add: fire_def eval_defs)

lemma run_click_error:
  assumes "fileInput_files s = Some (f # fs)" and "processText s = Some g"
  shows "run s [Click, Error (length (readers s))] =
    Some (s\<lparr>logArea := read_failed,
      readers := readers s @ [\<lparr>reading = Some f, ready_state = DONE\<rparr>]\<rparr>)"
  using assms by (simp add: fire_def eval_defs)

section \<open>Scenarios of the specification\<close>

text \<open>
  From any reachable page on which the engine has started and a file is
  selected, one click followed by the good end of the read that it started is a run of
  the page, and it ends with the engine's answer to the text in the result area, the
  length line and the completion notice in the log, and no read in flight that was not
  in flight before.
\<close>

theorem displayed_after_click_and_load:
  assumes "reachable s" and "engine_ready s" and "fileInput_files s = Some (f # fs)"
    and "wasm_module s (calls s) t = Returns r"
  shows "\<exists>s'. run s [Click, Load (length (readers s)) t] = Some s' \<and> resultDiv s' = r \<and>
    logArea s' = file_read_line (length t) @ analysis_done \<and> calls s' = calls s @ [t] \<and>
    in_flight s' = in_flight s \<and> uncaught s' = uncaught s"
proof -
  from assms(1,2) have "processText s = Some (wasm_module s)" by (rule reachable_ready)
  from run_click_load [OF assms(3) this assms(4)] show ?thesis
    by (simp add: in_flight_def)
qed

lemma run_to_picked_page:
  "run (page_load g) [RuntimeInitialized, Change [hello_txt]] = Some (picked_page g)"
  by (simp add: fire_def picked_page_def ready_page_def)

lemma reachable_picked_page: "reachable (picked_page g)"
  by (rule run_reachable [OF reachable.init [OF initial_page_load] run_to_picked_page])

lemma picked_page_fields:
  "engine_ready (picked_page g)" "fileInput_files (picked_page g) = Some [hello_txt]"
  "calls (picked_page g) = []" "readers (picked_page g) = []" "wasm_module (picked_page g) = g"
  "uncaught (picked_page g) = []"
  by (simp_all add: eval_defs)

theorem displayed_after_click_and_load_witness:
  "reachable (picked_page upper_engine) \<and> engine_ready (picked_page upper_engine) \<and>
   (\<exists>s'. run (picked_page upper_engine) [Click, Load 0 (ascii ''hello'')] = Some s' \<and>
      resultDiv s' = ascii ''HELLO'' \<and> logArea s' = file_read_line 5 @ analysis_done \<and>
      calls s' = [ascii ''hello''] \<and> in_flight s' = 0)"
proof -
  have "wasm_module (picked_page upper_engine) (calls (picked_page upper_engine)) (ascii ''hello'')
      = Returns (ascii ''HELLO'')"
    by (simp add: picked_page_fields upper_engine_def upper_unit_def ascii_def)
  from displayed_after_click_and_load [OF reachable_picked_page picked_page_fields(1,2) this]
  show ?thesis
    by (auto simp: reachable_picked_page picked_page_fields in_flight_def eval_nat_numeral)
qed

text \<open>
  C26 (safety, a race). Two reads can be in flight at once, and their results are shown
  in the order in which the reads end, not in the order of the clicks: if the user
  clicks with file \<open>a\<close> selected, selects \<open>b\<close>, clicks again, and the read of \<open>b\<close>
  ends before the read of \<open>a\<close>, the page names \<open>b\<close> as the selected file while the
  result area shows the engine's answer for the text of \<open>a\<close>.
\<close>

theorem stale_result_race:
  assumes "reachable s" and "engine_ready s" and "fileInput_files s = Some (a # fs)"
    and "wasm_module s (calls s) tb = Returns rb"
    and "wasm_module s (calls s @ [tb]) ta = Returns ra"
  shows "\<exists>s'. run s [Click, Change [b], Click, Load (Suc (length (readers s))) tb,
        Load (length (readers s)) ta] = Some s' \<and>
    fileInput_files s' = Some [b] \<and> fileNameSpan s' = file_name b \<and> resultDiv s' = ra \<and>
    calls s' = calls s @ [tb, ta] \<and>
    readers s' = readers s @ [\<lparr>reading = Some a, ready_state = DONE\<rparr>,
      \<lparr>reading = Some b, ready_state = DONE\<rparr>]"
proof -
  from assms(1,2) have "processText s = Some (wasm_module s)" by (rule reachable_ready)
  with assms(3-5) show ?thesis
    by (simp add: fire_def eval_defs nth_append list_update_append)
qed

definition world_txt :: jsfile where
  "world_txt = \<lparr>file_name = ascii ''world.txt'', file_blob = 1\<rparr>"

theorem stale_result_race_witness:
  "reachable (picked_page upper_engine) \<and>
   (\<exists>s'. run (picked_page upper_engine)
        [Click, Change [world_txt], Click, Load 1 (ascii ''world''), Load 0 (ascii ''hello'')] = Some s' \<and>
      fileInput_files s' = Some [world_txt] \<and> fileNameSpan s' = ascii ''world.txt'' \<and>
      resultDiv s' = ascii ''HELLO'' \<and> calls s' = [ascii ''world'', ascii ''hello''])"
proof -
  have b: "wasm_module (picked_page upper_engine) (calls (picked_page upper_engine)) (ascii ''world'')
      = Returns (ascii ''WORLD'')"
    by (simp add: picked_page_fields upper_engine_def upper_unit_def ascii_def)
  have a: "wasm_module (picked_page upper_engine) (calls (picked_page upper_engine) @ [ascii ''world''])
      (ascii ''hello'') = Returns (ascii ''HELLO'')"
    by (simp add: picked_page_fields upper_engine_def upper_unit_def ascii_def)
  from stale_result_race [OF reachable_picked_page picked_page_fields(1,2) b a, of world_txt]
  show ?thesis
    by (auto simp: reachable_picked_page picked_page_fields world_txt_def)
qed

text \<open>
  C32 (liveness). A failed read does not leave the page stuck: from any reachable page
  with the engine started and a file selected, a click whose read fails, followed by a
  second click whose read ends well, ends with the engine's answer on display and the
  log of a good attempt; the failure notice of the first attempt is gone.
\<close>

theorem read_failure_then_retry:
  assumes "reachable s" and "engine_ready s" and "fileInput_files s = Some (f # fs)"
    and "wasm_module s (calls s) t = Returns r"
  shows "\<exists>s'. run s [Click, Error (length (readers s)), Click, Load (Suc (length (readers s))) t]
        = Some s' \<and>
    resultDiv s' = r \<and> logArea s' = file_read_line (length t) @ analysis_done \<and>
    calls s' = calls s @ [t] \<and> in_flight s' = in_flight s \<and> uncaught s' = uncaught s"
proof -
  from assms(1,2) have "processText s = Some (wasm_module s)" by (rule reachable_ready)
  with assms(3,4) show ?thesis
    by (simp add: fire_def eval_defs in_flight_def nth_append list_update_append)
qed

theorem read_failure_then_retry_witness:
  "reachable (picked_page upper_engine) \<and>
   (\<exists>s'. run (picked_page upper_engine) [Click, Error 0, Click, Load 1 (ascii ''hello'')] = Some s' \<and>
      resultDiv s' = ascii ''HELLO'' \<and> logArea s' = file_read_line 5 @ analysis_done \<and>
      calls s' = [ascii ''hello''] \<and> in_flight s' = 0)"
proof -
  have "wasm_module (picked_page upper_engine) (calls (picked_page upper_engine)) (ascii ''hello'')
      = Returns (ascii ''HELLO'')"
    by (simp add: picked_page_fields upper_engine_def upper_unit_def ascii_def)
  from read_failure_then_retry [OF reachable_picked_page picked_page_fields(1,2) this]
  show ?thesis
    by (auto simp: reachable_picked_page picked_page_fields in_flight_def eval_nat_numeral)
qed

text \<open>
  C37 (functional). When the user selects a file \<open>a\<close> and then a file \<open>b\<close> before
  clicking, the click starts exactly one read, and it is a read of \<open>b\<close>: no reader is
  ever started on \<open>a\<close>, so the content of \<open>a\<close> cannot reach the engine.
\<close>

theorem second_pick_wins:
  assumes "engine_ready s"
  shows "\<exists>s'. run s [Change [a], Change [b], Click] = Some s' \<and>
    readers s' = readers s @ [\<lparr>reading = Some b, ready_state = LOADING\<rparr>] \<and>
    fileNameSpan s' = file_name b \<and> calls s' = calls s"
  using assms by (auto simp: fire_def eval_defs)

theorem second_pick_wins_witness:
  "engine_ready (ready_page upper_engine) \<and>
   (\<exists>s'. run (ready_page upper_engine) [Change [hello_txt], Change [world_txt], Click] = Some s' \<and>
      readers s' = [\<lparr>reading = Some world_txt, ready_state = LOADING\<rparr>] \<and>
      fileNameSpan s' = ascii ''world.txt'' \<and> calls s' = [])"
proof -
  have r: "engine_ready (ready_page upper_engine)" by (simp add: eval_defs)
  from second_pick_wins [OF r, of hello_txt world_txt] r show ?thesis
    by (auto simp: eval_defs world_txt_def)
qed

text \<open>
  C36 (functional). The file of an attempt is the one that was selected at the click: a
  selection that the user makes while the read is in flight changes the picker and the
  file name, and leaves the reader on the file that it was started on.
\<close>

theorem selection_captured_at_click:
  assumes "engine_ready s" and "fileInput_files s = Some (a # fs)"
  shows "\<exists>s'. run s [Click, Change gs] = Some s' \<and>
    readers s' = readers s @ [\<lparr>reading = Some a, ready_state = LOADING\<rparr>] \<and>
    fileInput_files s' = Some gs"
  using assms by (auto simp: fire_def eval_defs)

theorem selection_captured_at_click_witness:
  "engine_ready (picked_page upper_engine) \<and>
   (\<exists>s'. run (picked_page upper_engine) [Click, Change []] = Some s' \<and>
      readers s' = [\<lparr>reading = Some hello_txt, ready_state = LOADING\<rparr>] \<and>
      fileInput_files s' = Some [] \<and> fileNameSpan s' = no_file_selected)"
proof -
  from selection_captured_at_click [OF picked_page_fields(1,2), of upper_engine "[]"]
  show ?thesis
    by (auto simp: picked_page_fields fire_def on_change_none)
qed

section \<open>Attempts on the files of a disk\<close>

text \<open>
  C12 (functional). From any reachable page with the engine started and a file selected
  that the disk can read, a click and the end of its read as the disk gives it are a
  run of the page; it ends with the engine's answer to the decoded content of the file
  on display, and with a log whose number is the length of the decoded text in UTF-16
  code units: never more than the size of the file in bytes, and equal to it when the
  file holds ASCII only.
\<close>

theorem file_attempt_displays:
  assumes "reachable s" and "engine_ready s" and "fileInput_files s = Some (f # fs)"
    and "d (file_blob f) = Some bs"
    and "wasm_module s (calls s) (text_of_bytes bs) = Returns r"
  shows "\<exists>s' n. honest_run d s [Click, Load (length (readers s)) (text_of_bytes bs)] \<and>
    run s [Click, Load (length (readers s)) (text_of_bytes bs)] = Some s' \<and>
    resultDiv s' = r \<and> calls s' = calls s @ [text_of_bytes bs] \<and>
    logArea s' = file_read_line n @ analysis_done \<and> n = length (text_of_bytes bs) \<and>
    n \<le> length bs \<and> (is_ascii bs \<longrightarrow> n = length bs)"
proof -
  from assms(1,2) have p: "processText s = Some (wasm_module s)" by (rule reachable_ready)
  have "length (text_of_bytes bs) \<le> length bs"
    by (simp add: text_of_bytes_def length_decode)
  moreover have "is_ascii bs \<longrightarrow> length (text_of_bytes bs) = length bs"
    by (simp add: text_of_ascii)
  ultimately show ?thesis
    using run_click_load [OF assms(3) p assms(5)] honest_click_load [where d = d, OF assms(3) p assms(4)]
    by simp
qed

lemma upper_engine_hangul:
  "wasm_module (picked_page upper_engine) (calls (picked_page upper_engine))
     (text_of_bytes hangul_bytes) = Returns [0xD55C]"
  by (simp add: picked_page_fields upper_engine_def upper_unit_def text_of_hangul)

theorem file_attempt_displays_witness:
  "reachable (picked_page upper_engine) \<and> engine_ready (picked_page upper_engine) \<and>
   hangul_disk (file_blob hello_txt) = Some hangul_bytes \<and> length hangul_bytes = 3 \<and>
   (\<exists>s'. run (picked_page upper_engine) [Click, Load 0 (text_of_bytes hangul_bytes)] = Some s' \<and>
      resultDiv s' = [0xD55C] \<and> logArea s' = file_read_line 1 @ analysis_done)"
proof -
  have d: "hangul_disk (file_blob hello_txt) = Some hangul_bytes"
    by (simp add: hangul_disk_def hello_txt_def)
  from file_attempt_displays [where d = hangul_disk, OF reachable_picked_page picked_page_fields(1,2) d
      upper_engine_hangul]
  show ?thesis
    by (auto simp: reachable_picked_page picked_page_fields d text_of_hangul)
qed

text \<open>
  When the disk cannot read the selected file, the click and the end of
  its read are a run of the page that ends with the failure notice in the log; the
  engine is not called, and the selection and the result area stay as they were, so
  that the user can try again.
\<close>

theorem unreadable_file_reports_error:
  assumes "reachable s" and "engine_ready s" and "fileInput_files s = Some (f # fs)"
    and "d (file_blob f) = None"
  shows "\<exists>s'. honest_run d s [Click, Error (length (readers s))] \<and>
    run s [Click, Error (length (readers s))] = Some s' \<and>
    logArea s' = read_failed \<and> calls s' = calls s \<and> resultDiv s' = resultDiv s \<and>
    fileInput_files s' = fileInput_files s \<and> uncaught s' = uncaught s"
proof -
  from assms(1,2) have p: "processText s = Some (wasm_module s)" by (rule reachable_ready)
  from run_click_error [OF assms(3) p] honest_click_error [where d = d, OF assms(3) p assms(4)]
  show ?thesis by simp
qed

theorem unreadable_file_reports_error_witness:
  "reachable (picked_page upper_engine) \<and> engine_ready (picked_page upper_engine) \<and>
   hello_disk (file_blob world_txt) = None \<and>
   (\<exists>s'. run (on_change (pick_files [world_txt] (picked_page upper_engine))) [Click, Error 0]
        = Some s' \<and>
      logArea s' = read_failed \<and> calls s' = [] \<and> fileInput_files s' = Some [world_txt])"
proof -
  let ?s = "on_change (pick_files [world_txt] (picked_page upper_engine))"
  have r: "reachable ?s"
    by (rule reachable.step [OF reachable_picked_page step_change])
  have e: "engine_ready ?s" and f: "fileInput_files ?s = Some [world_txt]"
    and c: "calls ?s = []" "readers ?s = []"
    by (simp_all add: eval_defs)
  have d: "hello_disk (file_blob world_txt) = None"
    by (simp add: hello_disk_def world_txt_def)
  from unreadable_file_reports_error [where d = hello_disk, OF r e f d] show ?thesis
    by (auto simp: reachable_picked_page picked_page_fields d f c)
qed

section \<open>From the tasks of the browser to the session\<close>

text \<open>
  The tasks of the run \<open>eager_run\<close>: a click before the engine has started, the
  start, a selection, a click, and a read that fails before its first chunk.
\<close>

definition eager_tasks :: "task list" where
  "eager_tasks = [Clicked, Initialized, Changed [hello_txt], Clicked, Failed 0]"

lemma events_of_eager_tasks [simp]: "events_of eager_tasks = eager_run"
  by (simp add: eager_tasks_def eager_run_def)

lemma perform_eager_tasks:
  "\<exists>b'. perform_all full_document (browser_load upper_engine) eager_tasks = Some b' \<and>
     page_of b' = eager_page"
  by (simp add: eager_tasks_def eager_page_def task_defs page_of_def reader_of_def)

text \<open>
  C18 (refinement). The three levels compose. On a complete document, along every run of
  the browser's tasks from a load with an empty log and no selection, in which the
  engine starts once and answers without throwing, the page that the browser shows
  implements the session of the specification for the events that the tasks deliver:
  readiness, selection and last result agree, and the log surface shows the last lines
  of the session's log.
\<close>

theorem browser_implements_session:
  assumes "complete doc" and "initial (page_of b)" and "logArea b = []"
    and "fileInput_files b = Some []" and "perform_all doc b ks = Some b'"
    and "covered_run (page_of b) (events_of ks)"
  shows "implements (page_of b') (session_run l (page_of b) (events_of ks) new_session)"
proof -
  from assms(2) have "browser_ok b" by (simp add: initial_def browser_ok_def)
  with assms(1,5) have "run (page_of b) (events_of ks) = Some (page_of b')"
    by (auto dest: run_in_events_of simp: run_complete)
  moreover from assms(2-4) have "implements (page_of b) new_session"
    by (intro implements_new_session) simp_all
  moreover from assms(2) have "reachable (page_of b)" by (rule reachable.init)
  ultimately show ?thesis using assms(6) by (intro implements_run)
qed

theorem browser_implements_session_witness:
  "complete full_document \<and> events_of eager_tasks = eager_run \<and>
   (\<exists>b'. perform_all full_document (browser_load upper_engine) eager_tasks = Some b' \<and>
      page_of b' = eager_page) \<and>
   covered_run (page_load upper_engine) eager_run \<and>
   implements eager_page eager_session \<and>
   log eager_session = [select_file_first, wasm_loaded, read_failed] \<and>
   logArea eager_page = read_failed"
proof -
  from perform_eager_tasks obtain b'
    where p: "perform_all full_document (browser_load upper_engine) eager_tasks = Some b'"
      and b': "page_of b' = eager_page"
    by blast
  have i: "initial (page_of (browser_load upper_engine))"
    and e: "logArea (browser_load upper_engine) = []"
      "fileInput_files (browser_load upper_engine) = Some []"
    and c: "covered_run (page_of (browser_load upper_engine)) (events_of eager_tasks)"
    by (simp_all add: covered_eager_run) (simp_all add: browser_load_def)
  from browser_implements_session [OF complete_full_document i e p c, of "[]"]
  have "implements eager_page eager_session" by (simp add: b' session_eager_run)
  with p b' covered_eager_run show ?thesis
    by (auto simp: eager_session_def eager_page_def)
qed

section \<open>The file through the wrapper\<close>

text \<open>
  C21 (functional). With the engine of the module a wrapped compiled function, an
  attempt on a file that is well-formed UTF-8 hands the compiled function the bytes of
  the file, without the byte order mark and up to the first zero byte, and shows its
  answer, decoded; the log reports the length of the decoded text.
\<close>

theorem file_through_the_wrapper:
  assumes "reachable s" and "engine_ready s" and "wasm_module s = wrapped f"
    and "fileInput_files s = Some (file # fs)" and "d (file_blob file) = Some bs"
    and "valid_utf8 bs" and "f (c_calls s) (c_string (drop_bom bs)) = Returns r"
  shows "\<exists>s'. honest_run d s [Click, Load (length (readers s)) (text_of_bytes bs)] \<and>
    run s [Click, Load (length (readers s)) (text_of_bytes bs)] = Some s' \<and>
    c_calls s' = c_calls s @ [c_string (drop_bom bs)] \<and> resultDiv s' = UTF8ToString r \<and>
    logArea s' = file_read_line (length (text_of_bytes bs)) @ analysis_done"
proof -
  from assms(1,2) have p: "processText s = Some (wasm_module s)" by (rule reachable_ready)
  from assms(6,7) have "wasm_module s (calls s) (text_of_bytes bs) = Returns (UTF8ToString r)"
    unfolding assms(3) by (intro wrapped_returns) (simp add: argument_text_of_bytes c_calls_def)
  from run_click_load [OF assms(4) p this] honest_click_load [where d = d, OF assms(4) p assms(5)]
    assms(6)
  show ?thesis by (simp add: c_calls_def argument_text_of_bytes)
qed

theorem file_through_the_wrapper_witness:
  "reachable (picked_page (wrapped c_upper)) \<and> valid_utf8 hello_bytes \<and>
   hello_disk (file_blob hello_txt) = Some hello_bytes \<and>
   (\<exists>s'. run (picked_page (wrapped c_upper)) [Click, Load 0 (ascii ''hello'')] = Some s' \<and>
      c_calls s' = [hello_bytes] \<and> resultDiv s' = ascii ''HELLO'' \<and>
      logArea s' = file_read_line 5 @ analysis_done)"
proof -
  have d: "hello_disk (file_blob hello_txt) = Some hello_bytes"
    by (simp add: hello_disk_def hello_txt_def)
  have b: "c_string (drop_bom hello_bytes) = hello_bytes"
    by (simp add: c_string_def drop_bom_def hello_bytes_def)
  have "c_upper (c_calls (picked_page (wrapped c_upper))) (c_string (drop_bom hello_bytes)) =
      Returns (Some [0x48, 0x45, 0x4C, 0x4C, 0x4F])"
    unfolding b by (simp add: c_upper_def hello_bytes_def)
  from file_through_the_wrapper [where d = hello_disk and f = c_upper
        and s = "picked_page (wrapped c_upper)",
      OF reachable_picked_page picked_page_fields(1,5,2) d valid_utf8_hello this]
  have "\<exists>s'. run (picked_page (wrapped c_upper)) [Click, Load 0 (text_of_bytes hello_bytes)] = Some s' \<and>
      c_calls s' = [hello_bytes] \<and> resultDiv s' = UTF8ToString (Some [0x48, 0x45, 0x4C, 0x4C, 0x4F]) \<and>
      logArea s' = file_read_line (length (text_of_bytes hello_bytes)) @ analysis_done"
    by (simp add: picked_page_fields c_calls_def b)
  moreover have "UTF8ToString (Some [0x48, 0x45, 0x4C, 0x4C, 0x4F]) = ascii ''HELLO''"
    by (simp add: c_defs decode_defs ascii_def utf8_end_def utf8_init_def)
  ultimately show ?thesis
    by (simp add: reachable_picked_page valid_utf8_hello d text_of_hello eval_nat_numeral)
qed

text \<open>
  The number in the log is not the size of the file: a file of three
  bytes that holds one Hangul syllable is reported with the length 1, under the label
  bytes.
\<close>

theorem length_label_counts_code_units:
  "honest_run hangul_disk (picked_page upper_engine) [Click, Load 0 [0xD55C]] \<and>
   (\<exists>s. run (picked_page upper_engine) [Click, Load 0 [0xD55C]] = Some s \<and>
      logArea s = file_read_prefix @ ascii ''1'' @ ascii '' bytes'' @ [LF] @ analysis_done) \<and>
   hangul_disk (file_blob hello_txt) = Some hangul_bytes \<and> length hangul_bytes = 3"
  by (simp add: fire_def eval_defs read_outcome_def hangul_disk_def text_of_hangul
      upper_engine_def upper_unit_def file_read_line_def file_read_suffix_def
      js_of_nat_small digit_unit_def ascii_def LF_def)

text \<open>
  C40 (round trip). The round trip of the specification, for every file of plain ASCII
  and not only for the five bytes of \<open>hello\<close>: from any reachable page with the
  engine started, an attempt on a selected file whose bytes are all below \<open>0x80\<close>
  calls the engine with one code unit for each byte of the file, of the same value,
  shows the engine's answer, and reports a length that is the size of the file.
\<close>

theorem ascii_file_round_trip:
  assumes "reachable s" and "engine_ready s" and "fileInput_files s = Some (f # fs)"
    and "d (file_blob f) = Some bs" and "is_ascii bs"
    and "wasm_module s (calls s) (map ucast bs) = Returns r"
  shows "\<exists>s'. honest_run d s [Click, Load (length (readers s)) (map ucast bs)] \<and>
    run s [Click, Load (length (readers s)) (map ucast bs)] = Some s' \<and>
    calls s' = calls s @ [map ucast bs] \<and> resultDiv s' = r \<and>
    logArea s' = file_read_line (length bs) @ analysis_done \<and> uncaught s' = uncaught s"
proof -
  from assms(1,2) have p: "processText s = Some (wasm_module s)" by (rule reachable_ready)
  from assms(5) have t: "text_of_bytes bs = map ucast bs" by (rule text_of_ascii)
  from run_click_load [OF assms(3) p assms(6)]
    honest_click_load [where d = d, OF assms(3) p assms(4)]
  show ?thesis by (simp add: t)
qed

theorem ascii_file_round_trip_witness:
  "run (page_load upper_engine) [RuntimeInitialized, Change [hello_txt]] =
     Some (picked_page upper_engine) \<and>
   hello_disk (file_blob hello_txt) = Some hello_bytes \<and> is_ascii hello_bytes \<and>
   (\<exists>s'. run (picked_page upper_engine) [Click, Load 0 (ascii ''hello'')] = Some s' \<and>
      calls s' = [ascii ''hello''] \<and> resultDiv s' = ascii ''HELLO'' \<and>
      logArea s' = file_read_prefix @ ascii ''5'' @ file_read_suffix @ analysis_done \<and>
      uncaught s' = [])"
proof -
  have d: "hello_disk (file_blob hello_txt) = Some hello_bytes"
    by (simp add: hello_disk_def hello_txt_def)
  have a: "is_ascii hello_bytes" by (simp add: is_ascii_def hello_bytes_def)
  have u: "map ucast hello_bytes = ascii ''hello''" by (simp add: hello_bytes_def ascii_def)
  have e: "wasm_module (picked_page upper_engine) (calls (picked_page upper_engine))
      (map ucast hello_bytes) = Returns (ascii ''HELLO'')"
    by (simp add: picked_page_fields u) (simp add: upper_engine_def upper_unit_def ascii_def)
  have l: "file_read_line (length hello_bytes) =
      file_read_prefix @ ascii ''5'' @ file_read_suffix"
    by (simp add: hello_bytes_def file_read_line_def js_of_nat_small digit_unit_def ascii_def)
  from ascii_file_round_trip [where d = hello_disk,
      OF reachable_picked_page picked_page_fields(1,2) d a e]
  have "\<exists>s'. run (picked_page upper_engine) [Click, Load 0 (ascii ''hello'')] = Some s' \<and>
      calls s' = [ascii ''hello''] \<and> resultDiv s' = ascii ''HELLO'' \<and>
      logArea s' = file_read_prefix @ ascii ''5'' @ file_read_suffix @ analysis_done \<and>
      uncaught s' = []"
    unfolding u l by (simp only: picked_page_fields list.size append_Nil append_assoc) blast
  with run_to_picked_page [of upper_engine] d a show ?thesis by (simp only: simp_thms)
qed

end
